(* ===== verification/Go_Prelude.thy ===== *)
theory Go_Prelude
  imports Main "HOL-Library.AList" "HOL-Library.Multiset" "HOL-Library.Char_ord" "HOL-Library.List_Lexorder"
begin

text \<open>
  What the components share: the parts of the Go language and of its \<open>strings\<close>, \<open>strconv\<close>
  and \<open>path/filepath\<close> packages that the sources use, and the generic facts about them.

  A Go string is a sequence of bytes, so it is a \<^typ>\<open>string\<close> (a list of 8-bit characters),
  indexed and measured in bytes. A Go map is an association list with distinct keys: the
  order of the list is the order in which a \<open>range\<close> loop visits it, which Go leaves open, so
  a statement about every such list is a statement about every visiting order. Where the code
  ranges over the same map more than once and the order can differ, the model takes the order
  of each visit as an argument.
\<close>

named_theorems go_defs \<open>definitions of the Go library functions, for unfolding\<close>

section \<open>Maps\<close>

type_synonym 'v gomap = "(string \<times> 'v) list"

definition gmap_ok :: "'v gomap \<Rightarrow> bool" where
  "gmap_ok m = distinct (map fst m)"

text \<open>\<open>m[k] = v\<close> and \<open>delete(m, k)\<close>.\<close>

abbreviation mput :: "string \<Rightarrow> 'v \<Rightarrow> 'v gomap \<Rightarrow> 'v gomap" where
  "mput \<equiv> AList.update"

abbreviation mdel :: "string \<Rightarrow> 'v gomap \<Rightarrow> 'v gomap" where
  "mdel \<equiv> AList.delete"

text \<open>\<open>for k, v := range src { dst[k] = v }\<close>\<close>

fun mput_all :: "'v gomap \<Rightarrow> 'v gomap \<Rightarrow> 'v gomap" where
  "mput_all dst [] = dst"
| "mput_all dst ((k, v) # src) = mput_all (mput k v dst) src"

text \<open>\<open>m[k]\<close>: a missing key reads as the zero value \<open>z\<close> of the element type.\<close>

definition mget :: "'v \<Rightarrow> 'v gomap \<Rightarrow> string \<Rightarrow> 'v" where
  "mget z m k = (case map_of m k of Some v \<Rightarrow> v | None \<Rightarrow> z)"

abbreviation mget_str :: "string gomap \<Rightarrow> string \<Rightarrow> string" where
  "mget_str \<equiv> mget []"

text \<open>
  One visit of a \<open>range\<close> loop over a map that the code visits more than once: \<open>rank\<close> gives the
  place of each key in this visit, so every order of the keys is the order of some \<open>rank\<close>.
\<close>

definition mvisit :: "(string \<Rightarrow> nat) \<Rightarrow> 'v gomap \<Rightarrow> 'v gomap" where
  "mvisit rank m = sort_key (\<lambda>(k, v). rank k) m"

lemma gmap_ok_Nil [simp]: "gmap_ok []"
  by (simp add: gmap_ok_def)

lemma gmap_ok_mput [simp]: "gmap_ok m \<Longrightarrow> gmap_ok (mput k v m)"
  by (simp add: gmap_ok_def distinct_update)

lemma gmap_ok_mdel [simp]: "gmap_ok m \<Longrightarrow> gmap_ok (mdel k m)"
  by (simp add: gmap_ok_def distinct_delete)

lemma gmap_ok_mput_all [simp]: "gmap_ok m \<Longrightarrow> gmap_ok (mput_all m n)"
  by (induction m n rule: mput_all.induct) simp_all

lemma map_of_mput [simp]: "map_of (mput k v m) = (map_of m)(k \<mapsto> v)"
  by (rule update_conv')

lemma map_of_mdel [simp]: "map_of (mdel k m) = (map_of m)(k := None)"
  by (rule delete_conv')

lemma map_of_mput_all: "gmap_ok n \<Longrightarrow> map_of (mput_all m n) = map_of m ++ map_of n"
proof (induction m n rule: mput_all.induct)
  case (1 dst)
  then show ?case by simp
next
  case (2 dst k v src)
  then have "k \<notin> dom (map_of src)"
    by (simp add: gmap_ok_def dom_map_of_conv_image_fst)
  with 2 show ?case
    by (auto simp: gmap_ok_def map_add_def fun_eq_iff dom_def split: option.splits)
qed

lemma map_of_mput_all_rev: "map_of (mput_all m n) = map_of m ++ map_of (rev n)"
  by (induction m n rule: mput_all.induct) (auto simp: map_add_def fun_eq_iff split: option.splits)

lemma dom_mput_all: "dom (map_of (mput_all m n)) = dom (map_of m) \<union> fst ` set n"
  by (induction m n rule: mput_all.induct) auto

lemma mget_mput [simp]:
  "mget z (mput k v m) k' = (if k' = k then v else mget z m k')"
  by (simp add: mget_def)

lemma mget_Nil [simp]: "mget z [] k = z"
  by (simp add: mget_def)

lemma mget_Some: "map_of m k = Some v \<Longrightarrow> mget z m k = v"
  by (simp add: mget_def)

lemma set_mvisit [simp]: "set (mvisit rank m) = set m"
  by (simp add: mvisit_def)

lemma distinct_keys_mvisit [simp]:
  "distinct (map fst (mvisit rank m)) = distinct (map fst m)"
proof -
  have "mset (map fst (mvisit rank m)) = mset (map fst m)"
    by (simp add: mvisit_def)
  then show ?thesis
    by (rule mset_eq_imp_distinct_iff)
qed

lemma gmap_ok_in_set_iff: "gmap_ok m \<Longrightarrow> (k, v) \<in> set m \<longleftrightarrow> map_of m k = Some v"
  by (simp add: gmap_ok_def map_of_eq_Some_iff)

section \<open>Strings\<close>

text \<open>\<open>strings.HasPrefix\<close>, \<open>strings.HasSuffix\<close> and \<open>strings.Index\<close>.\<close>

definition HasPrefix :: "string \<Rightarrow> string \<Rightarrow> bool" where
  [go_defs]: "HasPrefix s p = (take (length p) s = p)"

definition HasSuffix :: "string \<Rightarrow> string \<Rightarrow> bool" where
  [go_defs]: "HasSuffix s p = (length p \<le> length s \<and> drop (length s - length p) s = p)"

fun Index :: "string \<Rightarrow> string \<Rightarrow> nat option" where
  "Index [] sub = (if sub = [] then Some 0 else None)"
| "Index (c # cs) sub =
     (if HasPrefix (c # cs) sub then Some 0 else map_option Suc (Index cs sub))"

definition Contains :: "string \<Rightarrow> string \<Rightarrow> bool" where
  [go_defs]: "Contains s sub = (Index s sub \<noteq> None)"

text \<open>\<open>strings.LastIndex\<close> for a one-byte separator.\<close>

fun LastIndexByte :: "string \<Rightarrow> char \<Rightarrow> nat option" where
  "LastIndexByte [] c = None"
| "LastIndexByte (x # xs) c =
     (case LastIndexByte xs c of
        Some i \<Rightarrow> Some (Suc i)
      | None \<Rightarrow> if x = c then Some 0 else None)"

text \<open>\<open>strings.Split\<close> and \<open>strings.SplitN\<close> for a one-byte separator.\<close>

fun Split :: "string \<Rightarrow> char \<Rightarrow> string list" where
  "Split [] c = [[]]"
| "Split (x # xs) c =
     (if x = c then [] # Split xs c
      else (case Split xs c of [] \<Rightarrow> [[x]] | l # ls \<Rightarrow> (x # l) # ls))"

fun SplitN :: "string \<Rightarrow> char \<Rightarrow> nat \<Rightarrow> string list" where
  "SplitN s c 0 = []"
| "SplitN s c (Suc 0) = [s]"
| "SplitN s c (Suc (Suc n)) =
     (if c \<in> set s
      then takeWhile (\<lambda>x. x \<noteq> c) s # SplitN (tl (dropWhile (\<lambda>x. x \<noteq> c) s)) c (Suc n)
      else [s])"

text \<open>\<open>strings.Join\<close>.\<close>

fun Join :: "string list \<Rightarrow> string \<Rightarrow> string" where
  "Join [] sep = []"
| "Join [s] sep = s"
| "Join (s # t # ss) sep = s @ sep @ Join (t # ss) sep"

text \<open>
  \<open>strings.ReplaceAll\<close> for a nonempty \<open>old\<close>: the non-overlapping occurrences from the left.
\<close>

function ReplaceAll :: "string \<Rightarrow> string \<Rightarrow> string \<Rightarrow> string" where
  "ReplaceAll s old new =
     (case s of
        [] \<Rightarrow> []
      | c # cs \<Rightarrow>
          if old \<noteq> [] \<and> HasPrefix s old then new @ ReplaceAll (drop (length old) s) old new
          else c # ReplaceAll cs old new)"
  by pat_completeness auto
termination
  by (relation "measure (\<lambda>(s, old, new). length s)") (auto simp: HasPrefix_def)

declare ReplaceAll.simps [simp del]

text \<open>
  \<open>strings.TrimSpace\<close>: leading and trailing Unicode white space, here by the byte sequences
  that encode the characters for which \<open>unicode.IsSpace\<close> holds.
\<close>

definition space_codes :: "string list" where
  "space_codes =
     [[CHR 0x09], [CHR 0x0A], [CHR 0x0B], [CHR 0x0C], [CHR 0x0D], [CHR 0x20],
      [CHR 0xC2, CHR 0x85], [CHR 0xC2, CHR 0xA0], [CHR 0xE1, CHR 0x9A, CHR 0x80],
      [CHR 0xE2, CHR 0x80, CHR 0x80], [CHR 0xE2, CHR 0x80, CHR 0x81], [CHR 0xE2, CHR 0x80, CHR 0x82],
      [CHR 0xE2, CHR 0x80, CHR 0x83], [CHR 0xE2, CHR 0x80, CHR 0x84], [CHR 0xE2, CHR 0x80, CHR 0x85],
      [CHR 0xE2, CHR 0x80, CHR 0x86], [CHR 0xE2, CHR 0x80, CHR 0x87], [CHR 0xE2, CHR 0x80, CHR 0x88],
      [CHR 0xE2, CHR 0x80, CHR 0x89], [CHR 0xE2, CHR 0x80, CHR 0x8A], [CHR 0xE2, CHR 0x80, CHR 0xA8],
      [CHR 0xE2, CHR 0x80, CHR 0xA9], [CHR 0xE2, CHR 0x80, CHR 0xAF], [CHR 0xE2, CHR 0x81, CHR 0x9F],
      [CHR 0xE3, CHR 0x80, CHR 0x80]]"

text \<open>Strip from the left any of the codes \<open>cs\<close>, as long as one is a prefix.\<close>

function strip_codes :: "string list \<Rightarrow> string \<Rightarrow> string" where
  "strip_codes cs s =
     (case filter (\<lambda>c. c \<noteq> [] \<and> HasPrefix s c) cs of
        [] \<Rightarrow> s
      | c # _ \<Rightarrow> if s = [] then s else strip_codes cs (drop (length c) s))"
  by pat_completeness auto
termination
proof (relation "measure (\<lambda>(cs, s). length s)"; clarsimp)
  fix cs :: "string list" and s c rest
  assume f: "filter (\<lambda>c. c \<noteq> [] \<and> HasPrefix s c) cs = c # rest" and "s \<noteq> []"
  then have "c \<in> set (filter (\<lambda>c. c \<noteq> [] \<and> HasPrefix s c) cs)" by simp
  then show "length s - length c < length s"
    using \<open>s \<noteq> []\<close> by simp
qed

declare strip_codes.simps [simp del]

definition TrimSpace :: "string \<Rightarrow> string" where
  "TrimSpace s = rev (strip_codes (map rev space_codes) (rev (strip_codes space_codes s)))"

lemma HasPrefix_append [simp]: "HasPrefix (p @ s) p"
  by (simp add: HasPrefix_def)

lemma HasPrefix_iff: "HasPrefix s p \<longleftrightarrow> (\<exists>t. s = p @ t)"
  by (auto simp: HasPrefix_def) (metis append_take_drop_id)

lemma HasPrefix_Nil [simp]: "HasPrefix s []"
  by (simp add: HasPrefix_def)

lemma HasPrefix_Nil_left [simp]: "HasPrefix [] p \<longleftrightarrow> p = []"
  by (auto simp: HasPrefix_def)

lemma HasPrefix_Cons [simp]: "HasPrefix (x # xs) (y # ys) \<longleftrightarrow> x = y \<and> HasPrefix xs ys"
  by (simp add: HasPrefix_def)

lemma HasSuffix_iff: "HasSuffix s p \<longleftrightarrow> (\<exists>t. s = t @ p)"
proof
  assume "HasSuffix s p"
  then show "\<exists>t. s = t @ p"
    unfolding HasSuffix_def by (metis append_take_drop_id)
qed (auto simp: HasSuffix_def)

lemma Index_Some_prefix:
  "Index s sub = Some i \<Longrightarrow> i \<le> length s \<and> HasPrefix (drop i s) sub"
proof (induction s sub arbitrary: i rule: Index.induct)
  case (1 sub)
  then show ?case by (auto split: if_splits)
next
  case (2 c cs sub)
  then show ?case by (cases i) (auto split: if_splits)
qed

lemma Index_Some_append:
  "Index s sub = Some i \<Longrightarrow> s = take i s @ sub @ drop (i + length sub) s"
proof -
  assume "Index s sub = Some i"
  then have "HasPrefix (drop i s) sub"
    using Index_Some_prefix by blast
  then obtain t where t: "drop i s = sub @ t"
    by (auto simp: HasPrefix_iff)
  have "drop (i + length sub) s = drop (length sub) (drop i s)"
    by (simp add: add.commute)
  with t have "drop (i + length sub) s = t" by simp
  with t show ?thesis by (metis append_take_drop_id)
qed

lemma Split_not_Nil [simp]: "Split s c \<noteq> []"
  by (induction s c rule: Split.induct) (auto split: list.splits)

lemma Split_no_sep [simp]: "c \<notin> set s \<Longrightarrow> Split s c = [s]"
  by (induction s c rule: Split.induct) (auto split: list.splits)

lemma Split_sep [simp]: "c \<notin> set s \<Longrightarrow> Split (s @ c # t) c = s # Split t c"
  by (induction s) (auto split: list.splits)

lemma Split_parts_no_sep: "l \<in> set (Split s c) \<Longrightarrow> c \<notin> set l"
  by (induction s c arbitrary: l rule: Split.induct) (fastforce split: if_splits list.splits)+

lemma Split_append_sep: "Split (s @ c # t) c = Split s c @ Split t c"
  by (induction s) (auto split: list.splits)

section \<open>Decimal numerals\<close>

text \<open>\<open>strconv.Itoa\<close>, \<open>strconv.FormatInt(_, 10)\<close> and the verb \<open>%d\<close> of \<open>fmt.Sprintf\<close>.\<close>

definition digit_char :: "int \<Rightarrow> char" where
  "digit_char d = char_of (48 + d)"

function show_dec :: "int \<Rightarrow> string" where
  "show_dec n = (if n < 10 then [digit_char n] else show_dec (n div 10) @ [digit_char (n mod 10)])"
  by pat_completeness auto
termination
  by (relation "measure nat") auto

declare show_dec.simps [simp del]

definition Itoa :: "int \<Rightarrow> string" where
  "Itoa i = (if i < 0 then CHR ''-'' # show_dec (- i) else show_dec i)"

definition is_digit :: "char \<Rightarrow> bool" where
  "is_digit c = (CHR ''0'' \<le> c \<and> c \<le> CHR ''9'')"

definition digit_val :: "char \<Rightarrow> int" where
  "digit_val c = of_char c - 48"

definition digits_val :: "string \<Rightarrow> int" where
  "digits_val s = foldl (\<lambda>a c. 10 * a + digit_val c) 0 s"

text \<open>\<open>strconv.Atoi\<close>: an optional sign and decimal digits, within the range of \<open>int64\<close>.\<close>

definition Atoi :: "string \<Rightarrow> int option" where
  "Atoi s =
     (let neg = HasPrefix s ''-'';
          u = (if neg \<or> HasPrefix s ''+'' then tl s else s);
          v = (if neg then - digits_val u else digits_val u)
      in if u \<noteq> [] \<and> list_all is_digit u \<and> - (2 ^ 63) \<le> v \<and> v < 2 ^ 63 then Some v else None)"

lemma of_char_digit_char: "0 \<le> d \<Longrightarrow> d < 10 \<Longrightarrow> of_char (digit_char d) = 48 + d"
  by (simp add: digit_char_def)

lemma digit_char_is_digit [simp]:
  assumes "0 \<le> d" "d < 10"
  shows "is_digit (digit_char d)"
proof -
  have "int (of_char (digit_char d)) = 48 + d"
    using of_char_digit_char[OF assms] by (metis of_nat_of_char)
  then show ?thesis
    using assms by (auto simp: is_digit_def less_eq_char_def)
qed

lemma digit_val_digit_char [simp]: "0 \<le> d \<Longrightarrow> d < 10 \<Longrightarrow> digit_val (digit_char d) = d"
  by (simp add: digit_val_def of_char_digit_char)

lemma show_dec_not_Nil [simp]: "show_dec n \<noteq> []"
  by (subst show_dec.simps) simp

lemma show_dec_digits: "0 \<le> n \<Longrightarrow> c \<in> set (show_dec n) \<Longrightarrow> is_digit c"
proof (induction n arbitrary: c rule: show_dec.induct)
  case (1 n)
  then show ?case
    by (subst (asm) (2) show_dec.simps) (auto split: if_splits)
qed

lemma digits_val_show_dec [simp]: "0 \<le> n \<Longrightarrow> digits_val (show_dec n) = n"
proof (induction n rule: show_dec.induct)
  case (1 n)
  then show ?case
    by (subst show_dec.simps) (auto simp: digits_val_def)
qed

lemma show_dec_no_sign: "0 \<le> n \<Longrightarrow> \<not> HasPrefix (show_dec n) ''-'' \<and> \<not> HasPrefix (show_dec n) ''+''"
  using show_dec_digits[of n "hd (show_dec n)"]
  by (cases "show_dec n") (auto simp: is_digit_def)

lemma Atoi_Itoa: "- (2 ^ 63) \<le> i \<Longrightarrow> i < 2 ^ 63 \<Longrightarrow> Atoi (Itoa i) = Some i"
  using show_dec_no_sign[of i] show_dec_digits[of i] show_dec_digits[of "- i"]
  by (auto simp: Atoi_def Itoa_def Let_def list_all_iff)

section \<open>Paths\<close>

text \<open>
  \<open>filepath.Clean\<close> and \<open>filepath.Join\<close> on Unix. \<open>clean_comps\<close> walks the components with the
  ones kept so far in reverse: an empty component and \<open>.\<close> are dropped, \<open>..\<close> removes the
  component before it, is dropped at the root, and stays at the front of a relative path.
\<close>

fun clean_comps :: "bool \<Rightarrow> string list \<Rightarrow> string list \<Rightarrow> string list" where
  "clean_comps rooted acc [] = rev acc"
| "clean_comps rooted acc (x # xs) =
     (if x = [] \<or> x = ''.'' then clean_comps rooted acc xs
      else if x = ''..'' then
        (case acc of
           [] \<Rightarrow> if rooted then clean_comps rooted [] xs else clean_comps rooted [x] xs
         | y # ys \<Rightarrow> if y = ''..'' then clean_comps rooted (x # acc) xs else clean_comps rooted ys xs)
      else clean_comps rooted (x # acc) xs)"

definition path_clean :: "string \<Rightarrow> string" where
  "path_clean p =
     (let rooted = HasPrefix p ''/'';
          body = Join (clean_comps rooted [] (Split p (CHR ''/''))) ''/''
      in if rooted then CHR ''/'' # body else if body = [] then ''.'' else body)"

fun path_join :: "string list \<Rightarrow> string" where
  "path_join [] = []"
| "path_join (e # es) = (if e = [] then path_join es else path_clean (Join (e # es) ''/''))"

text \<open>\<open>filepath.IsAbs\<close> on Unix.\<close>

definition path_is_abs :: "string \<Rightarrow> bool" where
  "path_is_abs p = HasPrefix p ''/''"

text \<open>\<open>filepath.Dir\<close>: what precedes the last slash, cleaned.\<close>

definition path_dir :: "string \<Rightarrow> string" where
  "path_dir p =
     (case LastIndexByte p (CHR ''/'') of
        None \<Rightarrow> path_clean []
      | Some i \<Rightarrow> path_clean (take (Suc i) p))"

text \<open>Absolute paths of plain components, on which \<open>filepath.Join\<close> only appends.\<close>

definition plain :: "string \<Rightarrow> bool" where
  "plain c \<longleftrightarrow> c \<noteq> [] \<and> c \<noteq> ''.'' \<and> c \<noteq> ''..'' \<and> CHR ''/'' \<notin> set c"

definition abs_path :: "string list \<Rightarrow> string" where
  "abs_path cs = concat (map (\<lambda>c. CHR ''/'' # c) cs)"

lemma Split_abs_path: "list_all plain cs \<Longrightarrow> cs \<noteq> [] \<Longrightarrow> Split (abs_path cs) (CHR ''/'') = [] # cs"
proof (induction cs)
  case (Cons c cs)
  then have c: "CHR ''/'' \<notin> set c" by (simp add: plain_def)
  show ?case
  proof (cases cs)
    case Nil
    with c show ?thesis by (simp add: abs_path_def)
  next
    case (Cons d ds)
    then have e: "abs_path (c # cs) = CHR ''/'' # c @ CHR ''/'' # tl (abs_path cs)" "abs_path cs = CHR ''/'' # tl (abs_path cs)"
      by (simp_all add: abs_path_def)
    have "Split (abs_path cs) (CHR ''/'') = [] # cs" using Cons Cons.prems Cons.IH by simp
    then have "Split (tl (abs_path cs)) (CHR ''/'') = cs"
      using e(2) Split_sep [of "CHR ''/''" "[]" "tl (abs_path cs)"] by simp
    then show ?thesis
      using c e(1) Split_sep [of "CHR ''/''" "[]" "c @ CHR ''/'' # tl (abs_path cs)"] by simp
  qed
qed simp

lemma clean_comps_plain: "list_all plain cs \<Longrightarrow> clean_comps rooted acc cs = rev acc @ cs"
  by (induction cs arbitrary: acc) (simp_all add: plain_def)

lemma Join_abs_path: "cs \<noteq> [] \<Longrightarrow> CHR ''/'' # Join cs ''/'' = abs_path cs"
  by (induction cs rule: induct_list012) (simp_all add: abs_path_def)

lemma path_clean_abs: "list_all plain cs \<Longrightarrow> cs \<noteq> [] \<Longrightarrow> path_clean (abs_path cs) = abs_path cs"
proof -
  assume a: "list_all plain cs" "cs \<noteq> []"
  have "HasPrefix (abs_path cs) ''/''" using a(2) by (cases cs) (simp_all add: abs_path_def)
  then show ?thesis
    using a by (simp add: path_clean_def Split_abs_path clean_comps_plain Join_abs_path del: Split.simps)
qed

lemma Join_slash: "Join (x # cs) ''/'' = x @ abs_path cs"
  by (induction cs arbitrary: x) (simp_all add: abs_path_def)

lemma path_join_abs:
  assumes "list_all plain hs" "hs \<noteq> []" "list_all plain cs"
  shows "path_join (abs_path hs # cs) = abs_path (hs @ cs)"
proof -
  have "abs_path hs \<noteq> []" using assms(2) by (cases hs) (simp_all add: abs_path_def)
  moreover have "Join (abs_path hs # cs) ''/'' = abs_path (hs @ cs)"
    using Join_slash [of "abs_path hs" cs] by (simp add: abs_path_def)
  ultimately show ?thesis
    using path_clean_abs [of "hs @ cs"] assms by (simp del: Join.simps)
qed

lemma abs_path_inject:
  assumes "list_all plain cs" "list_all plain ds" "cs \<noteq> []" "ds \<noteq> []"
  shows "abs_path cs = abs_path ds \<longleftrightarrow> cs = ds"
  by (metis Split_abs_path assms list.inject)

end
