(* ===== verification/Config.thy ===== *)
theory Config
  imports Go_Prelude
begin

text \<open>
  The configuration (\<open>internal/config/config.go\<close>): its types, the defaults, the validation
  and the conversion of legacy watches into projects. What the code reads from outside (the
  file system, the environment, the \<open>envsubst\<close> and \<open>yaml\<close> packages) is an argument of the
  definitions. A duration is a number of nanoseconds.
\<close>

section \<open>Types\<close>

record WorkflowRef =
  wr_Path :: string
  wr_Name :: string
  wr_Secrets :: "string gomap"
  wr_Env :: "string gomap"
  wr_RunnerImage :: string
  wr_TimeoutMinutes :: int

record Trigger =
  tr_Type :: string
  tr_Repo :: string
  tr_Branch :: string
  tr_PR :: int
  tr_On :: "string list"

record Project =
  pj_Name :: string
  pj_Description :: string
  pj_Workflows :: "WorkflowRef list"
  pj_Triggers :: "Trigger list"

record Watch =
  wa_Name :: string
  wa_Repo :: string
  wa_PR :: int
  wa_Branch :: string
  wa_Workflows :: "WorkflowRef list"
  wa_On :: "string list"

record GitHubConfig =
  gh_Token :: string
  gh_PollInterval :: int

record LogServerConfig =
  ls_Bind :: string
  ls_RetentionDays :: int
  ls_RetentionBytes :: int

record RunnerConfig =
  rc_DefaultImage :: string
  rc_WorkspaceDir :: string

record Config =
  cf_GitHub :: GitHubConfig
  cf_LogServer :: LogServerConfig
  cf_StorePath :: string
  cf_Runner :: RunnerConfig
  cf_MaxConcurrency :: int
  cf_Projects :: "Project list"
  cf_Watches :: "Watch list"

datatype config_error =
    ReadConfig
  | Envsubst
  | UnmarshalConfig
  | BothPrAndBranch nat string
  | NeitherPrNorBranch nat string
  | RepoForm nat string string

section \<open>Operations\<close>

definition second_ns :: int where
  "second_ns = 1000000000"

text \<open>
  \<open>EffectiveProjects\<close>: the declared projects, then one project per legacy watch, with one
  trigger when the watch names a repository.
\<close>

definition watch_trigger :: "Watch \<Rightarrow> Trigger" where
  "watch_trigger w =
     \<lparr>tr_Type = (if wa_PR w > 0 then ''pull_request'' else ''push''),
      tr_Repo = wa_Repo w, tr_Branch = wa_Branch w, tr_PR = wa_PR w,
      tr_On = (if wa_On w = [] then [''push''] else wa_On w)\<rparr>"

definition watch_project :: "Watch \<Rightarrow> Project" where
  "watch_project w =
     \<lparr>pj_Name = wa_Name w, pj_Description = [], pj_Workflows = wa_Workflows w,
      pj_Triggers = (if wa_Repo w \<noteq> [] then [watch_trigger w] else [])\<rparr>"

definition EffectiveProjects :: "Config \<Rightarrow> Project list" where
  "EffectiveProjects c = cf_Projects c @ map watch_project (cf_Watches c)"

text \<open>
  \<open>applyDefaults\<close>. \<open>home\<close> is what \<open>os.UserHomeDir\<close> returns, its error ignored as in the code,
  and \<open>getenv\<close> is \<open>os.Getenv\<close>.
\<close>

definition default_github :: "GitHubConfig \<Rightarrow> GitHubConfig" where
  "default_github g =
     (if gh_PollInterval g = 0 then g\<lparr>gh_PollInterval := 30 * second_ns\<rparr> else g)"

definition default_logserver :: "LogServerConfig \<Rightarrow> LogServerConfig" where
  "default_logserver l =
     (let l = (if ls_Bind l = [] then l\<lparr>ls_Bind := ''127.0.0.1:8765''\<rparr> else l);
          l = (if ls_RetentionDays l = 0 then l\<lparr>ls_RetentionDays := 7\<rparr> else l)
      in if ls_RetentionBytes l = 0 then l\<lparr>ls_RetentionBytes := 524288000\<rparr> else l)"

definition default_runner :: "string \<Rightarrow> (string \<Rightarrow> string) \<Rightarrow> RunnerConfig \<Rightarrow> RunnerConfig" where
  "default_runner home getenv r =
     (let r = (if rc_DefaultImage r = [] then r\<lparr>rc_DefaultImage := ''ubuntu:22.04''\<rparr> else r)
      in if rc_WorkspaceDir r = [] then
           (let v = getenv ''GHENKINS_WORKSPACE_DIR''
            in if v \<noteq> [] then r\<lparr>rc_WorkspaceDir := v\<rparr>
               else r\<lparr>rc_WorkspaceDir := path_join [home, ''.cache'', ''ghenkins'', ''workspace'']\<rparr>)
         else r)"

definition applyDefaults :: "string \<Rightarrow> (string \<Rightarrow> string) \<Rightarrow> Config \<Rightarrow> Config" where
  "applyDefaults home getenv c =
     (let c = (if cf_MaxConcurrency c = 0 then c\<lparr>cf_MaxConcurrency := 2\<rparr> else c);
          c = c\<lparr>cf_GitHub := default_github (cf_GitHub c)\<rparr>;
          c = c\<lparr>cf_LogServer := default_logserver (cf_LogServer c)\<rparr>;
          c = (if cf_StorePath c = []
               then c\<lparr>cf_StorePath :=
                        path_join [home, ''.local'', ''share'', ''ghenkins'', ''ghenkins.db'']\<rparr>
               else c)
      in c\<lparr>cf_Runner := default_runner home getenv (cf_Runner c)\<rparr>)"

text \<open>\<open>validate\<close>: the first watch that is not well formed, with its position.\<close>

definition validate_watch :: "nat \<Rightarrow> Watch \<Rightarrow> config_error option" where
  "validate_watch i w =
     (if wa_PR w \<noteq> 0 \<and> wa_Branch w \<noteq> [] then Some (BothPrAndBranch i (wa_Name w))
      else if wa_PR w = 0 \<and> wa_Branch w = [] then Some (NeitherPrNorBranch i (wa_Name w))
      else (case SplitN (wa_Repo w) (CHR ''/'') 2 of
              [ow, nm] \<Rightarrow> if ow = [] \<or> nm = [] then Some (RepoForm i (wa_Name w) (wa_Repo w)) else None
            | _ \<Rightarrow> Some (RepoForm i (wa_Name w) (wa_Repo w))))"

fun validate_from :: "nat \<Rightarrow> Watch list \<Rightarrow> config_error option" where
  "validate_from i [] = None"
| "validate_from i (w # ws) =
     (case validate_watch i w of Some e \<Rightarrow> Some e | None \<Rightarrow> validate_from (Suc i) ws)"

definition validate :: "Config \<Rightarrow> config_error option" where
  "validate c = validate_from 0 (cf_Watches c)"

text \<open>
  \<open>Load\<close>: \<open>readFile\<close>, \<open>evalEnv\<close> and \<open>unmarshal\<close> stand for \<open>os.ReadFile\<close>,
  \<open>envsubst.EvalEnv\<close> and \<open>yaml.Unmarshal\<close>; \<open>None\<close> is their error.
\<close>

definition Load ::
  "(string \<Rightarrow> string option) \<Rightarrow> (string \<Rightarrow> string option) \<Rightarrow> (string \<Rightarrow> Config option) \<Rightarrow>
   string \<Rightarrow> (string \<Rightarrow> string) \<Rightarrow> string \<Rightarrow> config_error + Config" where
  "Load readFile evalEnv unmarshal home getenv path =
     (case readFile path of
        None \<Rightarrow> Inl ReadConfig
      | Some raw \<Rightarrow>
          (case evalEnv raw of
             None \<Rightarrow> Inl Envsubst
           | Some expanded \<Rightarrow>
               (case unmarshal expanded of
                  None \<Rightarrow> Inl UnmarshalConfig
                | Some cfg \<Rightarrow>
                    (let cfg = applyDefaults home getenv cfg
                     in case validate cfg of Some e \<Rightarrow> Inl e | None \<Rightarrow> Inr cfg))))"

definition DefaultPath :: "string \<Rightarrow> string" where
  "DefaultPath home = path_join [home, ''.config'', ''ghenkins'', ''config.yaml'']"

section \<open>Well-formed configurations\<close>

text \<open>
  What a watch needs for the poller to serve it: exactly one of a pull request and a branch,
  and a repository of the form \<open>owner/repo\<close>.
\<close>

definition watch_ok :: "Watch \<Rightarrow> bool" where
  "watch_ok w =
     ((wa_PR w \<noteq> 0) \<noteq> (wa_Branch w \<noteq> []) \<and>
      (\<exists>ow nm. ow \<noteq> [] \<and> nm \<noteq> [] \<and> CHR ''/'' \<notin> set ow \<and> wa_Repo w = ow @ ''/'' @ nm))"

definition config_ok :: "Config \<Rightarrow> bool" where
  "config_ok c =
     (cf_MaxConcurrency c \<noteq> 0 \<and> gh_PollInterval (cf_GitHub c) \<noteq> 0 \<and>
      ls_Bind (cf_LogServer c) \<noteq> [] \<and> ls_RetentionDays (cf_LogServer c) \<noteq> 0 \<and>
      ls_RetentionBytes (cf_LogServer c) \<noteq> 0 \<and> cf_StorePath c \<noteq> [] \<and>
      rc_DefaultImage (cf_Runner c) \<noteq> [] \<and> rc_WorkspaceDir (cf_Runner c) \<noteq> [] \<and>
      list_all watch_ok (cf_Watches c))"

lemma path_clean_not_Nil [simp]: "path_clean p \<noteq> []"
  by (auto simp: path_clean_def Let_def)

lemma path_join_not_Nil: "e \<in> set es \<Longrightarrow> e \<noteq> [] \<Longrightarrow> path_join es \<noteq> []"
  by (induction es) auto

lemma SplitN_two_iff:
  "SplitN s c 2 = [a, b] \<longleftrightarrow> c \<notin> set a \<and> s = a @ c # b"
proof (cases "c \<in> set s")
  case True
  then have "dropWhile (\<lambda>x. x \<noteq> c) s = c # tl (dropWhile (\<lambda>x. x \<noteq> c) s)"
    by (induction s) auto
  then have s: "s = takeWhile (\<lambda>x. x \<noteq> c) s @ c # tl (dropWhile (\<lambda>x. x \<noteq> c) s)"
    by (metis takeWhile_dropWhile_id)
  have no: "c \<notin> set (takeWhile (\<lambda>x. x \<noteq> c) s)"
    using set_takeWhileD by fastforce
  have split: "SplitN s c 2 = [takeWhile (\<lambda>x. x \<noteq> c) s, tl (dropWhile (\<lambda>x. x \<noteq> c) s)]"
    using True by (simp add: numeral_2_eq_2)
  have tw: "takeWhile (\<lambda>x. x \<noteq> c) (a @ c # b) = a" "tl (dropWhile (\<lambda>x. x \<noteq> c) (a @ c # b)) = b"
    if "c \<notin> set a"
    using that by (induction a) auto
  show ?thesis
    using split no s tw by auto
next
  case False
  then show ?thesis by (auto simp: numeral_2_eq_2)
qed

lemma validate_watch_None: "validate_watch i w = None \<longleftrightarrow> watch_ok w"
proof -
  have "validate_watch i w = None \<longleftrightarrow>
     (wa_PR w \<noteq> 0) \<noteq> (wa_Branch w \<noteq> []) \<and>
     (\<exists>ow nm. ow \<noteq> [] \<and> nm \<noteq> [] \<and> SplitN (wa_Repo w) (CHR ''/'') 2 = [ow, nm])"
    by (auto simp: validate_watch_def split: list.splits)
  then show ?thesis
    unfolding watch_ok_def SplitN_two_iff by auto
qed

lemma validate_from_None: "validate_from i ws = None \<longleftrightarrow> list_all watch_ok ws"
proof (induction ws arbitrary: i)
  case (Cons w ws)
  then show ?case
    using validate_watch_None[of i w] by (auto split: option.splits)
qed simp

lemma default_logserver_filled [simp]:
  "ls_Bind (default_logserver l) = (if ls_Bind l = [] then ''127.0.0.1:8765'' else ls_Bind l)"
  "ls_RetentionDays (default_logserver l) =
     (if ls_RetentionDays l = 0 then 7 else ls_RetentionDays l)"
  "ls_RetentionBytes (default_logserver l) =
     (if ls_RetentionBytes l = 0 then 524288000 else ls_RetentionBytes l)"
  by (simp_all add: default_logserver_def Let_def)

lemma default_runner_filled [simp]:
  "rc_DefaultImage (default_runner home getenv r) =
     (if rc_DefaultImage r = [] then ''ubuntu:22.04'' else rc_DefaultImage r)"
  "rc_WorkspaceDir (default_runner home getenv r) =
     (if rc_WorkspaceDir r \<noteq> [] then rc_WorkspaceDir r
      else if getenv ''GHENKINS_WORKSPACE_DIR'' \<noteq> [] then getenv ''GHENKINS_WORKSPACE_DIR''
      else path_join [home, ''.cache'', ''ghenkins'', ''workspace''])"
  by (simp_all add: default_runner_def Let_def del: path_join.simps)

lemma applyDefaults_sel [simp]:
  "cf_MaxConcurrency (applyDefaults home getenv c) =
     (if cf_MaxConcurrency c = 0 then 2 else cf_MaxConcurrency c)"
  "cf_GitHub (applyDefaults home getenv c) = default_github (cf_GitHub c)"
  "cf_LogServer (applyDefaults home getenv c) = default_logserver (cf_LogServer c)"
  "cf_StorePath (applyDefaults home getenv c) =
     (if cf_StorePath c = [] then path_join [home, ''.local'', ''share'', ''ghenkins'', ''ghenkins.db'']
      else cf_StorePath c)"
  "cf_Runner (applyDefaults home getenv c) = default_runner home getenv (cf_Runner c)"
  "cf_Projects (applyDefaults home getenv c) = cf_Projects c"
  "cf_Watches (applyDefaults home getenv c) = cf_Watches c"
  by (simp_all add: applyDefaults_def Let_def del: path_join.simps)

lemma applyDefaults_filled:
  assumes "list_all watch_ok (cf_Watches c)"
  shows "config_ok (applyDefaults home getenv c)"
proof -
  have "path_join [home, ''.cache'', ''ghenkins'', ''workspace''] \<noteq> []"
    and "path_join [home, ''.local'', ''share'', ''ghenkins'', ''ghenkins.db''] \<noteq> []"
    by (rule path_join_not_Nil[of "''ghenkins''"]; simp)+
  with assms show ?thesis
    by (simp add: config_ok_def default_github_def second_ns_def del: path_join.simps)
qed

lemma applyDefaults_fixed: "config_ok c \<Longrightarrow> applyDefaults home getenv c = c"
  by (simp add: config_ok_def applyDefaults_def default_github_def default_logserver_def
      default_runner_def Let_def)

lemma validate_accepts:
  "(case validate cfg of Some e \<Rightarrow> Inl e | None \<Rightarrow> Inr cfg) = Inr cfg' \<longleftrightarrow>
   list_all watch_ok (cf_Watches cfg) \<and> cfg' = cfg"
  using validate_from_None[of 0 "cf_Watches cfg"] by (auto simp: validate_def split: option.splits)

section \<open>Properties\<close>

text \<open>
  C40. \<open>Load\<close> accepts exactly the files that are read, expanded and unmarshalled and whose
  watches each name exactly one of a pull request and a branch and a repository \<open>owner/repo\<close>
  with both parts nonempty; the configuration it returns has every default filled in.
\<close>

theorem Load_accepts:
  "Load readFile evalEnv unmarshal home getenv path = Inr cfg \<longleftrightarrow>
     (\<exists>raw expanded cfg0.
        readFile path = Some raw \<and> evalEnv raw = Some expanded \<and> unmarshal expanded = Some cfg0 \<and>
        list_all watch_ok (cf_Watches cfg0) \<and> cfg = applyDefaults home getenv cfg0 \<and> config_ok cfg)"
  using applyDefaults_filled
  by (auto simp: Load_def validate_accepts Let_def split: option.splits)

end
