(* ===== verification/Workflow.thy ===== *)
theory Workflow
  imports Go_Prelude
begin

text \<open>
  Workflow and action definitions (\<open>internal/runner/workflow.go\<close>): the types, the readers of
  the loosely typed fields, and the schedule of the jobs by Kahn's algorithm.

  \<open>yaml_any\<close> is the dynamic value of an \<open>interface{}\<close> field as the type switches of the file
  distinguish it: a string, a sequence, or anything else.
\<close>

section \<open>Types\<close>

datatype yaml_any = YString string | YSeq "yaml_any list" | YOther

record WorkflowInput =
  wi_Description :: string
  wi_Default :: string
  wi_Required :: bool
  wi_Type :: string

record RunDefaults =
  rd_Shell :: string
  rd_WorkingDirectory :: string

record JobBindMount =
  jb_Host :: string
  jb_Container :: string
  jb_ReadOnly :: bool

record JobVolumeMount =
  jv_Name :: string
  jv_Container :: string
  jv_Copy :: bool

record Step =
  st_ID :: string
  st_Name :: string
  st_Uses :: string
  st_Run :: string
  st_Shell :: string
  st_WorkingDirectory :: string
  st_With :: "string gomap"
  st_Env :: "string gomap"
  st_If :: string
  st_ContinueOnError :: bool
  st_TimeoutMinutes :: int

record Job =
  jb_Name :: string
  jb_RunsOn :: yaml_any
  jb_Needs :: yaml_any
  jb_If :: string
  jb_Env :: "string gomap"
  jb_Defaults :: "RunDefaults option"
  jb_TimeoutMinutes :: int
  jb_Steps :: "Step list"
  jb_ExtraBinds :: "JobBindMount list"
  jb_Volumes :: "JobVolumeMount list"
  jb_ArtifactPaths :: "string list"

record Workflow =
  wf_Name :: string
  wf_On :: yaml_any
  wf_Env :: "string gomap"
  wf_Defaults :: "RunDefaults option"
  wf_Jobs :: "Job gomap"
  wf_Inputs :: "WorkflowInput gomap"

record ActionInput =
  ai_Description :: string
  ai_Required :: bool
  ai_Default :: string

record ActionOutput =
  ao_Description :: string
  ao_Value :: string

record ActionRuns =
  ar_Using :: string
  ar_Steps :: "Step list"
  ar_Main :: string
  ar_Image :: string

record ActionDef =
  ad_Name :: string
  ad_Description :: string
  ad_Inputs :: "ActionInput gomap"
  ad_Outputs :: "ActionOutput gomap"
  ad_Runs :: ActionRuns

datatype order_error = UnknownNeed string string | CycleDetected

section \<open>Readers\<close>

definition RunsOnImage :: "Job \<Rightarrow> string" where
  "RunsOnImage j =
     (case jb_RunsOn j of
        YString v \<Rightarrow> v
      | YSeq (YString s # _) \<Rightarrow> s
      | _ \<Rightarrow> [])"

fun seq_strings :: "yaml_any list \<Rightarrow> string list" where
  "seq_strings [] = []"
| "seq_strings (YString s # vs) = s # seq_strings vs"
| "seq_strings (_ # vs) = seq_strings vs"

definition NeedsIDs :: "Job \<Rightarrow> string list" where
  "NeedsIDs j =
     (case jb_Needs j of
        YString v \<Rightarrow> if v = [] then [] else [v]
      | YSeq vs \<Rightarrow> seq_strings vs
      | _ \<Rightarrow> [])"

definition job_needs :: "Job gomap \<Rightarrow> string \<Rightarrow> string list" where
  "job_needs jobs jid = (case map_of jobs jid of None \<Rightarrow> [] | Some j \<Rightarrow> NeedsIDs j)"

definition JobNeeds :: "Workflow \<Rightarrow> string \<Rightarrow> string list" where
  "JobNeeds w jid = job_needs (wf_Jobs w) jid"

section \<open>The execution order\<close>

text \<open>
  \<open>BuildExecutionOrder\<close>, loop by loop. \<open>init_degrees\<close> is the first loop, \<open>needs_loop\<close> and
  \<open>jobs_loop\<close> the second one, which counts the needs of each job and records its dependents.
\<close>

fun init_degrees :: "Job gomap \<Rightarrow> int gomap \<Rightarrow> int gomap" where
  "init_degrees [] d = d"
| "init_degrees ((jid, j) # js) d =
     init_degrees js (if map_of d jid = None then mput jid 0 d else d)"

fun needs_loop ::
  "Job gomap \<Rightarrow> string \<Rightarrow> string list \<Rightarrow> int gomap \<Rightarrow> string list gomap \<Rightarrow>
   order_error + int gomap \<times> string list gomap" where
  "needs_loop jobs jid [] d deps = Inr (d, deps)"
| "needs_loop jobs jid (need # ns) d deps =
     (if map_of jobs need = None then Inl (UnknownNeed jid need)
      else needs_loop jobs jid ns (mput jid (mget 0 d jid + 1) d)
             (mput need (mget [] deps need @ [jid]) deps))"

fun jobs_loop ::
  "Job gomap \<Rightarrow> Job gomap \<Rightarrow> int gomap \<Rightarrow> string list gomap \<Rightarrow>
   order_error + int gomap \<times> string list gomap" where
  "jobs_loop jobs [] d deps = Inr (d, deps)"
| "jobs_loop jobs ((jid, j) # js) d deps =
     (case needs_loop jobs jid (NeedsIDs j) d deps of
        Inl e \<Rightarrow> Inl e
      | Inr (d', deps') \<Rightarrow> jobs_loop jobs js d' deps')"

text \<open>
  One round of Kahn's algorithm: the wave of jobs of degree zero, in the order in which this
  visit of the map finds them, its removal, and the decrement of the dependents. A decrement
  of a key that is not in the map stores the new value, as in Go.
\<close>

definition wave_of :: "(string \<Rightarrow> nat) \<Rightarrow> int gomap \<Rightarrow> string list" where
  "wave_of rank d = map fst (filter (\<lambda>(jid, deg). deg = 0) (mvisit rank d))"

fun remove_all :: "string list \<Rightarrow> int gomap \<Rightarrow> int gomap" where
  "remove_all [] d = d"
| "remove_all (jid # jids) d = remove_all jids (mdel jid d)"

fun decrement_all :: "string list \<Rightarrow> int gomap \<Rightarrow> int gomap" where
  "decrement_all [] d = d"
| "decrement_all (jid # jids) d = decrement_all jids (mput jid (mget 0 d jid - 1) d)"

fun decrement_wave :: "string list gomap \<Rightarrow> string list \<Rightarrow> int gomap \<Rightarrow> int gomap" where
  "decrement_wave deps [] d = d"
| "decrement_wave deps (jid # jids) d =
     decrement_wave deps jids (decrement_all (mget [] deps jid) d)"

text \<open>
  The loop terminates because every round takes at least one key of nonnegative degree out of
  the map, and no decrement adds one.
\<close>

abbreviation live_degrees :: "int gomap \<Rightarrow> nat" where
  "live_degrees d \<equiv> length (filter (\<lambda>(jid, deg). 0 \<le> deg) d)"

lemma live_mdel_le: "live_degrees (mdel jid d) \<le> live_degrees d"
  by (induction d) auto

lemma live_remove_all_le: "live_degrees (remove_all jids d) \<le> live_degrees d"
  by (induction jids d rule: remove_all.induct) (auto intro: le_trans live_mdel_le)

lemma live_mdel_less: "(jid, deg) \<in> set d \<Longrightarrow> 0 \<le> deg \<Longrightarrow> live_degrees (mdel jid d) < live_degrees d"
proof (induction d)
  case (Cons x d)
  then show ?case
    using live_mdel_le[of jid d] by (auto simp: less_Suc_eq_le)
qed simp

lemma live_decrement_le: "live_degrees (mput jid (mget 0 d jid - 1) d) \<le> live_degrees d"
proof (induction d)
  case Nil
  then show ?case by simp
next
  case (Cons x d)
  obtain k v where "x = (k, v)" by (cases x)
  then show ?case
    using Cons by (auto simp: mget_def)
qed

lemma live_decrement_all_le: "live_degrees (decrement_all jids d) \<le> live_degrees d"
  by (induction jids d rule: decrement_all.induct) (auto intro: le_trans live_decrement_le)

lemma live_decrement_wave_le: "live_degrees (decrement_wave deps jids d) \<le> live_degrees d"
  by (induction deps jids d rule: decrement_wave.induct) (auto intro: le_trans live_decrement_all_le)

function kahn ::
  "(nat \<Rightarrow> string \<Rightarrow> nat) \<Rightarrow> string list gomap \<Rightarrow> nat \<Rightarrow> int gomap \<Rightarrow> string list list \<Rightarrow> nat \<Rightarrow>
   string list list \<times> nat" where
  "kahn rank deps n d result processed =
     (let wave = wave_of (rank n) d
      in if wave = [] then (result, processed)
         else kahn rank deps (Suc n) (decrement_wave deps wave (remove_all wave d))
                (result @ [wave]) (processed + length wave))"
  by pat_completeness auto
termination
proof (relation "measure (\<lambda>(rank, deps, n, d, result, processed). live_degrees d)"; clarsimp)
  fix rank :: "nat \<Rightarrow> string \<Rightarrow> nat" and deps n d
  assume "wave_of (rank n) d \<noteq> []"
  then obtain jid jids where w: "wave_of (rank n) d = jid # jids"
    by (cases "wave_of (rank n) d") auto
  then have "jid \<in> set (wave_of (rank n) d)" by simp
  then have "(jid, 0) \<in> set d"
    by (auto simp: wave_of_def)
  then have "live_degrees (mdel jid d) < live_degrees d"
    by (rule live_mdel_less) simp
  then have "live_degrees (remove_all (wave_of (rank n) d) d) < live_degrees d"
    using live_remove_all_le[of jids "mdel jid d"] w by simp
  then show "live_degrees (decrement_wave deps (wave_of (rank n) d) (remove_all (wave_of (rank n) d) d))
      < live_degrees d"
    using live_decrement_wave_le le_less_trans by blast
qed

declare kahn.simps [simp del]

text \<open>
  \<open>BuildExecutionOrder\<close>. \<open>rank n\<close> is the order in which the \<open>n\<close>-th round visits the degrees.
\<close>

definition BuildExecutionOrder ::
  "(nat \<Rightarrow> string \<Rightarrow> nat) \<Rightarrow> Job gomap \<Rightarrow> order_error + string list list" where
  "BuildExecutionOrder rank jobs =
     (case jobs_loop jobs jobs (init_degrees jobs []) [] of
        Inl e \<Rightarrow> Inl e
      | Inr (d, deps) \<Rightarrow>
          (let (result, processed) = kahn rank deps 0 d [] 0
           in if processed \<noteq> length jobs then Inl CycleDetected else Inr result))"

end
