(* ===== verification/Job_Order.thy ===== *)
theory Job_Order
  imports Workflow
begin

text \<open>
  Correctness of the schedule that \<open>BuildExecutionOrder\<close> computes: its levels partition the
  jobs, every need of a job is in an earlier level and one of them in the level just before,
  the levels do not depend on the visiting order of the maps, and the algorithm fails exactly
  when a need is unknown or the needs are cyclic.
\<close>

section \<open>Specification\<close>

definition job_ids :: "Job gomap \<Rightarrow> string set" where
  "job_ids jobs = fst ` set jobs"

text \<open>\<open>(a, b)\<close>: job \<open>b\<close> needs \<open>a\<close>.\<close>

definition needs_rel :: "Job gomap \<Rightarrow> (string \<times> string) set" where
  "needs_rel jobs = {(a, b). b \<in> job_ids jobs \<and> a \<in> set (job_needs jobs b)}"

definition needs_known :: "Job gomap \<Rightarrow> bool" where
  "needs_known jobs = (\<forall>j \<in> job_ids jobs. set (job_needs jobs j) \<subseteq> job_ids jobs)"

text \<open>
  A schedule: no empty level, every need before its job, and a job as early as its needs allow.
\<close>

definition schedule :: "Job gomap \<Rightarrow> string list list \<Rightarrow> bool" where
  "schedule jobs ls =
     (distinct (concat ls) \<and> set (concat ls) \<subseteq> job_ids jobs \<and>
      (\<forall>i < length ls. ls ! i \<noteq> [] \<and>
         (\<forall>j \<in> set (ls ! i). set (job_needs jobs j) \<subseteq> set (concat (take i ls)) \<and>
            (0 < i \<longrightarrow> (\<exists>a \<in> set (job_needs jobs j). a \<in> set (ls ! (i - 1)))))))"

lemma job_ids_dom: "job_ids jobs = dom (map_of jobs)"
  by (simp add: job_ids_def dom_map_of_conv_image_fst)

lemma in_concat_nth: "x \<in> set (concat ls) \<longleftrightarrow> (\<exists>i < length ls. x \<in> set (ls ! i))"
  by (metis (no_types, lifting) UN_iff in_set_conv_nth set_concat)

lemma in_concat_take: "x \<in> set (concat (take k ls)) \<longleftrightarrow> (\<exists>i < min k (length ls). x \<in> set (ls ! i))"
  unfolding in_concat_nth by auto

declare set_concat [simp del]

section \<open>The loops that build the graph\<close>

lemma dom_init_degrees: "dom (map_of (init_degrees js d)) = dom (map_of d) \<union> job_ids js"
  by (induction js d rule: init_degrees.induct) (auto simp: job_ids_def dom_def)

lemma gmap_ok_init_degrees: "gmap_ok d \<Longrightarrow> gmap_ok (init_degrees js d)"
  by (induction js d rule: init_degrees.induct) auto

lemma mget_init_degrees: "mget 0 (init_degrees js d) j = mget 0 d j"
  by (induction js d rule: init_degrees.induct) (auto simp: mget_def)

lemma needs_loop_spec:
  "needs_loop jobs jid ns d deps = Inr (d', deps') \<Longrightarrow>
     set ns \<subseteq> job_ids jobs \<and>
     (gmap_ok d \<longrightarrow> gmap_ok d') \<and>
     dom (map_of d') = dom (map_of d) \<union> (if ns = [] then {} else {jid}) \<and>
     (\<forall>j. mget 0 d' j = mget 0 d j + (if j = jid then int (length ns) else 0)) \<and>
     (\<forall>a. set (mget [] deps' a) \<subseteq> set (mget [] deps a) \<union> {jid}) \<and>
     (\<forall>a j. count_list (mget [] deps' a) j =
        count_list (mget [] deps a) j + (if j = jid then count_list ns a else 0))"
proof (induction jobs jid ns d deps rule: needs_loop.induct)
  case (1 jobs jid d deps)
  then show ?case by auto
next
  case (2 jobs jid need ns d deps)
  then have known: "need \<in> job_ids jobs"
    by (auto simp: job_ids_dom split: if_splits)
  from 2 have "needs_loop jobs jid ns (mput jid (mget 0 d jid + 1) d)
      (mput need (mget [] deps need @ [jid]) deps) = Inr (d', deps')"
    and "map_of jobs need \<noteq> None"
    by (auto split: if_splits)
  note IH = "2.IH"[OF this(2) this(1)]
  show ?case
    using IH known by (auto split: if_splits)
qed

lemma jobs_loop_spec:
  "jobs_loop jobs js d deps = Inr (d', deps') \<Longrightarrow> gmap_ok js \<Longrightarrow>
     (\<forall>j \<in> job_ids js. set (job_needs js j) \<subseteq> job_ids jobs) \<and>
     (gmap_ok d \<longrightarrow> gmap_ok d') \<and>
     dom (map_of d') \<subseteq> dom (map_of d) \<union> job_ids js \<and> dom (map_of d) \<subseteq> dom (map_of d') \<and>
     (\<forall>j. mget 0 d' j = mget 0 d j + int (length (job_needs js j))) \<and>
     (\<forall>a. set (mget [] deps' a) \<subseteq> set (mget [] deps a) \<union> job_ids js) \<and>
     (\<forall>a j. count_list (mget [] deps' a) j =
        count_list (mget [] deps a) j + count_list (job_needs js j) a)"
proof (induction jobs js d deps rule: jobs_loop.induct)
  case (1 jobs d deps)
  then show ?case by (simp add: job_ids_def job_needs_def)
next
  case (2 jobs jid jb js d deps)
  then obtain d1 deps1 where n: "needs_loop jobs jid (NeedsIDs jb) d deps = Inr (d1, deps1)"
    and l: "jobs_loop jobs js d1 deps1 = Inr (d', deps')"
    by (auto split: sum.splits)
  have ok: "gmap_ok js" and fresh: "jid \<notin> job_ids js"
    using 2 by (auto simp: gmap_ok_def job_ids_def)
  have jn: "job_needs ((jid, jb) # js) j = (if j = jid then NeedsIDs jb else job_needs js j)" for j
    by (simp add: job_needs_def)
  have none: "job_needs js jid = []"
    using fresh by (auto simp: job_needs_def job_ids_dom split: option.splits)
  have ids: "job_ids ((jid, jb) # js) = insert jid (job_ids js)"
    by (simp add: job_ids_def)
  note IH = "2.IH"[OF n refl l ok] and N = needs_loop_spec[OF n]
  have "(\<forall>j \<in> job_ids ((jid, jb) # js). set (job_needs ((jid, jb) # js) j) \<subseteq> job_ids jobs)"
    using IH N fresh by (auto simp: jn ids)
  moreover have "dom (map_of d') \<subseteq> dom (map_of d) \<union> job_ids ((jid, jb) # js)"
    using IH N by (auto simp: ids split: if_splits)
  moreover have "dom (map_of d) \<subseteq> dom (map_of d')"
    using IH N by auto
  moreover have "\<forall>j. mget 0 d' j = mget 0 d j + int (length (job_needs ((jid, jb) # js) j))"
    using IH N none by (simp add: jn)
  moreover have "\<forall>a. set (mget [] deps' a) \<subseteq> set (mget [] deps a) \<union> job_ids ((jid, jb) # js)"
    using IH N unfolding ids by blast
  moreover have "\<forall>a j. count_list (mget [] deps' a) j =
      count_list (mget [] deps a) j + count_list (job_needs ((jid, jb) # js) j) a"
    using IH N none by (simp add: jn)
  moreover have "gmap_ok d \<longrightarrow> gmap_ok d'"
    using IH N by blast
  ultimately show ?case by blast
qed

lemma needs_loop_Inl:
  "needs_loop jobs jid ns d deps = Inl e \<Longrightarrow> \<exists>a. e = UnknownNeed jid a \<and> a \<in> set ns \<and> a \<notin> job_ids jobs"
  by (induction jobs jid ns d deps rule: needs_loop.induct)
     (auto simp: job_ids_dom split: if_splits)

lemma jobs_loop_Inl:
  "jobs_loop jobs js d deps = Inl e \<Longrightarrow> gmap_ok js \<Longrightarrow>
     \<exists>j a. e = UnknownNeed j a \<and> j \<in> job_ids js \<and> a \<in> set (job_needs js j) \<and> a \<notin> job_ids jobs"
proof (induction jobs js d deps rule: jobs_loop.induct)
  case (1 jobs d deps)
  then show ?case by simp
next
  case (2 jobs jid jb js d deps)
  have ok: "gmap_ok js" and fresh: "jid \<notin> job_ids js"
    using 2 by (auto simp: gmap_ok_def job_ids_def)
  show ?case
  proof (cases "needs_loop jobs jid (NeedsIDs jb) d deps")
    case (Inl e')
    then show ?thesis
      using 2 needs_loop_Inl[OF Inl] by (auto simp: job_ids_def job_needs_def)
  next
    case (Inr p)
    then obtain d1 deps1 where p: "p = (d1, deps1)" by (cases p)
    then have "jobs_loop jobs js d1 deps1 = Inl e"
      using 2 Inr by simp
    then obtain j a where "e = UnknownNeed j a" "j \<in> job_ids js" "a \<in> set (job_needs js j)"
      "a \<notin> job_ids jobs"
      using "2.IH"[OF Inr[unfolded p] refl _ ok] by blast
    moreover have "job_needs ((jid, jb) # js) j = job_needs js j"
      using fresh \<open>j \<in> job_ids js\<close> by (auto simp: job_needs_def)
    ultimately show ?thesis by (auto simp: job_ids_def)
  qed
qed

section \<open>One round\<close>

lemma map_of_remove_all:
  "map_of (remove_all js d) j = (if j \<in> set js then None else map_of d j)"
  by (induction js d rule: remove_all.induct) auto

lemma dom_remove_all: "dom (map_of (remove_all js d)) = dom (map_of d) - set js"
  by (auto simp: map_of_remove_all split: if_splits)

lemma gmap_ok_remove_all: "gmap_ok d \<Longrightarrow> gmap_ok (remove_all js d)"
  by (induction js d rule: remove_all.induct) auto

lemma decrement_all_spec:
  "mget 0 (decrement_all js d) j = mget 0 d j - int (count_list js j)"
  "dom (map_of (decrement_all js d)) = dom (map_of d) \<union> set js"
  "gmap_ok d \<Longrightarrow> gmap_ok (decrement_all js d)"
  by (induction js d rule: decrement_all.induct) auto

lemma decrement_wave_spec:
  "mget 0 (decrement_wave deps w d) j =
     mget 0 d j - int (sum_list (map (\<lambda>a. count_list (mget [] deps a) j) w))"
  "dom (map_of (decrement_wave deps w d)) = dom (map_of d) \<union> (\<Union>a \<in> set w. set (mget [] deps a))"
  "gmap_ok d \<Longrightarrow> gmap_ok (decrement_wave deps w d)"
  by (induction deps w d rule: decrement_wave.induct) (auto simp: decrement_all_spec)

lemma wave_of_spec:
  assumes "gmap_ok d"
  shows "distinct (wave_of rank d)"
    and "j \<in> set (wave_of rank d) \<longleftrightarrow> map_of d j = Some 0"
proof -
  have "distinct (map fst (mvisit rank d))"
    using assms by (simp add: gmap_ok_def)
  then show "distinct (wave_of rank d)"
    by (simp add: wave_of_def distinct_map_filter)
  show "j \<in> set (wave_of rank d) \<longleftrightarrow> map_of d j = Some 0"
    using gmap_ok_in_set_iff[OF assms, of j 0] by (force simp: wave_of_def)
qed

lemma filter_remove_wave:
  "distinct w \<Longrightarrow> set w \<inter> done = {} \<Longrightarrow>
     length (filter (\<lambda>a. a \<notin> done) ns) =
     length (filter (\<lambda>a. a \<notin> done \<union> set w) ns) + sum_list (map (count_list ns) w)"
proof (induction ns)
  case (Cons n ns)
  have "sum_list (map (count_list (n # ns)) w) =
      sum_list (map (count_list ns) w) + (if n \<in> set w then 1 else 0)"
    using \<open>distinct w\<close> by (induction w) auto
  then show ?case
    using Cons by (auto simp del: count_list.simps)
qed simp

section \<open>The loop\<close>

text \<open>
  The state of the loop with the levels \<open>ls\<close> found so far: the map holds the other jobs, each
  with the number of its needs that are not scheduled yet; and once there is a level, each of
  them has a need outside the earlier ones.
\<close>

definition kahn_inv :: "Job gomap \<Rightarrow> int gomap \<Rightarrow> string list list \<Rightarrow> bool" where
  "kahn_inv jobs d ls =
     (gmap_ok d \<and> schedule jobs ls \<and> dom (map_of d) = job_ids jobs - set (concat ls) \<and>
      (\<forall>j \<in> job_ids jobs - set (concat ls).
         mget 0 d j = int (length (filter (\<lambda>a. a \<notin> set (concat ls)) (job_needs jobs j)))) \<and>
      (ls \<noteq> [] \<longrightarrow> (\<forall>j \<in> job_ids jobs - set (concat ls).
         \<exists>a \<in> set (job_needs jobs j). a \<notin> set (concat (butlast ls)))))"

definition deps_ok :: "Job gomap \<Rightarrow> string list gomap \<Rightarrow> bool" where
  "deps_ok jobs deps =
     (\<forall>a j. set (mget [] deps a) \<subseteq> job_ids jobs \<and>
        count_list (mget [] deps a) j = count_list (job_needs jobs j) a)"

lemma schedule_needs:
  assumes "schedule jobs ls" and "j \<in> set (concat ls)"
  shows "set (job_needs jobs j) \<subseteq> set (concat ls)"
proof -
  obtain i where i: "i < length ls" "j \<in> set (ls ! i)"
    using assms(2) unfolding in_concat_nth by blast
  then have "set (job_needs jobs j) \<subseteq> set (concat (take i ls))"
    using assms(1) unfolding schedule_def by blast
  then show ?thesis
    using set_take_subset[of i ls] by (auto simp: set_concat)
qed

lemma schedule_snoc:
  assumes "schedule jobs ls" and "w \<noteq> []" and "distinct w"
    and "set w \<subseteq> job_ids jobs - set (concat ls)"
    and "\<And>j. j \<in> set w \<Longrightarrow> set (job_needs jobs j) \<subseteq> set (concat ls)"
    and "\<And>j. j \<in> set w \<Longrightarrow> ls \<noteq> [] \<Longrightarrow> \<exists>a \<in> set (job_needs jobs j). a \<in> set (last ls)"
  shows "schedule jobs (ls @ [w])"
proof -
  have "\<exists>a \<in> set (job_needs jobs j). a \<in> set (ls ! (length ls - 1))"
    if "j \<in> set w" "0 < length ls" for j
    using assms(6)[OF that(1)] that(2) by (simp add: last_conv_nth)
  then show ?thesis
    using assms(1-5) by (auto simp: schedule_def nth_append less_Suc_eq)
qed

lemma zero_degree:
  assumes "kahn_inv jobs d ls" and "map_of d j = Some 0"
  shows "j \<in> job_ids jobs - set (concat ls)" and "set (job_needs jobs j) \<subseteq> set (concat ls)"
proof -
  show j: "j \<in> job_ids jobs - set (concat ls)"
    using assms unfolding kahn_inv_def by blast
  have "mget 0 d j = int (length (filter (\<lambda>a. a \<notin> set (concat ls)) (job_needs jobs j)))"
    using assms(1) j unfolding kahn_inv_def by blast
  then show "set (job_needs jobs j) \<subseteq> set (concat ls)"
    using assms(2) by (auto simp: mget_Some filter_empty_conv)
qed

lemma kahn_inv_step:
  assumes inv: "kahn_inv jobs d ls" and deps: "deps_ok jobs deps"
    and w: "w = wave_of rank d" "w \<noteq> []"
  shows "kahn_inv jobs (decrement_wave deps w (remove_all w d)) (ls @ [w])"
proof -
  let ?done = "set (concat ls)" and ?d = "decrement_wave deps w (remove_all w d)"
  have ok: "gmap_ok d"
    using inv by (simp add: kahn_inv_def)
  have dist: "distinct w" and mem: "\<And>j. j \<in> set w \<longleftrightarrow> map_of d j = Some 0"
    using wave_of_spec[OF ok] w by auto
  have wsub: "set w \<subseteq> job_ids jobs - ?done"
    and wneeds: "\<And>j. j \<in> set w \<Longrightarrow> set (job_needs jobs j) \<subseteq> ?done"
    using zero_degree[OF inv] mem by auto
  have late: "\<exists>a \<in> set (job_needs jobs j). a \<in> set (last ls)" if j: "j \<in> set w" "ls \<noteq> []" for j
  proof -
    obtain a where a: "a \<in> set (job_needs jobs j)" "a \<notin> set (concat (butlast ls))"
      using inv j wsub unfolding kahn_inv_def by blast
    have "concat ls = concat (butlast ls) @ last ls"
      using j(2) by (metis append_butlast_last_id concat.simps concat_append append_Nil2)
    then show ?thesis
      using a wneeds[OF j(1)] by auto
  qed
  have sched: "schedule jobs (ls @ [w])"
    using inv w(2) dist wsub wneeds late
    by (intro schedule_snoc) (auto simp: kahn_inv_def)
  have deg: "mget 0 d j = int (length (filter (\<lambda>a. a \<notin> ?done) (job_needs jobs j)))"
    if "j \<in> job_ids jobs - ?done" for j
    using inv that unfolding kahn_inv_def by blast
  have later: "\<exists>a \<in> set (job_needs jobs j). a \<notin> ?done"
    if "j \<in> job_ids jobs - (?done \<union> set w)" for j
  proof -
    have "j \<in> dom (map_of d)"
      using inv that unfolding kahn_inv_def by blast
    then have "mget 0 d j \<noteq> 0"
      using mem[of j] that by (auto simp: mget_def)
    then show ?thesis
      using deg[of j] that by (auto simp: filter_empty_conv)
  qed
  have "set (mget [] deps a) \<subseteq> job_ids jobs - (?done \<union> set w)" if "a \<in> set w" for a
  proof
    fix j assume j: "j \<in> set (mget [] deps a)"
    then have "j \<in> job_ids jobs" and "a \<in> set (job_needs jobs j)"
      using deps by (auto simp: deps_ok_def) (metis count_list_0_iff)
    moreover have "set (job_needs jobs i) \<subseteq> ?done" if "i \<in> ?done" for i
      using inv schedule_needs[OF _ that] unfolding kahn_inv_def by blast
    ultimately show "j \<in> job_ids jobs - (?done \<union> set w)"
      using wneeds[of j] wsub that by blast
  qed
  moreover have "dom (map_of d) = job_ids jobs - ?done"
    using inv by (simp add: kahn_inv_def)
  ultimately have dom: "dom (map_of ?d) = job_ids jobs - set (concat (ls @ [w]))"
    using wsub by (simp add: decrement_wave_spec dom_remove_all) blast
  have "mget 0 ?d j = int (length (filter (\<lambda>a. a \<notin> set (concat (ls @ [w]))) (job_needs jobs j)))"
    if j: "j \<in> job_ids jobs - set (concat (ls @ [w]))" for j
  proof -
    have "mget 0 (remove_all w d) j = mget 0 d j"
      using j by (simp add: mget_def map_of_remove_all)
    moreover have "(\<lambda>a. count_list (mget [] deps a) j) = count_list (job_needs jobs j)"
      using deps by (simp add: deps_ok_def fun_eq_iff)
    moreover have "set w \<inter> ?done = {}"
      using wsub by blast
    ultimately show ?thesis
      using deg[of j] j filter_remove_wave[OF dist, of ?done "job_needs jobs j"]
      by (simp add: decrement_wave_spec)
  qed
  then show ?thesis
    using sched dom later ok
    by (auto simp: kahn_inv_def decrement_wave_spec gmap_ok_remove_all)
qed

lemma kahn_spec:
  assumes "kahn rank deps n d ls p = (ls', p')" and "kahn_inv jobs d ls"
    and "deps_ok jobs deps" and "p = length (concat ls)"
  shows "schedule jobs ls' \<and> p' = length (concat ls') \<and>
     (\<forall>j \<in> job_ids jobs - set (concat ls').
        \<exists>a \<in> set (job_needs jobs j). a \<notin> set (concat ls'))"
  using assms
proof (induction rank deps n d ls p rule: kahn.induct)
  case (1 rank deps n d ls p)
  let ?w = "wave_of (rank n) d"
  show ?case
  proof (cases "?w = []")
    case True
    have "map_of d j \<noteq> Some 0" for j
      using True wave_of_spec(2)[of d j "rank n"] "1.prems"(2) by (simp add: kahn_inv_def)
    moreover have "j \<in> dom (map_of d)"
      and "mget 0 d j = int (length (filter (\<lambda>a. a \<notin> set (concat ls)) (job_needs jobs j)))"
      if "j \<in> job_ids jobs - set (concat ls)" for j
      using "1.prems"(2) that unfolding kahn_inv_def by blast+
    ultimately have "filter (\<lambda>a. a \<notin> set (concat ls)) (job_needs jobs j) \<noteq> []"
      if "j \<in> job_ids jobs - set (concat ls)" for j
      using that by (fastforce simp: mget_def split: option.splits)
    then show ?thesis
      using "1.prems" True by (fastforce simp: kahn.simps[of rank] kahn_inv_def filter_empty_conv)
  next
    case False
    have "kahn_inv jobs (decrement_wave deps ?w (remove_all ?w d)) (ls @ [?w])"
      using "1.prems" False by (intro kahn_inv_step) auto
    then show ?thesis
      using "1.IH"[OF refl False] "1.prems" False by (simp add: kahn.simps[of rank deps n] Let_def)
  qed
qed

lemma graph_ok:
  assumes "jobs_loop jobs jobs (init_degrees jobs []) [] = Inr (d, deps)" and "gmap_ok jobs"
  shows "needs_known jobs" and "kahn_inv jobs d []" and "deps_ok jobs deps"
proof -
  note S = jobs_loop_spec[OF assms]
  show "needs_known jobs"
    using S by (auto simp: needs_known_def)
  show "deps_ok jobs deps"
    using S by (auto simp: deps_ok_def)
  have "dom (map_of d) = job_ids jobs"
    using S by (simp add: dom_init_degrees) blast
  moreover have "gmap_ok d"
    using S by (simp add: gmap_ok_init_degrees)
  ultimately show "kahn_inv jobs d []"
    using S by (simp add: kahn_inv_def schedule_def mget_init_degrees)
qed

section \<open>Cycles\<close>

lemma finite_job_ids [simp]: "finite (job_ids jobs)"
  by (simp add: job_ids_def)

lemma needs_rel_cyclic:
  assumes "needs_known jobs" and "R \<subseteq> job_ids jobs" and "R \<noteq> {}"
    and "\<And>j. j \<in> R \<Longrightarrow> \<exists>a \<in> set (job_needs jobs j). a \<in> R"
  shows "\<not> acyclic (needs_rel jobs)"
proof
  assume "acyclic (needs_rel jobs)"
  moreover have "needs_rel jobs \<subseteq> job_ids jobs \<times> job_ids jobs"
    using assms(1) by (auto simp: needs_rel_def needs_known_def)
  ultimately have "wf (needs_rel jobs)"
    by (meson finite_SigmaI finite_acyclic_wf finite_job_ids finite_subset)
  then obtain j where "j \<in> R" and "\<forall>a. (a, j) \<in> needs_rel jobs \<longrightarrow> a \<notin> R"
    using assms(3) by (metis wfE_min ex_in_conv)
  then show False
    using assms(2,4) by (fastforce simp: needs_rel_def)
qed

lemma schedule_acyclic:
  assumes "schedule jobs ls" and "set (concat ls) = job_ids jobs"
  shows "acyclic (needs_rel jobs)"
proof -
  define lev where "lev j = (LEAST i. i < length ls \<and> j \<in> set (ls ! i))" for j
  have lev: "lev j < length ls \<and> j \<in> set (ls ! lev j)" if "j \<in> job_ids jobs" for j
    unfolding lev_def by (rule LeastI_ex) (use that assms(2) in \<open>simp add: in_concat_nth[symmetric]\<close>)
  have le: "lev j \<le> i" if "i < length ls" "j \<in> set (ls ! i)" for i j
    unfolding lev_def by (rule Least_le) (use that in simp)
  have "needs_rel jobs \<subseteq> measure lev"
  proof clarify
    fix a b assume "(a, b) \<in> needs_rel jobs"
    then have b: "b \<in> job_ids jobs" "a \<in> set (job_needs jobs b)"
      by (auto simp: needs_rel_def)
    then have "a \<in> set (concat (take (lev b) ls))"
      using assms(1) lev unfolding schedule_def by blast
    then obtain i where "i < lev b" "i < length ls" "a \<in> set (ls ! i)"
      unfolding in_concat_take by auto
    then show "(a, b) \<in> measure lev"
      using le[of i a] by simp
  qed
  then show ?thesis
    by (meson acyclic_subset wf_acyclic wf_measure)
qed

section \<open>The levels do not depend on the visiting order\<close>

lemma concat_take_Suc: "i < length ls \<Longrightarrow> concat (take (Suc i) ls) = concat (take i ls) @ ls ! i"
  by (simp add: take_Suc_conv_app_nth)

lemma level_notin_take:
  assumes "distinct (concat ls)" and "i \<le> k" and "k < length ls" and "j \<in> set (ls ! k)"
  shows "j \<notin> set (concat (take i ls))"
proof -
  have "concat ls = concat (take i ls) @ concat (drop i ls)"
    by (metis append_take_drop_id concat_append)
  moreover have "ls ! k \<in> set (drop i ls)"
    using assms(2,3) by (auto simp: in_set_conv_nth intro!: exI[of _ "k - i"])
  ultimately show ?thesis
    using assms(1,4) by (auto simp: set_concat)
qed

lemma level_set:
  assumes "schedule jobs ls" and "set (concat ls) = job_ids jobs" and "i < length ls"
  shows "set (ls ! i) = {j \<in> job_ids jobs. j \<notin> set (concat (take i ls)) \<and>
     set (job_needs jobs j) \<subseteq> set (concat (take i ls))}" (is "_ = ?R")
proof
  have dist: "distinct (concat ls)"
    using assms(1) by (simp add: schedule_def)
  show "set (ls ! i) \<subseteq> ?R"
    using assms level_notin_take[OF dist order.refl assms(3)] in_concat_nth[of _ ls]
    unfolding schedule_def by blast
  show "?R \<subseteq> set (ls ! i)"
  proof clarify
    fix j assume j: "j \<in> job_ids jobs" "j \<notin> set (concat (take i ls))"
      "set (job_needs jobs j) \<subseteq> set (concat (take i ls))"
    then obtain k where k: "k < length ls" "j \<in> set (ls ! k)"
      using assms(2) in_concat_nth by metis
    have "i \<le> k"
      using j(2) k unfolding in_concat_take by (force simp: not_le)
    moreover have "\<not> i < k"
    proof
      assume "i < k"
      then obtain a where "a \<in> set (job_needs jobs j)" "a \<in> set (ls ! (k - 1))"
        using assms(1) k unfolding schedule_def by fastforce
      moreover have "a \<notin> set (concat (take i ls))" if "a \<in> set (ls ! (k - 1))" for a
        using level_notin_take[OF dist _ _ that, of i] \<open>i < k\<close> k by simp
      ultimately show False
        using j(3) by blast
    qed
    ultimately show "j \<in> set (ls ! i)"
      using k by simp
  qed
qed

lemma schedule_unique:
  assumes "schedule jobs ls" "set (concat ls) = job_ids jobs"
    and "schedule jobs ls'" "set (concat ls') = job_ids jobs"
  shows "map set ls = map set ls'"
proof -
  have prefix: "i \<le> length ls \<Longrightarrow> i \<le> length ls' \<Longrightarrow>
      set (concat (take i ls)) = set (concat (take i ls'))" for i
  proof (induction i)
    case (Suc i)
    then show ?case
      using level_set[OF assms(1,2), of i] level_set[OF assms(3,4), of i]
      by (simp add: concat_take_Suc)
  qed simp
  have no_more: False if l: "length xs < length ys" and sch: "schedule jobs ys"
    and all: "set (concat (take (length xs) ys)) = job_ids jobs" for xs ys :: "string list list"
  proof -
    have "ys ! length xs \<noteq> []"
      using l sch unfolding schedule_def by blast
    then obtain j where j: "j \<in> set (ys ! length xs)"
      by (cases "ys ! length xs") auto
    have "j \<notin> job_ids jobs"
      using level_notin_take[OF _ order.refl l j] sch all by (simp add: schedule_def)
    moreover have "j \<in> set (concat ys)"
      using l j unfolding in_concat_nth by blast
    ultimately show False
      using sch unfolding schedule_def by blast
  qed
  have len: "length ls = length ls'"
  proof (rule linorder_cases[of "length ls" "length ls'"])
    assume l: "length ls < length ls'"
    then show ?thesis
      using no_more[OF l assms(3)] prefix[of "length ls"] assms(2) by simp
  next
    assume l: "length ls' < length ls"
    then show ?thesis
      using no_more[OF l assms(1)] prefix[of "length ls'"] assms(4) by simp
  qed
  then show ?thesis
    using level_set[OF assms(1,2)] level_set[OF assms(3,4)] prefix
    by (auto intro!: nth_equalityI)
qed

section \<open>Properties\<close>

lemma order_cases:
  assumes "gmap_ok jobs"
  shows "case BuildExecutionOrder rank jobs of
     Inr ls \<Rightarrow> needs_known jobs \<and> schedule jobs ls \<and> set (concat ls) = job_ids jobs
   | Inl CycleDetected \<Rightarrow> needs_known jobs \<and> \<not> acyclic (needs_rel jobs)
   | Inl (UnknownNeed j a) \<Rightarrow> j \<in> job_ids jobs \<and> a \<in> set (job_needs jobs j) \<and> a \<notin> job_ids jobs"
proof (cases "jobs_loop jobs jobs (init_degrees jobs []) []")
  case (Inl e)
  then show ?thesis
    using jobs_loop_Inl[OF Inl assms] by (auto simp: BuildExecutionOrder_def)
next
  case (Inr p)
  obtain d deps where p: "p = (d, deps)" by (cases p)
  obtain ls n where k: "kahn rank deps 0 d [] 0 = (ls, n)"
    by (cases "kahn rank deps 0 d [] 0")
  note G = graph_ok[OF Inr[unfolded p] assms]
  note K = kahn_spec[OF k G(2,3)]
  then have sub: "set (concat ls) \<subseteq> job_ids jobs" and dist: "distinct (concat ls)"
    by (auto simp: schedule_def)
  have card: "card (job_ids jobs) = length jobs"
    using assms by (metis gmap_ok_def distinct_card job_ids_def length_map list.set_map)
  have n: "n = card (set (concat ls))"
    using K dist by (simp add: distinct_card)
  show ?thesis
  proof (cases "n = length jobs")
    case True
    then have "set (concat ls) = job_ids jobs"
      using n card sub by (simp add: card_subset_eq)
    then show ?thesis
      using True K G(1) Inr p k by (simp add: BuildExecutionOrder_def)
  next
    case False
    then have "job_ids jobs - set (concat ls) \<noteq> {}"
      using n card sub by auto
    moreover have "\<exists>a \<in> set (job_needs jobs j). a \<in> job_ids jobs - set (concat ls)"
      if "j \<in> job_ids jobs - set (concat ls)" for j
      using that K G(1) unfolding needs_known_def by fastforce
    ultimately have "\<not> acyclic (needs_rel jobs)"
      using needs_rel_cyclic[OF G(1), of "job_ids jobs - set (concat ls)"] by blast
    then show ?thesis
      using False G(1) Inr p k by (simp add: BuildExecutionOrder_def)
  qed
qed


text \<open>
  C24. \<open>BuildExecutionOrder\<close> fails exactly when it should: it returns an order if and only if
  every need names a job of the workflow and the needs are acyclic; it reports a cycle if and
  only if all needs are known and the needs are cyclic; and a need it reports as unknown is a
  need of the job it names and not a job of the workflow.
\<close>

theorem BuildExecutionOrder_complete:
  assumes "gmap_ok jobs"
  shows "((\<exists>ls. BuildExecutionOrder rank jobs = Inr ls) \<longleftrightarrow>
            needs_known jobs \<and> acyclic (needs_rel jobs)) \<and>
     (BuildExecutionOrder rank jobs = Inl CycleDetected \<longleftrightarrow>
            needs_known jobs \<and> \<not> acyclic (needs_rel jobs)) \<and>
     (\<forall>j a. BuildExecutionOrder rank jobs = Inl (UnknownNeed j a) \<longrightarrow>
            j \<in> job_ids jobs \<and> a \<in> set (job_needs jobs j) \<and> a \<notin> job_ids jobs)"
proof (cases "BuildExecutionOrder rank jobs")
  case (Inl e)
  then show ?thesis
    using order_cases[OF assms, of rank] by (cases e) (auto simp: needs_known_def)
next
  case (Inr ls)
  then show ?thesis
    using order_cases[OF assms, of rank] schedule_acyclic by auto
qed

text \<open>
  C25. The levels do not depend on the order in which Go visits its maps: with any other
  visiting order the result is the same sequence of sets of jobs. Each job runs as early as
  it can: outside the first level, it needs a job of the level just before.
\<close>

theorem BuildExecutionOrder_deterministic:
  assumes "gmap_ok jobs" and "BuildExecutionOrder rank jobs = Inr ls"
  shows "(\<exists>ls'. BuildExecutionOrder rank' jobs = Inr ls' \<and> map set ls' = map set ls) \<and>
     (\<forall>i < length ls. 0 < i \<longrightarrow>
        (\<forall>j \<in> set (ls ! i). \<exists>a \<in> set (job_needs jobs j). a \<in> set (ls ! (i - 1))))"
proof -
  have S: "schedule jobs ls" "set (concat ls) = job_ids jobs"
    and A: "needs_known jobs" "acyclic (needs_rel jobs)"
    using order_cases[OF assms(1), of rank] assms(2) schedule_acyclic by auto
  obtain ls' where ls': "BuildExecutionOrder rank' jobs = Inr ls'"
    using order_cases[OF assms(1), of rank'] A
    by (auto simp: needs_known_def split: sum.splits order_error.splits)
  then have "map set ls' = map set ls"
    using order_cases[OF assms(1), of rank'] S by (auto intro: schedule_unique)
  then show ?thesis
    using ls' S(1) unfolding schedule_def by blast
qed

declare set_concat [simp]

text \<open>The diamond of the test suite: \<open>b\<close> and \<open>c\<close> need \<open>a\<close>, \<open>d\<close> needs both.\<close>

definition mk_job :: "yaml_any \<Rightarrow> Job" where
  "mk_job needs = \<lparr>jb_Name = [], jb_RunsOn = YOther, jb_Needs = needs, jb_If = [], jb_Env = [],
     jb_Defaults = None, jb_TimeoutMinutes = 0, jb_Steps = [], jb_ExtraBinds = [],
     jb_Volumes = [], jb_ArtifactPaths = []\<rparr>"

definition diamond :: "Job gomap" where
  "diamond = [(''a'', mk_job YOther), (''b'', mk_job (YString ''a'')), (''c'', mk_job (YString ''a'')),
     (''d'', mk_job (YSeq [YString ''b'', YString ''c'']))]"

lemma diamond_ok: "gmap_ok diamond"
  by (simp add: gmap_ok_def diamond_def)

lemma diamond_order:
  "BuildExecutionOrder (\<lambda>_ _. 0) diamond = Inr [[''a''], [''b'', ''c''], [''d'']]"
  by (simp add: BuildExecutionOrder_def diamond_def mk_job_def NeedsIDs_def mget_def
      kahn.simps wave_of_def mvisit_def)


theorem BuildExecutionOrder_complete_witness:
  "gmap_ok diamond \<and> needs_known diamond \<and> acyclic (needs_rel diamond)"
  using BuildExecutionOrder_complete[OF diamond_ok, of "\<lambda>_ _. 0"] diamond_order diamond_ok by blast

theorem BuildExecutionOrder_deterministic_witness:
  "gmap_ok diamond \<and>
   (\<exists>ls'. BuildExecutionOrder (\<lambda>_ s. length s) diamond = Inr ls' \<and>
      map set ls' = [{''a''}, {''b'', ''c''}, {''d''}])"
  using BuildExecutionOrder_deterministic[OF diamond_ok diamond_order, of "\<lambda>_ s. length s"] diamond_ok
  by simp

end
