(* ===== verification/Go_Float.thy ===== *)
theory Go_Float
  imports Complex_Main Go_Prelude
begin

text \<open>
  The \<open>float64\<close> values of Go and the conversions between them, strings and integers that the
  expression evaluator uses. A finite value is the rational number it denotes; the negative
  zero is kept apart, since \<open>encoding/json\<close> prints its sign. Every definition computes.
\<close>

section \<open>Values\<close>

datatype float64 = FNaN | FInf bool | FNegZero | FFin rat
  \<comment> \<open>\<open>FInf True\<close> is the positive infinity\<close>

function int_bits :: "int \<Rightarrow> int" where
  "int_bits n = (if n \<le> 0 then 0 else 1 + int_bits (n div 2))"
  by pat_completeness auto
termination
  by (relation "measure nat") auto

declare int_bits.simps [simp del]

definition rat_pow2 :: "int \<Rightarrow> rat" where
  "rat_pow2 e = (if 0 \<le> e then 2 ^ nat e else 1 / 2 ^ nat (- e))"

definition rat_pow10 :: "int \<Rightarrow> rat" where
  "rat_pow10 e = (if 0 \<le> e then 10 ^ nat e else 1 / 10 ^ nat (- e))"

definition round_half_even :: "rat \<Rightarrow> int" where
  "round_half_even y =
     (let f = \<lfloor>y\<rfloor>; r = y - of_int f
      in if r < 1 / 2 then f else if 1 / 2 < r then f + 1 else if even f then f else f + 1)"

text \<open>The exponent of the last mantissa bit of a positive rational, at least that of a denormal.\<close>

definition ulp_exp :: "rat \<Rightarrow> int" where
  "ulp_exp x =
     (let (p, q) = quotient_of x;
          k = int_bits p - int_bits q;
          fl = (if rat_pow2 k \<le> x then k else k - 1)
      in max (fl - 52) (- 1074))"

text \<open>Rounding to the nearest \<open>float64\<close>, ties to even; \<open>neg\<close> is the sign of a zero result.\<close>

definition round_f64 :: "bool \<Rightarrow> rat \<Rightarrow> float64" where
  "round_f64 neg x =
     (if x = 0 then (if neg then FNegZero else FFin 0)
      else (let e = ulp_exp \<bar>x\<bar>;
                m = round_half_even (\<bar>x\<bar> / rat_pow2 e)
            in if 1024 < int_bits m + e then FInf (0 < x)
               else if m = 0 then (if x < 0 then FNegZero else FFin 0)
               else FFin ((if x < 0 then - 1 else 1) * of_int m * rat_pow2 e)))"

definition f_of_int :: "int \<Rightarrow> float64" where
  "f_of_int i = round_f64 False (of_int i)"

section \<open>Comparisons\<close>

fun f_eq :: "float64 \<Rightarrow> float64 \<Rightarrow> bool" where
  "f_eq FNaN _ = False"
| "f_eq _ FNaN = False"
| "f_eq (FInf a) (FInf b) = (a = b)"
| "f_eq (FInf _) _ = False"
| "f_eq _ (FInf _) = False"
| "f_eq FNegZero FNegZero = True"
| "f_eq FNegZero (FFin y) = (y = 0)"
| "f_eq (FFin x) FNegZero = (x = 0)"
| "f_eq (FFin x) (FFin y) = (x = y)"

definition fin_val :: "float64 \<Rightarrow> rat" where
  "fin_val x = (case x of FFin r \<Rightarrow> r | _ \<Rightarrow> 0)"

fun f_lt :: "float64 \<Rightarrow> float64 \<Rightarrow> bool" where
  "f_lt FNaN _ = False"
| "f_lt _ FNaN = False"
| "f_lt (FInf a) (FInf b) = (\<not> a \<and> b)"
| "f_lt (FInf a) _ = (\<not> a)"
| "f_lt _ (FInf b) = b"
| "f_lt x y = (fin_val x < fin_val y)"

definition f_le :: "float64 \<Rightarrow> float64 \<Rightarrow> bool" where
  "f_le x y = (f_lt x y \<or> f_eq x y)"

text \<open>
  \<open>int64(x)\<close>: truncation towards zero. Outside the range of \<open>int64\<close> the language leaves the
  result to the implementation; this is the value on amd64.
\<close>

definition f_to_int64 :: "float64 \<Rightarrow> int" where
  "f_to_int64 x =
     (case x of
        FFin r \<Rightarrow>
          (let t = (if 0 \<le> r then \<lfloor>r\<rfloor> else - \<lfloor>- r\<rfloor>)
           in if - (2 ^ 63) \<le> t \<and> t < 2 ^ 63 then t else - (2 ^ 63))
      | FNegZero \<Rightarrow> 0
      | _ \<Rightarrow> - (2 ^ 63))"

section \<open>Reading: \<open>strconv.ParseFloat(s, 64)\<close>\<close>

definition lower_char :: "char \<Rightarrow> char" where
  "lower_char c = (if CHR ''A'' \<le> c \<and> c \<le> CHR ''Z'' then char_of (of_char c + 32 :: nat) else c)"

definition upper_char :: "char \<Rightarrow> char" where
  "upper_char c = (if CHR ''a'' \<le> c \<and> c \<le> CHR ''z'' then char_of (of_char c - 32 :: nat) else c)"

definition is_hex_letter :: "char \<Rightarrow> bool" where
  "is_hex_letter c = (CHR ''a'' \<le> lower_char c \<and> lower_char c \<le> CHR ''f'')"

definition hex_digit_val :: "char \<Rightarrow> int" where
  "hex_digit_val c = (if is_digit c then digit_val c else of_char (lower_char c) - 87)"

text \<open>
  \<open>underscoreOK\<close>, after the sign: an underscore stands between two digits or between the base
  prefix and a digit. The state is the kind of the previous character.
\<close>

datatype prev_char = PStart | PDigit | PUnderscore | PNone

fun underscore_scan :: "bool \<Rightarrow> prev_char \<Rightarrow> string \<Rightarrow> bool" where
  "underscore_scan hex i [] = (i \<noteq> PUnderscore)"
| "underscore_scan hex i (c # cs) =
     (if is_digit c \<or> hex \<and> is_hex_letter c then underscore_scan hex PDigit cs
      else if c = CHR ''_'' then i = PDigit \<and> underscore_scan hex PUnderscore cs
      else i \<noteq> PUnderscore \<and> underscore_scan hex PNone cs)"

definition underscore_ok :: "string \<Rightarrow> bool" where
  "underscore_ok s =
     (case s of
        a # b # cs \<Rightarrow>
          if a = CHR ''0'' \<and> lower_char b \<in> {CHR ''b'', CHR ''o'', CHR ''x''}
          then underscore_scan (lower_char b = CHR ''x'') PDigit cs
          else underscore_scan False PStart s
      | _ \<Rightarrow> underscore_scan False PStart s)"

text \<open>The mantissa: digits (and underscores) with at most one point.\<close>

definition split_mantissa :: "(char \<Rightarrow> bool) \<Rightarrow> string \<Rightarrow> string \<times> string \<times> string" where
  "split_mantissa dig s =
     (let ok = (\<lambda>c. dig c \<or> c = CHR ''_'');
          ip = takeWhile ok s; r = dropWhile ok s
      in case r of
           c # r' \<Rightarrow> if c = CHR ''.'' then (ip, takeWhile ok r', dropWhile ok r') else (ip, [], r)
         | [] \<Rightarrow> (ip, [], []))"

definition base_val :: "int \<Rightarrow> string \<Rightarrow> int" where
  "base_val b s =
     foldl (\<lambda>a c. b * a + hex_digit_val c) 0 (filter (\<lambda>c. c \<noteq> CHR ''_'') s)"

text \<open>The exponent after its letter: \<open>None\<close> when it is malformed.\<close>

definition parse_exponent :: "string \<Rightarrow> int option" where
  "parse_exponent s =
     (let (neg, ds) =
        (case s of
           c # cs \<Rightarrow> if c = CHR ''-'' then (True, cs) else if c = CHR ''+'' then (False, cs) else (False, s)
         | [] \<Rightarrow> (False, []))
      in case ds of
           [] \<Rightarrow> None
         | d # _ \<Rightarrow>
             if is_digit d \<and> list_all (\<lambda>c. is_digit c \<or> c = CHR ''_'') ds
             then Some ((if neg then - 1 else 1) * base_val 10 ds) else None)"

definition parse_unsigned :: "string \<Rightarrow> rat option" where
  "parse_unsigned s =
     (let hex = (case s of a # b # _ # _ \<Rightarrow> a = CHR ''0'' \<and> lower_char b = CHR ''x'' | _ \<Rightarrow> False);
          body = (if hex then drop 2 s else s);
          (ip, fp, r) = split_mantissa (\<lambda>c. is_digit c \<or> hex \<and> is_hex_letter c) body;
          nfrac = length (filter (\<lambda>c. c \<noteq> CHR ''_'') fp);
          b = (if hex then 16 else 10);
          m = (of_int (base_val b (ip @ fp)) :: rat) / of_int b ^ nfrac;
          expch = (if hex then CHR ''p'' else CHR ''e'')
      in if filter (\<lambda>c. c \<noteq> CHR ''_'') (ip @ fp) = [] \<or> (CHR ''_'' \<in> set s \<and> \<not> underscore_ok s)
         then None
         else (case r of
                 [] \<Rightarrow> if hex then None else Some m
               | c # es \<Rightarrow>
                   if lower_char c = expch then
                     map_option (\<lambda>e. m * (if hex then rat_pow2 e else rat_pow10 e)) (parse_exponent es)
                   else None))"

definition ParseFloat :: "string \<Rightarrow> float64 option" where
  "ParseFloat s =
     (let neg = HasPrefix s ''-'';
          u = (if neg \<or> HasPrefix s ''+'' then tl s else s);
          low = map lower_char u
      in if low = ''inf'' \<or> low = ''infinity'' then Some (FInf (\<not> neg))
         else if low = ''nan'' \<and> u = s then Some FNaN
         else (case parse_unsigned u of
                 None \<Rightarrow> None
               | Some x \<Rightarrow>
                   (case round_f64 neg (if neg then - x else x) of
                      FInf _ \<Rightarrow> None
                    | f \<Rightarrow> Some f)))"

section \<open>Printing: \<open>strconv.FormatFloat(x, 'f', -1, 64)\<close>\<close>

text \<open>\<open>\<lfloor>log\<^sub>1\<^sub>0 x\<rfloor>\<close> of a positive \<open>float64\<close>: the smallest positive one exceeds \<open>10 ^ (- 324)\<close>.\<close>

fun neg_log10 :: "nat \<Rightarrow> rat \<Rightarrow> int" where
  "neg_log10 0 x = 0"
| "neg_log10 (Suc n) x = (if 1 \<le> x then 0 else neg_log10 n (10 * x) - 1)"

definition floor_log10 :: "rat \<Rightarrow> int" where
  "floor_log10 x =
     (if 1 \<le> x then int (length (show_dec \<lfloor>x\<rfloor>)) - 1 else neg_log10 400 x)"

text \<open>
  The shortest decimal \<open>c * 10 ^ e\<close> that reads back as \<open>x\<close>: for a growing number of digits,
  the neighbours of \<open>x\<close> below and above, the nearer one if both read back. Rounding up can
  carry into a new digit, which \<open>format_pos\<close> takes off again.
\<close>

fun shortest :: "nat \<Rightarrow> rat \<Rightarrow> int \<Rightarrow> int \<times> int" where
  "shortest 0 x e = (\<lfloor>x / rat_pow10 e\<rfloor>, e)"
| "shortest (Suc n) x e =
     (let y = x / rat_pow10 e; c = \<lfloor>y\<rfloor>;
          down = (round_f64 False (of_int c * rat_pow10 e) = FFin x);
          up = (round_f64 False (of_int (c + 1) * rat_pow10 e) = FFin x)
      in if down \<and> up then (round_half_even y, e)
         else if down then (c, e)
         else if up then (c + 1, e)
         else shortest n x (e - 1))"

definition format_pos :: "rat \<Rightarrow> string" where
  "format_pos x =
     (let (c0, e0) = shortest 17 x (floor_log10 x);
          (c, e) = (if c0 mod 10 = 0 then (c0 div 10, e0 + 1) else (c0, e0));
          ds = show_dec c
      in if 0 \<le> e then ds @ replicate (nat e) (CHR ''0'')
         else (let k = nat (- e);
                   padded = replicate (Suc k - length ds) (CHR ''0'') @ ds
               in take (length padded - k) padded @ ''.'' @ drop (length padded - k) padded))"

definition FormatFloat :: "float64 \<Rightarrow> string" where
  "FormatFloat x =
     (case x of
        FNaN \<Rightarrow> ''NaN''
      | FInf b \<Rightarrow> if b then ''+Inf'' else ''-Inf''
      | FNegZero \<Rightarrow> ''-0''
      | FFin r \<Rightarrow> if r = 0 then ''0'' else if r < 0 then CHR ''-'' # format_pos (- r) else format_pos r)"

end
