(* ===== verification/Expr_Lexer.thy ===== *)
theory Expr_Lexer
  imports Go_Prelude
begin

text \<open>
  The tokenizer of the expression language (\<open>internal/runner/eval.go\<close>, from \<open>tokType\<close> to
  \<open>isIdentCont\<close>). The index \<open>i\<close> of the loop is the suffix of the string that is left.
\<close>

section \<open>Tokens\<close>

datatype tokType =
    tokString | tokNumber | tokBool | tokNull | tokIdent | tokLParen | tokRParen | tokComma
  | tokDot | tokLBracket | tokRBracket | tokEQ | tokNEQ | tokLT | tokLTE | tokGT | tokGTE
  | tokAND | tokOR | tokNOT | tokEOF

datatype token = Token (ttyp: tokType) (tval: string)

definition isIdentStart :: "char \<Rightarrow> bool" where
  "isIdentStart ch =
     (CHR ''a'' \<le> ch \<and> ch \<le> CHR ''z'' \<or> CHR ''A'' \<le> ch \<and> ch \<le> CHR ''Z'' \<or> ch = CHR ''_'')"

definition isIdentCont :: "char \<Rightarrow> bool" where
  "isIdentCont ch = (isIdentStart ch \<or> is_digit ch \<or> ch = CHR ''-'')"

definition quote :: char where
  "quote = CHR 0x27"

definition word_token :: "string \<Rightarrow> token" where
  "word_token w =
     (if w = ''true'' then Token tokBool ''true''
      else if w = ''false'' then Token tokBool ''false''
      else if w = ''null'' then Token tokNull ''null''
      else Token tokIdent w)"

fun tokenize :: "string \<Rightarrow> token list" where
  "tokenize [] = [Token tokEOF []]"
| "tokenize (ch # s) =
     (if ch = CHR '' '' \<or> ch = CHR 0x09 \<or> ch = CHR 0x0A \<or> ch = CHR 0x0D then tokenize s
      else if ch = quote then
        (let lit = takeWhile (\<lambda>c. c \<noteq> quote) s
         in Token tokString lit # tokenize (drop (Suc (length lit)) s))
      else if is_digit ch \<or> ch = CHR ''-'' \<and> s \<noteq> [] \<and> is_digit (hd s) then
        (let body = takeWhile (\<lambda>c. is_digit c \<or> c = CHR ''.'') s
         in Token tokNumber (ch # body) # tokenize (drop (length body) s))
      else if ch = CHR ''('' then Token tokLParen ''('' # tokenize s
      else if ch = CHR '')'' then Token tokRParen '')'' # tokenize s
      else if ch = CHR '','' then Token tokComma '','' # tokenize s
      else if ch = CHR ''.'' then Token tokDot ''.'' # tokenize s
      else if ch = CHR ''['' then Token tokLBracket ''['' # tokenize s
      else if ch = CHR '']'' then Token tokRBracket '']'' # tokenize s
      else if ch = CHR ''='' \<and> HasPrefix s ''='' then Token tokEQ ''=='' # tokenize (drop 1 s)
      else if ch = CHR ''!'' \<and> HasPrefix s ''='' then Token tokNEQ ''!='' # tokenize (drop 1 s)
      else if ch = CHR ''<'' \<and> HasPrefix s ''='' then Token tokLTE ''<='' # tokenize (drop 1 s)
      else if ch = CHR ''<'' then Token tokLT ''<'' # tokenize s
      else if ch = CHR ''>'' \<and> HasPrefix s ''='' then Token tokGTE ''>='' # tokenize (drop 1 s)
      else if ch = CHR ''>'' then Token tokGT ''>'' # tokenize s
      else if ch = CHR ''&'' \<and> HasPrefix s ''&'' then Token tokAND ''&&'' # tokenize (drop 1 s)
      else if ch = CHR ''|'' \<and> HasPrefix s ''|'' then Token tokOR ''||'' # tokenize (drop 1 s)
      else if ch = CHR ''!'' then Token tokNOT ''!'' # tokenize s
      else if isIdentStart ch then
        (let body = takeWhile isIdentCont s
         in word_token (ch # body) # tokenize (drop (length body) s))
      else tokenize s)"

declare tokenize.simps(2) [simp del]

section \<open>The end of the token list\<close>

text \<open>
  Every branch of the tokenizer reads at least one character and adds at most one token,
  which is not the end marker.
\<close>

definition emits :: "string \<Rightarrow> token list \<Rightarrow> bool" where
  "emits s r =
     (\<exists>s'. length s' \<le> length s \<and>
        (r = tokenize s' \<or> (\<exists>t. ttyp t \<noteq> tokEOF \<and> r = t # tokenize s')))"

lemma emits_skip: "length s' \<le> length s \<Longrightarrow> emits s (tokenize s')"
  by (auto simp: emits_def)

lemma emits_token: "ttyp t \<noteq> tokEOF \<Longrightarrow> length s' \<le> length s \<Longrightarrow> emits s (t # tokenize s')"
  by (auto simp: emits_def)

lemma emits_if: "emits s x \<Longrightarrow> emits s y \<Longrightarrow> emits s (if b then x else y)"
  by simp

lemma tokenize_emits: "emits s (tokenize (ch # s))"
  unfolding tokenize.simps(2) Let_def
  by (intro emits_if emits_token emits_skip) (simp_all add: word_token_def)

lemma tokenize_ends_in_EOF:
  "\<exists>ts. tokenize s = ts @ [Token tokEOF []] \<and> (\<forall>t \<in> set ts. ttyp t \<noteq> tokEOF)"
proof (induction s rule: length_induct)
  case (1 s)
  show ?case
  proof (cases s)
    case Nil
    then show ?thesis by simp
  next
    case (Cons ch cs)
    obtain s' where l: "length s' \<le> length cs"
      and r: "tokenize s = tokenize s' \<or> (\<exists>t. ttyp t \<noteq> tokEOF \<and> tokenize s = t # tokenize s')"
      using tokenize_emits[of cs ch] Cons unfolding emits_def by blast
    then obtain ts where "tokenize s' = ts @ [Token tokEOF []]" "\<forall>t \<in> set ts. ttyp t \<noteq> tokEOF"
      using 1 Cons by (metis length_Cons less_Suc_eq_le)
    with r show ?thesis
      by (metis append_Cons set_ConsD)
  qed
qed

section \<open>Reading back\<close>

text \<open>
  The text of a token, and the tokens that have one: a string literal has no quote, a number
  and a word have the shape the tokenizer reads, and every other token its fixed text.
\<close>

definition tok_text :: "token \<Rightarrow> string" where
  "tok_text t = (if ttyp t = tokString then quote # tval t @ [quote] else tval t)"

definition num_text :: "string \<Rightarrow> bool" where
  "num_text v =
     (case v of
        [] \<Rightarrow> False
      | c # cs \<Rightarrow> (is_digit c \<or> c = CHR ''-'' \<and> cs \<noteq> [] \<and> is_digit (hd cs)) \<and>
          list_all (\<lambda>c. is_digit c \<or> c = CHR ''.'') cs)"

definition ident_text :: "string \<Rightarrow> bool" where
  "ident_text v =
     (case v of [] \<Rightarrow> False | c # cs \<Rightarrow> isIdentStart c \<and> list_all isIdentCont cs)"

definition wf_token :: "token \<Rightarrow> bool" where
  "wf_token t =
     (case ttyp t of
        tokString \<Rightarrow> quote \<notin> set (tval t)
      | tokNumber \<Rightarrow> num_text (tval t)
      | tokBool \<Rightarrow> tval t = ''true'' \<or> tval t = ''false''
      | tokNull \<Rightarrow> tval t = ''null''
      | tokIdent \<Rightarrow> ident_text (tval t) \<and> tval t \<notin> {''true'', ''false'', ''null''}
      | tokLParen \<Rightarrow> tval t = ''(''
      | tokRParen \<Rightarrow> tval t = '')''
      | tokComma \<Rightarrow> tval t = '',''
      | tokDot \<Rightarrow> tval t = ''.''
      | tokLBracket \<Rightarrow> tval t = ''[''
      | tokRBracket \<Rightarrow> tval t = '']''
      | tokEQ \<Rightarrow> tval t = ''==''
      | tokNEQ \<Rightarrow> tval t = ''!=''
      | tokLT \<Rightarrow> tval t = ''<''
      | tokLTE \<Rightarrow> tval t = ''<=''
      | tokGT \<Rightarrow> tval t = ''>''
      | tokGTE \<Rightarrow> tval t = ''>=''
      | tokAND \<Rightarrow> tval t = ''&&''
      | tokOR \<Rightarrow> tval t = ''||''
      | tokNOT \<Rightarrow> tval t = ''!''
      | tokEOF \<Rightarrow> False)"

definition render :: "token list \<Rightarrow> string" where
  "render ts = concat (map (\<lambda>t. tok_text t @ '' '') ts)"

lemma takeWhile_all_then:
  "list_all P xs \<Longrightarrow> \<not> P y \<Longrightarrow> takeWhile P (xs @ y # ys) = xs"
  by (induction xs) auto

lemma isIdentStart_not_special:
  assumes "isIdentStart c"
  shows "c \<notin> {CHR '' '', CHR 0x09, CHR 0x0A, CHR 0x0D, CHR 0x27, CHR ''-'', CHR ''('', CHR '')'',
     CHR '','', CHR ''.'', CHR ''['', CHR '']'', CHR ''='', CHR ''!'', CHR ''<'', CHR ''>'',
     CHR ''&'', CHR ''|''} \<and> \<not> is_digit c"
  using assms by (auto simp: isIdentStart_def is_digit_def less_eq_char_def)

lemma is_digit_not_special:
  assumes "is_digit c"
  shows "c \<notin> {CHR '' '', CHR 0x09, CHR 0x0A, CHR 0x0D, CHR 0x27}"
  using assms by (auto simp: is_digit_def)

lemma tokenize_space: "tokenize (CHR '' '' # s) = tokenize s"
  by (simp add: tokenize.simps(2))

lemma tokenize_word:
  assumes "ident_text v"
  shows "tokenize (v @ CHR '' '' # s) = word_token v # tokenize s"
proof -
  obtain c cs where v: "v = c # cs" "isIdentStart c" "list_all isIdentCont cs"
    using assms by (auto simp: ident_text_def split: list.splits)
  have "\<not> isIdentCont (CHR '' '')"
    by (simp add: isIdentCont_def isIdentStart_def is_digit_def)
  then have "takeWhile isIdentCont (cs @ CHR '' '' # s) = cs"
    by (rule takeWhile_all_then[OF v(3)])
  then show ?thesis
    using v isIdentStart_not_special[OF v(2)]
    by (simp add: tokenize.simps(2)[of c] quote_def tokenize_space)
qed

lemma tokenize_number:
  assumes "num_text v"
  shows "tokenize (v @ CHR '' '' # s) = Token tokNumber v # tokenize s"
proof -
  obtain c cs where v: "v = c # cs" "list_all (\<lambda>c. is_digit c \<or> c = CHR ''.'') cs"
    and lead: "is_digit c \<or> c = CHR ''-'' \<and> cs \<noteq> [] \<and> is_digit (hd cs)"
    using assms by (auto simp: num_text_def split: list.splits)
  have "takeWhile (\<lambda>c. is_digit c \<or> c = CHR ''.'') (cs @ CHR '' '' # s) = cs"
    by (rule takeWhile_all_then[OF v(2)]) (simp add: is_digit_def)
  moreover have "c \<notin> {CHR '' '', CHR 0x09, CHR 0x0A, CHR 0x0D, CHR 0x27}"
    using lead is_digit_not_special by auto
  moreover have "is_digit c \<or> c = CHR ''-'' \<and> cs @ CHR '' '' # s \<noteq> [] \<and> is_digit (hd (cs @ CHR '' '' # s))"
    using lead by auto
  ultimately show ?thesis
    using v by (simp add: tokenize.simps(2)[of c] quote_def tokenize_space)
qed

lemma tokenize_string:
  assumes "quote \<notin> set v"
  shows "tokenize (quote # v @ quote # CHR '' '' # s) = Token tokString v # tokenize s"
proof -
  have "takeWhile (\<lambda>c. c \<noteq> quote) (v @ quote # CHR '' '' # s) = v"
    by (rule takeWhile_all_then) (use assms in \<open>auto simp: list_all_iff\<close>)
  then show ?thesis
    by (simp add: tokenize.simps(2)[of "CHR 0x27"] quote_def tokenize_space)
qed

lemma tokenize_token:
  assumes "wf_token t"
  shows "tokenize (tok_text t @ CHR '' '' # s) = t # tokenize s"
proof -
  consider (str) "ttyp t = tokString" | (word) "ttyp t \<in> {tokNumber, tokBool, tokNull, tokIdent}"
    | (op) "ttyp t \<notin> {tokString, tokNumber, tokBool, tokNull, tokIdent}"
    by blast
  then show ?thesis
  proof cases
    case str
    with assms show ?thesis
      by (cases t) (simp add: wf_token_def tok_text_def tokenize_string)
  next
    case word
    have "ident_text ''true''" "ident_text ''false''" "ident_text ''null''"
      by (simp_all add: ident_text_def isIdentStart_def isIdentCont_def)
    with word assms show ?thesis
      by (cases t) (auto simp: wf_token_def tok_text_def tokenize_number
          tokenize_word word_token_def simp del: append_Cons)
  next
    case op
    note ops = tokenize.simps(2) quote_def is_digit_def isIdentStart_def
    from op assms show ?thesis
      by (cases t; cases "ttyp t") (simp_all add: wf_token_def tok_text_def ops tokenize_space)
  qed
qed

text \<open>
  C27. The tokenizer reads back what the tokens print: for every list of well-formed tokens,
  tokenizing their texts separated by spaces gives these tokens and the end marker.
\<close>

theorem tokenize_render:
  assumes "list_all wf_token ts"
  shows "tokenize (render ts) = ts @ [Token tokEOF []]"
  using assms by (induction ts) (simp_all add: render_def tokenize_token)

definition sample_tokens :: "token list" where
  "sample_tokens =
     [Token tokNOT ''!'', Token tokIdent ''contains'', Token tokLParen ''('', Token tokIdent ''github'',
      Token tokDot ''.'', Token tokIdent ''ref'', Token tokComma '','', Token tokString ''heads/main'',
      Token tokRParen '')'', Token tokAND ''&&'', Token tokNumber ''-1.5'', Token tokLTE ''<='',
      Token tokBool ''true'']"

theorem tokenize_render_witness:
  "list_all wf_token sample_tokens \<and>
   tokenize (render sample_tokens) = sample_tokens @ [Token tokEOF []]"
proof -
  have "list_all wf_token sample_tokens"
    by (simp add: sample_tokens_def wf_token_def num_text_def ident_text_def quote_def is_digit_def
        isIdentStart_def isIdentCont_def)
  then show ?thesis
    using tokenize_render by blast
qed

end
