(* ===== verification/Expr_Values.thy ===== *)
theory Expr_Values
  imports Go_Float Expr_Lexer
begin

text \<open>
  The dynamic values of expressions, the built-in helpers and the type utilities of
  \<open>internal/runner/eval.go\<close>.

  \<open>golib\<close> holds what the evaluator calls and this development does not define: the mapping of
  characters outside ASCII by \<open>strings.ToLower\<close>, \<open>strings.ToUpper\<close> and \<open>strings.EqualFold\<close>
  (the tables of the \<open>unicode\<close> package), and \<open>encoding/json\<close>. Every definition takes it as an
  argument and no theorem assumes anything of it.
\<close>

section \<open>Values\<close>

datatype gvalue =
    VNil
  | VBool bool
  | VFloat float64
  | VInt int
  | VInt64 int
  | VString string
  | VList "gvalue list"
  | VMap "(string \<times> gvalue) list"

record golib =
  uni_lower :: "string \<Rightarrow> string"
  uni_upper :: "string \<Rightarrow> string"
  uni_fold :: "string \<Rightarrow> string \<Rightarrow> bool"
  json_Marshal :: "gvalue \<Rightarrow> string option"
  json_Unmarshal :: "string \<Rightarrow> gvalue option"

definition is_ascii :: "string \<Rightarrow> bool" where
  "is_ascii s = list_all (\<lambda>c. c < CHR 0x80) s"

definition ToLower :: "golib \<Rightarrow> string \<Rightarrow> string" where
  "ToLower lib s = (if is_ascii s then map lower_char s else uni_lower lib s)"

definition ToUpper :: "golib \<Rightarrow> string \<Rightarrow> string" where
  "ToUpper lib s = (if is_ascii s then map upper_char s else uni_upper lib s)"

definition EqualFold :: "golib \<Rightarrow> string \<Rightarrow> string \<Rightarrow> bool" where
  "EqualFold lib s t =
     (if is_ascii s \<and> is_ascii t then map lower_char s = map lower_char t else uni_fold lib s t)"

datatype eval_error =
    ExpectedToken tokType tokType string
  | UnexpectedToken string
  | InvalidNumber string
  | ArgCount string nat
  | UnknownFunction string
  | UnknownOp tokType
  | JsonMarshal
  | JsonUnmarshal

section \<open>Type utilities\<close>

fun isTruthy :: "gvalue \<Rightarrow> bool" where
  "isTruthy VNil = False"
| "isTruthy (VBool b) = b"
| "isTruthy (VFloat f) = (\<not> f_eq f (FFin 0))"
| "isTruthy (VInt i) = (i \<noteq> 0)"
| "isTruthy (VInt64 i) = (i \<noteq> 0)"
| "isTruthy (VString s) = (s \<noteq> [])"
| "isTruthy _ = True"

fun valueToString :: "golib \<Rightarrow> gvalue \<Rightarrow> string" where
  "valueToString lib VNil = []"
| "valueToString lib (VString s) = s"
| "valueToString lib (VBool b) = (if b then ''true'' else ''false'')"
| "valueToString lib (VFloat f) =
     (if f_eq f (f_of_int (f_to_int64 f)) then Itoa (f_to_int64 f) else FormatFloat f)"
| "valueToString lib (VInt i) = Itoa i"
| "valueToString lib (VInt64 i) = Itoa i"
| "valueToString lib v = (case json_Marshal lib v of Some b \<Rightarrow> b | None \<Rightarrow> [])"

fun toFloat :: "gvalue \<Rightarrow> float64 option" where
  "toFloat (VFloat f) = Some f"
| "toFloat (VInt i) = Some (f_of_int i)"
| "toFloat (VInt64 i) = Some (f_of_int i)"
| "toFloat (VString s) = ParseFloat s"
| "toFloat _ = None"

section \<open>Comparisons\<close>

definition valuesEqual :: "golib \<Rightarrow> gvalue \<Rightarrow> gvalue \<Rightarrow> bool" where
  "valuesEqual lib a b =
     (if a = VNil \<and> b = VNil then True
      else if a = VNil \<or> b = VNil then False
      else (case (toFloat a, toFloat b) of
              (Some x, Some y) \<Rightarrow> f_eq x y
            | _ \<Rightarrow> EqualFold lib (valueToString lib a) (valueToString lib b)))"

definition ordered :: "tokType \<Rightarrow> bool \<Rightarrow> bool \<Rightarrow> eval_error + gvalue" where
  "ordered op lt eq =
     (case op of
        tokLT \<Rightarrow> Inr (VBool lt)
      | tokLTE \<Rightarrow> Inr (VBool (lt \<or> eq))
      | tokGT \<Rightarrow> Inr (VBool (\<not> lt \<and> \<not> eq))
      | tokGTE \<Rightarrow> Inr (VBool (\<not> lt))
      | _ \<Rightarrow> Inl (UnknownOp op))"

text \<open>
  The numeric branch spells out the four float comparisons, which are all false on a NaN;
  the string branch compares the lower-cased texts byte by byte.
\<close>

definition evalComparison :: "golib \<Rightarrow> gvalue \<Rightarrow> tokType \<Rightarrow> gvalue \<Rightarrow> eval_error + gvalue" where
  "evalComparison lib left op right =
     (case op of
        tokEQ \<Rightarrow> Inr (VBool (valuesEqual lib left right))
      | tokNEQ \<Rightarrow> Inr (VBool (\<not> valuesEqual lib left right))
      | _ \<Rightarrow>
          (let l = ToLower lib (valueToString lib left); r = ToLower lib (valueToString lib right);
               bytes = ordered op (l < r) (l = r)
           in case (toFloat left, toFloat right) of
                (Some lf, Some rf) \<Rightarrow>
                  (case op of
                     tokLT \<Rightarrow> Inr (VBool (f_lt lf rf))
                   | tokLTE \<Rightarrow> Inr (VBool (f_le lf rf))
                   | tokGT \<Rightarrow> Inr (VBool (f_lt rf lf))
                   | tokGTE \<Rightarrow> Inr (VBool (f_le rf lf))
                   | _ \<Rightarrow> bytes)
              | _ \<Rightarrow> bytes))"

section \<open>Built-in functions\<close>

definition evalContains :: "golib \<Rightarrow> gvalue \<Rightarrow> gvalue \<Rightarrow> gvalue" where
  "evalContains lib search item =
     (let needle = ToLower lib (valueToString lib item)
      in case search of
           VString s \<Rightarrow> VBool (Contains (ToLower lib s) needle)
         | VList vs \<Rightarrow> VBool (list_ex (\<lambda>v. valuesEqual lib v item) vs)
         | _ \<Rightarrow> VBool (Contains (ToLower lib (valueToString lib search)) needle))"

fun format_from :: "golib \<Rightarrow> nat \<Rightarrow> string \<Rightarrow> gvalue list \<Rightarrow> string" where
  "format_from lib i tmpl [] = tmpl"
| "format_from lib i tmpl (arg # args) =
     format_from lib (Suc i)
       (ReplaceAll tmpl (''{'' @ Itoa (int i) @ ''}'') (valueToString lib arg)) args"

definition evalFormat :: "golib \<Rightarrow> gvalue list \<Rightarrow> gvalue" where
  "evalFormat lib args =
     (case args of
        [] \<Rightarrow> VString []
      | a # rest \<Rightarrow> VString (format_from lib 0 (valueToString lib a) rest))"

definition evalJoin :: "golib \<Rightarrow> gvalue \<Rightarrow> string \<Rightarrow> gvalue" where
  "evalJoin lib arr sep =
     (case arr of
        VList vs \<Rightarrow> VString (Join (map (valueToString lib) vs) sep)
      | VString s \<Rightarrow> VString s
      | _ \<Rightarrow> VString (valueToString lib arr))"

end
