(* ===== verification/Eval_Context.thy ===== *)
theory Eval_Context
  imports Expr_Values Workflow
begin

text \<open>
  The contexts of expression evaluation (\<open>internal/runner/context.go\<close>), and \<open>JobInfo\<close> of
  \<open>internal/runner/executor.go\<close>, from which they are built.
\<close>

section \<open>Types\<close>

record StepResult =
  sr_Outcome :: string
  sr_Conclusion :: string
  sr_Outputs :: "string gomap"

datatype JobStatus =
    JobStatusPending
  | JobStatusSuccess
  | JobStatusFailure
  | JobStatusCancelled
  | JobStatusSkipped
  | JobStatusRunning

record JobInfo =
  ji_SHA :: string
  ji_Ref :: string
  ji_RefName :: string
  ji_EventName :: string
  ji_Repo :: string
  ji_Owner :: string
  ji_RepoName :: string
  ji_RunID :: string
  ji_RunNumber :: int
  ji_Actor :: string
  ji_EventPayload :: string
  ji_PRNumber :: int
  ji_HeadRef :: string
  ji_BaseRef :: string
  ji_Inputs :: "string gomap"

record EvalContext =
  ec_Github :: "gvalue gomap"
  ec_Env :: "string gomap"
  ec_Job :: "gvalue gomap"
  ec_Steps :: "StepResult gomap"
  ec_Runner :: "gvalue gomap"
  ec_Secrets :: "string gomap"
  ec_Inputs :: "string gomap"
  ec_JobStatus :: JobStatus
  ec_Cancelled :: bool

section \<open>Lookup\<close>

definition stringsToInterface :: "string gomap \<Rightarrow> gvalue" where
  "stringsToInterface m = VMap (map (\<lambda>(k, v). (k, VString v)) m)"

definition stepToMap :: "StepResult \<Rightarrow> gvalue" where
  "stepToMap s =
     VMap [(''outcome'', VString (sr_Outcome s)), (''conclusion'', VString (sr_Conclusion s)),
           (''outputs'', stringsToInterface (sr_Outputs s))]"

definition is_index_part :: "string \<Rightarrow> bool" where
  "is_index_part part = (2 < length part \<and> hd part = CHR ''['' \<and> last part = CHR '']'')"

text \<open>
  \<open>lookupValue\<close>: \<open>None\<close> is the result \<open>(nil, false)\<close>. An index part needs a list, any other
  part a map: first the exact key, then the first key that agrees up to case.
\<close>

fun lookupValue :: "golib \<Rightarrow> string list \<Rightarrow> gvalue \<Rightarrow> gvalue option" where
  "lookupValue lib [] val = Some val"
| "lookupValue lib (part # rest) val =
     (if is_index_part part then
        (case Atoi (butlast (tl part)) of
           None \<Rightarrow> None
         | Some idx \<Rightarrow>
             (case val of
                VList vs \<Rightarrow>
                  if idx < 0 \<or> int (length vs) \<le> idx then None
                  else lookupValue lib rest (vs ! nat idx)
              | _ \<Rightarrow> None))
      else
        (case val of
           VMap m \<Rightarrow>
             (case map_of m part of
                Some child \<Rightarrow> lookupValue lib rest child
              | None \<Rightarrow>
                  (case find (\<lambda>(k, cv). ToLower lib k = ToLower lib part) m of
                     Some (k, cv) \<Rightarrow> lookupValue lib rest cv
                   | None \<Rightarrow> None))
         | _ \<Rightarrow> None))"

definition Lookup :: "golib \<Rightarrow> EvalContext \<Rightarrow> string list \<Rightarrow> gvalue option" where
  "Lookup lib c parts =
     (case parts of
        [] \<Rightarrow> None
      | p # rest \<Rightarrow>
          if p = ''github'' then lookupValue lib rest (VMap (ec_Github c))
          else if p = ''env'' then lookupValue lib rest (stringsToInterface (ec_Env c))
          else if p = ''job'' then lookupValue lib rest (VMap (ec_Job c))
          else if p = ''steps'' then
            (case rest of
               [] \<Rightarrow> None
             | sid # rest' \<Rightarrow>
                 (case map_of (ec_Steps c) sid of
                    None \<Rightarrow> None
                  | Some step \<Rightarrow> lookupValue lib rest' (stepToMap step)))
          else if p = ''runner'' then lookupValue lib rest (VMap (ec_Runner c))
          else if p = ''secrets'' then lookupValue lib rest (stringsToInterface (ec_Secrets c))
          else if p = ''inputs'' then lookupValue lib rest (stringsToInterface (ec_Inputs c))
          else None)"

section \<open>Building a context\<close>

definition jobStatusString :: "JobStatus \<Rightarrow> string" where
  "jobStatusString s =
     (case s of
        JobStatusSuccess \<Rightarrow> ''success''
      | JobStatusPending \<Rightarrow> ''success''
      | JobStatusFailure \<Rightarrow> ''failure''
      | JobStatusCancelled \<Rightarrow> ''cancelled''
      | _ \<Rightarrow> ''success'')"

definition runner_ctx :: "gvalue gomap" where
  "runner_ctx =
     [(''os'', VString ''Linux''), (''arch'', VString ''X64''), (''temp'', VString ''/runner/_temp''),
      (''tool_cache'', VString ''/runner/_tools''), (''name'', VString ''ghenkins'')]"

definition github_ctx :: "JobInfo \<Rightarrow> gvalue gomap" where
  "github_ctx info =
     [(''sha'', VString (ji_SHA info)), (''ref'', VString (ji_Ref info)),
      (''ref_name'', VString (ji_RefName info)), (''event_name'', VString (ji_EventName info)),
      (''repository'', VString (ji_Repo info)), (''repository_owner'', VString (ji_Owner info)),
      (''actor'', VString (ji_Actor info)), (''run_id'', VString (ji_RunID info)),
      (''run_number'', VInt (ji_RunNumber info)), (''workspace'', VString ''/workspace'')]"

text \<open>
  \<open>BuildEvalContext\<close>. A nil step is \<open>None\<close>; a nil map reads as an empty one, so the two
  replacements of nil maps leave nothing to model.
\<close>

definition BuildEvalContext ::
  "golib \<Rightarrow> Workflow \<Rightarrow> string \<Rightarrow> Job \<Rightarrow> Step option \<Rightarrow> StepResult gomap \<Rightarrow> string gomap \<Rightarrow>
   JobInfo \<Rightarrow> string gomap \<Rightarrow> JobStatus \<Rightarrow> bool \<Rightarrow> EvalContext" where
  "BuildEvalContext lib w jobID job step stepResults liveEnv info secrets jobStatus cancelled =
     (let githubCtx = mput ''job'' (VString jobID) (github_ctx info);
          githubCtx =
            (if ji_EventPayload info \<noteq> [] then
               (case json_Unmarshal lib (ji_EventPayload info) of
                  Some event \<Rightarrow> mput ''event'' event githubCtx
                | None \<Rightarrow> githubCtx)
             else githubCtx);
          mergedEnv = mput_all (mput_all (mput_all [] (wf_Env w)) (jb_Env job)) liveEnv;
          mergedEnv = (case step of None \<Rightarrow> mergedEnv | Some s \<Rightarrow> mput_all mergedEnv (st_Env s))
      in \<lparr>ec_Github = githubCtx, ec_Env = mergedEnv,
          ec_Job = [(''status'', VString (jobStatusString jobStatus))],
          ec_Steps = stepResults, ec_Runner = runner_ctx, ec_Secrets = secrets,
          ec_Inputs = ji_Inputs info, ec_JobStatus = jobStatus, ec_Cancelled = cancelled\<rparr>)"

end
