(* ===== verification/Expr_Parser.thy ===== *)
theory Expr_Parser
  imports Eval_Context
begin

text \<open>
  The parser and evaluator of expressions (\<open>exprParser\<close>, \<open>Eval\<close>, \<open>EvalBool\<close> and \<open>Interpolate\<close> of
  \<open>internal/runner/eval.go\<close>). The parser computes the value while it reads, as in the source.

  The state \<open>(tokens, pos)\<close> is the list of the tokens from \<open>pos\<close> on. Each method takes fuel:
  \<open>None\<close> means that the fuel was too small, \<open>Some (Inl e)\<close> is an error of the source and
  \<open>Some (Inr (v, ts))\<close> the value and the tokens that are left. \<open>Expr_Correct\<close> proves that the
  fuel of \<open>Eval\<close> is always enough.
\<close>

section \<open>Parser state\<close>

type_synonym 'a pres = "(eval_error + 'a \<times> token list) option"

definition pok :: "'a \<Rightarrow> token list \<Rightarrow> 'a pres" where
  "pok v ts = Some (Inr (v, ts))"

definition perr :: "eval_error \<Rightarrow> 'a pres" where
  "perr e = Some (Inl e)"

definition plift :: "eval_error + 'a \<Rightarrow> token list \<Rightarrow> 'a pres" where
  "plift r ts = (case r of Inl e \<Rightarrow> perr e | Inr v \<Rightarrow> pok v ts)"

definition pbind :: "'a pres \<Rightarrow> ('a \<Rightarrow> token list \<Rightarrow> 'b pres) \<Rightarrow> 'b pres" where
  "pbind p k =
     (case p of None \<Rightarrow> None | Some (Inl e) \<Rightarrow> Some (Inl e) | Some (Inr (v, ts)) \<Rightarrow> k v ts)"

definition peek :: "token list \<Rightarrow> token" where
  "peek ts = (case ts of [] \<Rightarrow> Token tokEOF [] | t # _ \<Rightarrow> t)"

definition consume :: "token list \<Rightarrow> token list" where
  "consume ts = drop 1 ts"

definition expect :: "tokType \<Rightarrow> token list \<Rightarrow> token pres" where
  "expect ty ts =
     (let t = peek ts
      in if ttyp t \<noteq> ty then perr (ExpectedToken ty (ttyp t) (tval t)) else pok t (consume ts))"

definition cmp_ops :: "tokType set" where
  "cmp_ops = {tokEQ, tokNEQ, tokLT, tokLTE, tokGT, tokGTE}"

section \<open>Functions\<close>

definition callFunction :: "golib \<Rightarrow> EvalContext \<Rightarrow> string \<Rightarrow> gvalue list \<Rightarrow> eval_error + gvalue" where
  "callFunction lib c name args =
     (if name = ''contains'' then
        if length args \<noteq> 2 then Inl (ArgCount name (length args))
        else Inr (evalContains lib (args ! 0) (args ! 1))
      else if name = ''startsWith'' then
        if length args \<noteq> 2 then Inl (ArgCount name (length args))
        else Inr (VBool (HasPrefix (ToLower lib (valueToString lib (args ! 0)))
                                   (ToLower lib (valueToString lib (args ! 1)))))
      else if name = ''endsWith'' then
        if length args \<noteq> 2 then Inl (ArgCount name (length args))
        else Inr (VBool (HasSuffix (ToLower lib (valueToString lib (args ! 0)))
                                   (ToLower lib (valueToString lib (args ! 1)))))
      else if name = ''format'' then
        if length args < 1 then Inl (ArgCount name (length args))
        else Inr (evalFormat lib args)
      else if name = ''join'' then
        if length args < 1 \<or> length args > 2 then Inl (ArgCount name (length args))
        else Inr (evalJoin lib (args ! 0)
                   (if length args = 2 then valueToString lib (args ! 1) else '',''))
      else if name = ''toJSON'' then
        if length args \<noteq> 1 then Inl (ArgCount name (length args))
        else (case json_Marshal lib (args ! 0) of Some b \<Rightarrow> Inr (VString b) | None \<Rightarrow> Inl JsonMarshal)
      else if name = ''fromJSON'' then
        if length args \<noteq> 1 then Inl (ArgCount name (length args))
        else (case json_Unmarshal lib (valueToString lib (args ! 0)) of
                Some v \<Rightarrow> Inr v | None \<Rightarrow> Inl JsonUnmarshal)
      else if name = ''always'' then Inr (VBool True)
      else if name = ''success'' then
        Inr (VBool (ec_JobStatus c = JobStatusSuccess \<or> ec_JobStatus c = JobStatusPending))
      else if name = ''failure'' then Inr (VBool (ec_JobStatus c = JobStatusFailure))
      else if name = ''cancelled'' then Inr (VBool (ec_Cancelled c))
      else if name = ''hashFiles'' then Inr (VString [])
      else Inl (UnknownFunction name))"

section \<open>The recursive descent\<close>

text \<open>
  The property chain of \<open>parseIdentOrCall\<close>: the loop consumes \<open>.ident\<close> and \<open>[number]\<close> parts.
\<close>

lemma expect_Some:
  "expect ty ts = Some (Inr (t, ts')) \<Longrightarrow> ty \<noteq> tokEOF \<Longrightarrow> ts = t # ts' \<and> ttyp t = ty"
  by (cases ts) (auto simp: expect_def peek_def consume_def pok_def perr_def Let_def split: if_splits)

lemma consume_length [simp]: "length (consume ts) = length ts - 1"
  by (simp add: consume_def)

function chain_loop :: "string list \<Rightarrow> token list \<Rightarrow> string list pres" where
  "chain_loop parts ts =
     (if ttyp (peek ts) = tokDot then
        (case expect tokIdent (consume ts) of
           Some (Inr (t, ts')) \<Rightarrow> chain_loop (parts @ [tval t]) ts'
         | Some (Inl e) \<Rightarrow> perr e | None \<Rightarrow> None)
      else if ttyp (peek ts) = tokLBracket then
        (case expect tokNumber (consume ts) of
           Some (Inr (t, ts')) \<Rightarrow>
             (case expect tokRBracket ts' of
                Some (Inr (_, ts'')) \<Rightarrow> chain_loop (parts @ [''['' @ tval t @ '']'']) ts''
              | Some (Inl e) \<Rightarrow> perr e | None \<Rightarrow> None)
         | Some (Inl e) \<Rightarrow> perr e | None \<Rightarrow> None)
      else pok parts ts)"
  by pat_completeness auto

termination
  by (relation "measure (\<lambda>(_, ts). length ts)")
     (auto dest!: expect_Some, (auto simp: peek_def consume_def split: list.splits))

declare chain_loop.simps [simp del]

text \<open>
  The methods call each other in a cycle only through \<open>parseExpr\<close>, at a parenthesis and at the
  arguments of a call. Each of them takes that call as its argument \<open>self\<close>, and \<open>parseExpr\<close>
  closes the cycle; \<open>n\<close> bounds the iterations of the loops and the depth of the calls.
\<close>

fun argsLoop :: "(token list \<Rightarrow> gvalue pres) \<Rightarrow> nat \<Rightarrow> gvalue list \<Rightarrow> token list \<Rightarrow> gvalue list pres" where
  "argsLoop self 0 args ts = None"
| "argsLoop self (Suc n) args ts =
     (if ttyp (peek ts) \<noteq> tokRParen \<and> ttyp (peek ts) \<noteq> tokEOF then
        pbind (if args \<noteq> [] then pbind (expect tokComma ts) (\<lambda>_ ts'. pok () ts') else pok () ts)
          (\<lambda>_ ts'. pbind (self ts') (\<lambda>arg ts''. argsLoop self n (args @ [arg]) ts''))
      else pok args ts)"

definition parseIdentOrCall ::
  "golib \<Rightarrow> EvalContext \<Rightarrow> (token list \<Rightarrow> gvalue pres) \<Rightarrow> nat \<Rightarrow> token list \<Rightarrow> gvalue pres" where
  "parseIdentOrCall lib c self n ts =
     (let name = tval (peek ts); ts1 = consume ts
      in if ttyp (peek ts1) = tokLParen then
           pbind (argsLoop self n [] (consume ts1))
             (\<lambda>args ts2. pbind (expect tokRParen ts2) (\<lambda>_ ts3. plift (callFunction lib c name args) ts3))
         else
           pbind (chain_loop [name] ts1)
             (\<lambda>parts ts2. pok (case Lookup lib c parts of Some v \<Rightarrow> v | None \<Rightarrow> VNil) ts2))"

definition parsePrimary ::
  "golib \<Rightarrow> EvalContext \<Rightarrow> (token list \<Rightarrow> gvalue pres) \<Rightarrow> nat \<Rightarrow> token list \<Rightarrow> gvalue pres" where
  "parsePrimary lib c self n ts =
     (let t = peek ts
      in case ttyp t of
           tokLParen \<Rightarrow>
             pbind (self (consume ts)) (\<lambda>v ts'. pbind (expect tokRParen ts') (\<lambda>_ ts''. pok v ts''))
         | tokString \<Rightarrow> pok (VString (tval t)) (consume ts)
         | tokNumber \<Rightarrow>
             (case ParseFloat (tval t) of
                Some f \<Rightarrow> pok (VFloat f) (consume ts)
              | None \<Rightarrow> perr (InvalidNumber (tval t)))
         | tokBool \<Rightarrow> pok (VBool (tval t = ''true'')) (consume ts)
         | tokNull \<Rightarrow> pok VNil (consume ts)
         | tokIdent \<Rightarrow> parseIdentOrCall lib c self n ts
         | _ \<Rightarrow> perr (UnexpectedToken (tval t)))"

definition parseComparison ::
  "golib \<Rightarrow> EvalContext \<Rightarrow> (token list \<Rightarrow> gvalue pres) \<Rightarrow> nat \<Rightarrow> token list \<Rightarrow> gvalue pres" where
  "parseComparison lib c self n ts =
     pbind (parsePrimary lib c self n ts)
       (\<lambda>left ts'.
          if ttyp (peek ts') \<in> cmp_ops then
            pbind (parsePrimary lib c self n (consume ts'))
              (\<lambda>right ts''. plift (evalComparison lib left (ttyp (peek ts')) right) ts'')
          else pok left ts')"

fun parseNot ::
  "golib \<Rightarrow> EvalContext \<Rightarrow> (token list \<Rightarrow> gvalue pres) \<Rightarrow> nat \<Rightarrow> token list \<Rightarrow> gvalue pres" where
  "parseNot lib c self n [] = parseComparison lib c self n []"
| "parseNot lib c self n (t # ts) =
     (if ttyp t = tokNOT then
        pbind (parseNot lib c self n ts) (\<lambda>v ts'. pok (VBool (\<not> isTruthy v)) ts')
      else parseComparison lib c self n (t # ts))"

text \<open>The loops of \<open>parseAnd\<close> and \<open>parseOr\<close>: both operands are always evaluated.\<close>

fun andLoop :: "(token list \<Rightarrow> gvalue pres) \<Rightarrow> nat \<Rightarrow> gvalue \<Rightarrow> token list \<Rightarrow> gvalue pres" where
  "andLoop operand 0 left ts = None"
| "andLoop operand (Suc n) left ts =
     (if ttyp (peek ts) = tokAND then
        pbind (operand (consume ts))
          (\<lambda>right ts'. andLoop operand n (VBool (isTruthy left \<and> isTruthy right)) ts')
      else pok left ts)"

definition parseAnd ::
  "golib \<Rightarrow> EvalContext \<Rightarrow> (token list \<Rightarrow> gvalue pres) \<Rightarrow> nat \<Rightarrow> token list \<Rightarrow> gvalue pres" where
  "parseAnd lib c self n ts =
     pbind (parseNot lib c self n ts) (andLoop (parseNot lib c self n) n)"

fun orLoop :: "(token list \<Rightarrow> gvalue pres) \<Rightarrow> nat \<Rightarrow> gvalue \<Rightarrow> token list \<Rightarrow> gvalue pres" where
  "orLoop operand 0 left ts = None"
| "orLoop operand (Suc n) left ts =
     (if ttyp (peek ts) = tokOR then
        pbind (operand (consume ts))
          (\<lambda>right ts'. orLoop operand n (VBool (isTruthy left \<or> isTruthy right)) ts')
      else pok left ts)"

definition parseOr ::
  "golib \<Rightarrow> EvalContext \<Rightarrow> (token list \<Rightarrow> gvalue pres) \<Rightarrow> nat \<Rightarrow> token list \<Rightarrow> gvalue pres" where
  "parseOr lib c self n ts =
     pbind (parseAnd lib c self n ts) (orLoop (parseAnd lib c self n) n)"

fun parseExpr :: "golib \<Rightarrow> EvalContext \<Rightarrow> nat \<Rightarrow> token list \<Rightarrow> gvalue pres" where
  "parseExpr lib c 0 ts = None"
| "parseExpr lib c (Suc n) ts = parseOr lib c (parseExpr lib c n) (Suc n) ts"

section \<open>Entry points\<close>

text \<open>
  \<open>Eval\<close>: the fuel never runs out (\<open>Expr_Correct\<close>), so its \<open>None\<close> branch is not reached.
\<close>

definition Eval :: "golib \<Rightarrow> EvalContext \<Rightarrow> string \<Rightarrow> (eval_error + gvalue) option" where
  "Eval lib c expr =
     (let toks = tokenize expr
      in case parseExpr lib c (Suc (length toks)) toks of
           None \<Rightarrow> None
         | Some (Inl e) \<Rightarrow> Some (Inl e)
         | Some (Inr (v, ts)) \<Rightarrow>
             (if ts \<noteq> [] \<and> ttyp (hd ts) \<noteq> tokEOF then Some (Inl (UnexpectedToken (tval (hd ts))))
              else Some (Inr v)))"

definition EvalBool :: "golib \<Rightarrow> EvalContext \<Rightarrow> string \<Rightarrow> (eval_error + bool) option" where
  "EvalBool lib c s =
     (let s1 = TrimSpace s;
          s2 = (if HasPrefix s1 ''${{'' \<and> HasSuffix s1 ''}}''
                then TrimSpace (take (length s1 - 5) (drop 3 s1)) else s1)
      in case Eval lib c s2 of
           None \<Rightarrow> None
         | Some (Inl e) \<Rightarrow> Some (Inl e)
         | Some (Inr v) \<Rightarrow> Some (Inr (isTruthy v)))"

text \<open>
  \<open>interpolateRe\<close> is the pattern of an opening \<open>${{\<close>, as few characters as possible other than a
  newline, and a closing \<open>}}\<close>. \<open>find_close\<close> returns the text before the first \<open>}}\<close> and the rest
  behind it, unless a newline comes first. \<open>replace_exprs\<close> is \<open>ReplaceAllStringFunc\<close>: it goes
  through the string from left to right and does not look at replaced text again.
\<close>

fun find_close :: "string \<Rightarrow> (string \<times> string) option" where
  "find_close [] = None"
| "find_close (ch # s) =
     (if HasPrefix (ch # s) ''}}'' then Some ([], drop 1 s)
      else if ch = CHR 0x0A then None
      else map_option (\<lambda>(inner, rest). (ch # inner, rest)) (find_close s))"

lemma find_close_length: "find_close s = Some (inner, rest) \<Longrightarrow> length rest < length s"
  by (induction s arbitrary: inner) (auto split: if_splits)

function replace_exprs :: "(string \<Rightarrow> string) \<Rightarrow> string \<Rightarrow> string" where
  "replace_exprs f [] = []"
| "replace_exprs f (ch # s) =
     (if HasPrefix (ch # s) ''${{'' then
        (case find_close (drop 2 s) of
           Some (inner, rest) \<Rightarrow> f inner @ replace_exprs f rest
         | None \<Rightarrow> ch # replace_exprs f s)
      else ch # replace_exprs f s)"
  by pat_completeness auto

termination
  by (relation "measure (\<lambda>(_, s). length s)") (auto dest: find_close_length)

definition interpolate_one :: "golib \<Rightarrow> EvalContext \<Rightarrow> string \<Rightarrow> string" where
  "interpolate_one lib c inner =
     (case Eval lib c (TrimSpace inner) of
        Some (Inr v) \<Rightarrow> valueToString lib v
      | _ \<Rightarrow> [])"

definition Interpolate :: "golib \<Rightarrow> EvalContext \<Rightarrow> string \<Rightarrow> string" where
  "Interpolate lib c s = replace_exprs (interpolate_one lib c) s"

end
