(* ===== verification/Expr_Correct.thy ===== *)
theory Expr_Correct
  imports Expr_Parser
begin

text \<open>
  The expression evaluator against a specification: an abstract syntax with its meaning, and the
  grammar of the language with its levels of precedence. The evaluator of \<open>Expr_Parser\<close> never
  runs out of fuel, and it returns a value exactly when the tokens have a derivation whose syntax
  tree has that value.
\<close>

section \<open>Abstract syntax and meaning\<close>

datatype expr =
    EStr string
  | ENum string
  | EBool string
  | ENull
  | EPath "string list"
  | ECall string "expr list"
  | ECmp expr tokType expr
  | ENot expr
  | EAnd expr expr
  | EOr expr expr

definition rbind :: "'e + 'a \<Rightarrow> ('a \<Rightarrow> 'e + 'b) \<Rightarrow> 'e + 'b" where
  "rbind r k = (case r of Inl e \<Rightarrow> Inl e | Inr v \<Rightarrow> k v)"

fun sem :: "golib \<Rightarrow> EvalContext \<Rightarrow> expr \<Rightarrow> eval_error + gvalue"
  and sems :: "golib \<Rightarrow> EvalContext \<Rightarrow> expr list \<Rightarrow> eval_error + gvalue list" where
  "sem lib c (EStr s) = Inr (VString s)"
| "sem lib c (ENum s) =
     (case ParseFloat s of Some f \<Rightarrow> Inr (VFloat f) | None \<Rightarrow> Inl (InvalidNumber s))"
| "sem lib c (EBool s) = Inr (VBool (s = ''true''))"
| "sem lib c ENull = Inr VNil"
| "sem lib c (EPath parts) = Inr (case Lookup lib c parts of Some v \<Rightarrow> v | None \<Rightarrow> VNil)"
| "sem lib c (ECall name args) = rbind (sems lib c args) (callFunction lib c name)"
| "sem lib c (ECmp a op b) =
     rbind (sem lib c a) (\<lambda>x. rbind (sem lib c b) (\<lambda>y. evalComparison lib x op y))"
| "sem lib c (ENot a) = rbind (sem lib c a) (\<lambda>x. Inr (VBool (\<not> isTruthy x)))"
| "sem lib c (EAnd a b) =
     rbind (sem lib c a) (\<lambda>x. rbind (sem lib c b) (\<lambda>y. Inr (VBool (isTruthy x \<and> isTruthy y))))"
| "sem lib c (EOr a b) =
     rbind (sem lib c a) (\<lambda>x. rbind (sem lib c b) (\<lambda>y. Inr (VBool (isTruthy x \<or> isTruthy y))))"
| "sems lib c [] = Inr []"
| "sems lib c (e # es) = rbind (sem lib c e) (\<lambda>v. rbind (sems lib c es) (\<lambda>vs. Inr (v # vs)))"

lemma rbind_Inr [simp]: "rbind (Inr v) k = k v"
  by (simp add: rbind_def)

lemma rbind_eq_Inr: "rbind r k = Inr w \<longleftrightarrow> (\<exists>v. r = Inr v \<and> k v = Inr w)"
  by (simp add: rbind_def split: sum.splits)

lemma sems_append:
  "sems lib c es = Inr vs \<Longrightarrow> sem lib c e = Inr v \<Longrightarrow> sems lib c (es @ [e]) = Inr (vs @ [v])"
  by (induction es arbitrary: vs) (auto simp: rbind_eq_Inr)

section \<open>Grammar\<close>

text \<open>Items separated by tokens of one type: operands of a left-associative operator, arguments.\<close>

inductive chain :: "(token list \<Rightarrow> expr \<Rightarrow> bool) \<Rightarrow> tokType \<Rightarrow> token list \<Rightarrow> expr list \<Rightarrow> bool"
  for P sep where
  chain_one: "P ts e \<Longrightarrow> chain P sep ts [e]"
| chain_more: "P ts e \<Longrightarrow> ttyp t = sep \<Longrightarrow> chain P sep us es \<Longrightarrow> chain P sep (ts @ t # us) (e # es)"

lemma chain_mono [mono]:
  "(\<And>ts e. P ts e \<longrightarrow> Q ts e) \<Longrightarrow> chain P sep us es \<longrightarrow> chain Q sep us es"
proof
  assume "\<And>ts e. P ts e \<longrightarrow> Q ts e" "chain P sep us es"
  from this(2,1) show "chain Q sep us es"
    by (induction rule: chain.induct) (auto intro: chain.intros)
qed

text \<open>The parts of a property chain behind its first identifier.\<close>

inductive parts_of :: "token list \<Rightarrow> string list \<Rightarrow> bool" where
  parts_nil: "parts_of [] []"
| parts_dot: "ttyp d = tokDot \<Longrightarrow> ttyp i = tokIdent \<Longrightarrow> parts_of ts ps \<Longrightarrow> parts_of (d # i # ts) (tval i # ps)"
| parts_index: "ttyp l = tokLBracket \<Longrightarrow> ttyp k = tokNumber \<Longrightarrow> ttyp r = tokRBracket \<Longrightarrow> parts_of ts ps \<Longrightarrow>
    parts_of (l # k # r # ts) ((''['' @ tval k @ '']'') # ps)"

inductive gOr :: "token list \<Rightarrow> expr \<Rightarrow> bool"
  and gAnd :: "token list \<Rightarrow> expr \<Rightarrow> bool"
  and gNot :: "token list \<Rightarrow> expr \<Rightarrow> bool"
  and gCmp :: "token list \<Rightarrow> expr \<Rightarrow> bool"
  and gPrim :: "token list \<Rightarrow> expr \<Rightarrow> bool" where
  or_chain: "chain gAnd tokOR ts (e # es) \<Longrightarrow> gOr ts (foldl EOr e es)"
| and_chain: "chain gNot tokAND ts (e # es) \<Longrightarrow> gAnd ts (foldl EAnd e es)"
| not_not: "ttyp t = tokNOT \<Longrightarrow> gNot ts e \<Longrightarrow> gNot (t # ts) (ENot e)"
| not_cmp: "gCmp ts e \<Longrightarrow> gNot ts e"
| cmp_prim: "gPrim ts e \<Longrightarrow> gCmp ts e"
| cmp_op: "gPrim ts e \<Longrightarrow> ttyp t \<in> cmp_ops \<Longrightarrow> gPrim us f \<Longrightarrow> gCmp (ts @ t # us) (ECmp e (ttyp t) f)"
| prim_paren: "ttyp l = tokLParen \<Longrightarrow> gOr ts e \<Longrightarrow> ttyp r = tokRParen \<Longrightarrow> gPrim (l # ts @ [r]) e"
| prim_str: "ttyp t = tokString \<Longrightarrow> gPrim [t] (EStr (tval t))"
| prim_num: "ttyp t = tokNumber \<Longrightarrow> gPrim [t] (ENum (tval t))"
| prim_bool: "ttyp t = tokBool \<Longrightarrow> gPrim [t] (EBool (tval t))"
| prim_null: "ttyp t = tokNull \<Longrightarrow> gPrim [t] ENull"
| prim_path: "ttyp t = tokIdent \<Longrightarrow> parts_of ts ps \<Longrightarrow> gPrim (t # ts) (EPath (tval t # ps))"
| prim_call0: "ttyp t = tokIdent \<Longrightarrow> ttyp l = tokLParen \<Longrightarrow> ttyp r = tokRParen \<Longrightarrow>
    gPrim [t, l, r] (ECall (tval t) [])"
| prim_call: "ttyp t = tokIdent \<Longrightarrow> ttyp l = tokLParen \<Longrightarrow> chain gOr tokComma ts es \<Longrightarrow> ttyp r = tokRParen \<Longrightarrow>
    gPrim (t # l # ts @ [r]) (ECall (tval t) es)"

inductive_cases gOr_cases: "gOr ts e"
inductive_cases gAnd_cases: "gAnd ts e"
inductive_cases gNot_cases: "gNot ts e"
inductive_cases gCmp_cases: "gCmp ts e"
inductive_cases gPrim_cases: "gPrim ts e"

section \<open>Reading the monad\<close>

lemma pbind_simps [simp]:
  "pbind None k = None"
  "pbind (Some (Inl e)) k = Some (Inl e)"
  "pbind (Some (Inr (v, ts))) k = k v ts"
  "pbind (pok v ts) k = k v ts"
  "pbind (perr e) k = perr e"
  by (simp_all add: pbind_def pok_def perr_def)

lemma pbind_eq_Some:
  "pbind p k = Some (Inr r) \<longleftrightarrow> (\<exists>v ts. p = Some (Inr (v, ts)) \<and> k v ts = Some (Inr r))"
  by (auto simp: pbind_def split: option.splits sum.splits)

lemma pbind_not_None:
  "p \<noteq> None \<Longrightarrow> (\<And>v ts. p = Some (Inr (v, ts)) \<Longrightarrow> k v ts \<noteq> None) \<Longrightarrow> pbind p k \<noteq> None"
  by (auto simp: pbind_def split: option.splits sum.splits)

lemma pok_eq [simp]: "pok v ts = Some (Inr (w, us)) \<longleftrightarrow> v = w \<and> ts = us"
  by (simp add: pok_def)

lemma pok_perr_simps [simp]: "pok v ts \<noteq> None" "perr e \<noteq> None" "perr e \<noteq> Some (Inr r)"
  by (simp_all add: pok_def perr_def)

lemma plift_simps [simp]:
  "plift r ts \<noteq> None"
  "plift r ts = Some (Inr (v, us)) \<longleftrightarrow> r = Inr v \<and> ts = us"
  by (auto simp: plift_def pok_def perr_def split: sum.splits)

lemma expect_simps [simp]: "expect ty ts \<noteq> None"
  by (simp add: expect_def Let_def pok_def perr_def)

lemma expect_ok: "ttyp t = ty \<Longrightarrow> expect ty (t # ts) = pok t ts"
  by (simp add: expect_def peek_def consume_def)

lemma expect_ok_iff:
  "ty \<noteq> tokEOF \<Longrightarrow> expect ty ts = Some (Inr (t, us)) \<longleftrightarrow> ts = t # us \<and> ttyp t = ty"
  using expect_Some expect_ok by fastforce

lemma peek_consume_simps [simp]: "peek (t # ts) = t" "consume (t # ts) = ts" "ttyp (peek []) = tokEOF"
  by (simp_all add: peek_def consume_def)

lemma peek_not_EOF: "ttyp (peek ts) = ty \<Longrightarrow> ty \<noteq> tokEOF \<Longrightarrow> \<exists>t us. ts = t # us \<and> ttyp t = ty"
  by (cases ts) auto

section \<open>Termination\<close>

text \<open>
  \<open>ends m r\<close>: the result \<open>r\<close> did not run out of fuel, and a value leaves at most \<open>m\<close> tokens.
  \<open>halts k p\<close>: on fewer than \<open>k\<close> tokens \<open>p\<close> ends, and a value has cost a token.
\<close>

definition ends :: "nat \<Rightarrow> 'a pres \<Rightarrow> bool" where
  "ends m r = (r \<noteq> None \<and> (\<forall>v us. r = Some (Inr (v, us)) \<longrightarrow> length us \<le> m))"

definition halts :: "nat \<Rightarrow> (token list \<Rightarrow> 'a pres) \<Rightarrow> bool" where
  "halts k p = (\<forall>ts. length ts < k \<longrightarrow> ends (length ts - 1) (p ts))"

lemma ends_pok [simp]: "ends m (pok v us) = (length us \<le> m)"
  by (simp add: ends_def pok_def)

lemma ends_perr [simp]: "ends m (perr e)"
  by (simp add: ends_def perr_def)

lemma ends_if: "(b \<Longrightarrow> ends m x) \<Longrightarrow> (\<not> b \<Longrightarrow> ends m y) \<Longrightarrow> ends m (if b then x else y)"
  by simp

lemma ends_plift: "length us \<le> m \<Longrightarrow> ends m (plift r us)"
  by (auto simp: plift_def split: sum.split)

lemma ends_bind: "ends j p \<Longrightarrow> (\<And>v us. length us \<le> j \<Longrightarrow> ends m (k v us)) \<Longrightarrow> ends m (pbind p k)"
  by (auto simp: ends_def pbind_def split: option.splits sum.splits)

lemma ends_expect: "ends (length ts - 1) (expect ty ts)"
  by (simp add: expect_def Let_def)

lemma ends_halts: "halts k p \<Longrightarrow> length ts < k \<Longrightarrow> ends (length ts - 1) (p ts)"
  by (simp add: halts_def)

lemma ends_mono: "ends j r \<Longrightarrow> j \<le> m \<Longrightarrow> ends m r"
  by (fastforce simp: ends_def)

lemmas ends_intros = ends_plift ends_bind ends_expect ends_halts

lemma chain_loop_dot:
  "ttyp d = tokDot \<Longrightarrow>
   chain_loop parts (d # ts) = pbind (expect tokIdent ts) (\<lambda>t. chain_loop (parts @ [tval t]))"
  by (subst chain_loop.simps) (auto simp: pbind_def perr_def split: option.split sum.split)

lemma chain_loop_index:
  "ttyp d = tokLBracket \<Longrightarrow>
   chain_loop parts (d # ts) =
     pbind (expect tokNumber ts) (\<lambda>t us. pbind (expect tokRBracket us)
       (\<lambda>_. chain_loop (parts @ [''['' @ tval t @ '']''])))"
  by (subst chain_loop.simps) (auto simp: pbind_def perr_def split: option.split sum.split)

lemma chain_loop_end:
  "ttyp (peek ts) \<noteq> tokDot \<Longrightarrow> ttyp (peek ts) \<noteq> tokLBracket \<Longrightarrow> chain_loop parts ts = pok parts ts"
  by (subst chain_loop.simps) simp

lemma chain_cases:
  obtains (dot) d us where "ts = d # us" "ttyp d = tokDot"
    | (idx) l us where "ts = l # us" "ttyp l = tokLBracket"
    | (none) "ttyp (peek ts) \<noteq> tokDot" "ttyp (peek ts) \<noteq> tokLBracket"
  using peek_not_EOF by blast

lemma ends_chain_loop: "ends (length ts) (chain_loop parts ts)"
proof (induction ts arbitrary: parts rule: length_induct)
  case (1 ts)
  have rest: "ends m (chain_loop ps us)" if "length us < length ts" "length us \<le> m" for ps us m
    using 1 that ends_mono by blast
  show ?case
  proof (cases rule: chain_cases[of ts])
    case dot
    then show ?thesis
      by (auto simp: chain_loop_dot intro!: ends_intros rest)
  next
    case idx
    then show ?thesis
      by (auto simp: chain_loop_index intro!: ends_intros rest)
  qed (simp add: chain_loop_end)
qed

lemma ends_argsLoop:
  assumes "halts k self" "length ts < k" "length ts < n"
  shows "ends (length ts) (argsLoop self n args ts)"
  using assms(2,3)
proof (induction n arbitrary: args ts)
  case (Suc n)
  have rest: "ends (length ts) (argsLoop self n as us)" if "length us < length ts" for as us
    using Suc.IH[of us as] Suc.prems that by (auto intro: ends_mono)
  have first: "ends (length ts) (if args \<noteq> [] then pbind (expect tokComma ts) (\<lambda>_ ts'. pok () ts') else pok () ts)"
    by (auto intro!: ends_intros)
  show ?case
  proof (cases "ts = []")
    case False
    then have "ends (length ts) (pbind (self us) (\<lambda>arg. argsLoop self n (args @ [arg])))"
      if "length us \<le> length ts" for us
      by (rule_tac ends_bind[OF ends_halts[OF assms(1)]]) (use that Suc.prems rest in \<open>auto simp: neq_Nil_conv\<close>)
    then show ?thesis
      unfolding argsLoop.simps by (intro ends_if ends_bind[OF first]) simp_all
  qed simp
qed simp

lemma halts_parsePrimary:
  assumes "halts k self" "k \<le> n"
  shows "halts (Suc k) (parsePrimary lib c self n)"
proof -
  have "ends (length ts - 1) (parsePrimary lib c self n ts)" if "length ts < Suc k" for ts
  proof (cases ts)
    case (Cons t us)
    have "ends (length us) (parseIdentOrCall lib c self n ts)"
      using that assms Cons
      by (auto simp: parseIdentOrCall_def Let_def peek_def
          intro!: ends_bind[OF ends_argsLoop[OF assms(1)]] ends_bind[OF ends_expect] ends_plift
            ends_bind[OF ends_chain_loop]
          split: list.splits)
    moreover have "ends (length us) (pbind (self us) (\<lambda>v ts'. pbind (expect tokRParen ts') (\<lambda>_ ts''. pok v ts'')))"
      using that Cons by (auto intro!: ends_intros ends_bind[OF ends_halts[OF assms(1)]])
    ultimately show ?thesis
      using Cons by (simp add: parsePrimary_def Let_def split: tokType.split option.split)
  qed (simp add: parsePrimary_def peek_def)
  then show ?thesis by (simp add: halts_def)
qed

lemma halts_parseComparison:
  assumes "halts k (parsePrimary lib c self n)"
  shows "halts k (parseComparison lib c self n)"
proof -
  have "ends (length ts - 1) (parseComparison lib c self n ts)" if "length ts < k" for ts
    unfolding parseComparison_def
    using that by (auto intro!: ends_bind[OF ends_halts[OF assms]] ends_plift)
  then show ?thesis by (simp add: halts_def)
qed

lemma halts_parseNot:
  assumes "halts k (parseComparison lib c self n)"
  shows "halts k (parseNot lib c self n)"
proof -
  have "ends (length ts - 1) (parseNot lib c self n ts)" if "length ts < k" for ts
    using that
  proof (induction ts)
    case (Cons t ts)
    then have "ends (length ts) (pbind (parseNot lib c self n ts) (\<lambda>v. pok (VBool (\<not> isTruthy v))))"
      by (auto intro!: ends_bind)
    with Cons show ?case
      using ends_halts[OF assms, of "t # ts"] by simp
  qed (use ends_halts[OF assms, of "[]"] in simp)
  then show ?thesis by (simp add: halts_def)
qed

text \<open>The two loops of binary operators share one contract.\<close>

locale binary_loop =
  fixes loop :: "(token list \<Rightarrow> gvalue pres) \<Rightarrow> nat \<Rightarrow> gvalue \<Rightarrow> token list \<Rightarrow> gvalue pres"
    and sep :: tokType
    and f :: "bool \<Rightarrow> bool \<Rightarrow> bool"
    and con :: "expr \<Rightarrow> expr \<Rightarrow> expr"
  assumes loop_0: "loop p 0 left ts = None"
    and loop_Suc: "loop p (Suc n) left ts =
      (if ttyp (peek ts) = sep then
         pbind (p (consume ts)) (\<lambda>right. loop p n (VBool (f (isTruthy left) (isTruthy right))))
       else pok left ts)"
    and sep_not_EOF: "sep \<noteq> tokEOF"
    and sem_con: "sem lib c (con a b) =
      rbind (sem lib c a) (\<lambda>x. rbind (sem lib c b) (\<lambda>y. Inr (VBool (f (isTruthy x) (isTruthy y)))))"
begin

lemma ends_loop:
  assumes "halts k p" "length ts < k" "length ts < n"
  shows "ends (length ts) (loop p n left ts)"
  using assms(2,3)
proof (induction n arbitrary: left ts)
  case (Suc n)
  have rest: "ends m (loop p n v us)" if "length us < length ts" "length us \<le> m" for v us m
    using Suc.IH[of us v] Suc.prems that by (auto intro: ends_mono)
  show ?case
    using Suc.prems sep_not_EOF
    by (cases ts) (auto simp: loop_Suc intro!: ends_bind[OF ends_halts[OF assms(1)]] rest)
qed simp

lemma halts_bind_loop:
  assumes "halts k p" "k \<le> n"
  shows "halts k (\<lambda>ts. pbind (p ts) (loop p n))"
  unfolding halts_def using assms
  by (auto intro!: ends_bind[OF ends_halts[OF assms(1)]] intro: ends_mono[OF ends_loop])

end

interpretation ands: binary_loop andLoop tokAND "(\<and>)" EAnd
  by unfold_locales simp_all

interpretation ors: binary_loop orLoop tokOR "(\<or>)" EOr
  by unfold_locales simp_all

lemma halts_parseAnd:
  "halts k (parseNot lib c self n) \<Longrightarrow> k \<le> n \<Longrightarrow> halts k (parseAnd lib c self n)"
  unfolding parseAnd_def by (rule ands.halts_bind_loop)

lemma halts_parseOr:
  "halts k (parseAnd lib c self n) \<Longrightarrow> k \<le> n \<Longrightarrow> halts k (parseOr lib c self n)"
  unfolding parseOr_def by (rule ors.halts_bind_loop)

lemma parseExpr_Suc: "parseExpr lib c (Suc n) = parseOr lib c (parseExpr lib c n) (Suc n)"
  by (rule ext) simp

lemma halts_parseExpr: "halts n (parseExpr lib c n)"
proof (induction n)
  case (Suc n)
  from halts_parsePrimary[OF this, of "Suc n" lib c] show ?case
    by (auto simp: parseExpr_Suc intro: halts_parseOr halts_parseAnd halts_parseNot halts_parseComparison)
qed (simp add: halts_def)

section \<open>Soundness\<close>

text \<open>\<open>sound lib c p G\<close>: a value of \<open>p\<close> is the meaning of a tree that \<open>G\<close> derives from the tokens read.\<close>

definition sound ::
  "golib \<Rightarrow> EvalContext \<Rightarrow> (token list \<Rightarrow> gvalue pres) \<Rightarrow> (token list \<Rightarrow> expr \<Rightarrow> bool) \<Rightarrow> bool" where
  "sound lib c p G =
     (\<forall>ts v rest. p ts = Some (Inr (v, rest)) \<longrightarrow>
        (\<exists>pre e. ts = pre @ rest \<and> G pre e \<and> sem lib c e = Inr v))"

lemma soundI:
  "(\<And>ts v rest. p ts = Some (Inr (v, rest)) \<Longrightarrow> \<exists>pre e. ts = pre @ rest \<and> G pre e \<and> sem lib c e = Inr v) \<Longrightarrow>
   sound lib c p G"
  by (simp add: sound_def)

lemma soundE:
  assumes "sound lib c p G" "p ts = Some (Inr (v, rest))"
  obtains pre e where "ts = pre @ rest" "G pre e" "sem lib c e = Inr v"
  using assms unfolding sound_def by blast

lemma chain_loop_sound:
  "chain_loop parts ts = Some (Inr (ps, rest)) \<Longrightarrow>
   \<exists>pre qs. ts = pre @ rest \<and> parts_of pre qs \<and> ps = parts @ qs"
proof (induction ts arbitrary: parts rule: length_induct)
  case (1 ts)
  show ?case
  proof (cases rule: chain_cases[of ts])
    case (dot d us)
    with 1 obtain i vs where i: "us = i # vs" "ttyp i = tokIdent"
      "chain_loop (parts @ [tval i]) vs = Some (Inr (ps, rest))"
      by (auto simp: chain_loop_dot pbind_eq_Some expect_ok_iff)
    then obtain pre qs where "vs = pre @ rest" "parts_of pre qs" "ps = (parts @ [tval i]) @ qs"
      using 1(1) dot(1) by (metis length_Cons less_SucI lessI)
    with i dot show ?thesis
      by (intro exI[of _ "d # i # pre"] exI[of _ "tval i # qs"]) (auto intro: parts_dot)
  next
    case (idx l us)
    with 1 obtain k r vs where k: "us = k # r # vs" "ttyp k = tokNumber" "ttyp r = tokRBracket"
      "chain_loop (parts @ [''['' @ tval k @ '']'']) vs = Some (Inr (ps, rest))"
      by (auto simp: chain_loop_index pbind_eq_Some expect_ok_iff)
    then obtain pre qs where "vs = pre @ rest" "parts_of pre qs"
      "ps = (parts @ [''['' @ tval k @ '']'']) @ qs"
      using 1(1) idx(1) by (metis length_Cons less_SucI lessI)
    with k idx show ?thesis
      by (intro exI[of _ "l # k # r # pre"] exI[of _ "(''['' @ tval k @ '']'') # qs"])
         (simp_all add: parts_index[simplified])
  next
    case none
    with 1 show ?thesis by (auto simp: chain_loop_end intro: parts_nil)
  qed
qed

lemma argsLoop_sound:
  assumes "sound lib c self gOr" "argsLoop self n args ts = Some (Inr (vs, rest))" "args \<noteq> []"
  shows "ts = rest \<and> vs = args \<or>
    (\<exists>t pre es ws. ts = t # pre @ rest \<and> ttyp t = tokComma \<and> chain gOr tokComma pre es \<and>
       sems lib c es = Inr ws \<and> vs = args @ ws)"
  using assms(2,3)
proof (induction n arbitrary: args ts)
  case (Suc n)
  show ?case
  proof (cases "ttyp (peek ts) \<noteq> tokRParen \<and> ttyp (peek ts) \<noteq> tokEOF")
    case True
    with Suc.prems obtain t us v us' where t: "ts = t # us" "ttyp t = tokComma"
      and v: "self us = Some (Inr (v, us'))"
      and more: "argsLoop self n (args @ [v]) us' = Some (Inr (vs, rest))"
      by (auto simp: pbind_eq_Some expect_ok_iff)
    obtain pre e where e: "us = pre @ us'" "gOr pre e" "sem lib c e = Inr v"
      using soundE[OF assms(1) v] by blast
    from Suc.IH[OF more] consider "us' = rest" "vs = args @ [v]"
      | t' pre' es ws where "us' = t' # pre' @ rest" "ttyp t' = tokComma" "chain gOr tokComma pre' es"
          "sems lib c es = Inr ws" "vs = (args @ [v]) @ ws"
      by auto
    then show ?thesis
    proof cases
      case 1
      with t e show ?thesis
        by (intro disjI2 exI[of _ t] exI[of _ pre] exI[of _ "[e]"] exI[of _ "[v]"])
           (auto intro: chain_one)
    next
      case (2 t' pre' es ws)
      with t e show ?thesis
        by (intro disjI2 exI[of _ t] exI[of _ "pre @ t' # pre'"] exI[of _ "e # es"] exI[of _ "v # ws"])
           (auto intro: chain_more)
    qed
  qed (use Suc.prems in auto)
qed simp

lemma argsLoop_sound_all:
  assumes "sound lib c self gOr" "argsLoop self n [] ts = Some (Inr (vs, rest))"
  shows "ts = rest \<and> vs = [] \<or>
    (\<exists>pre es. ts = pre @ rest \<and> chain gOr tokComma pre es \<and> sems lib c es = Inr vs)"
proof (cases n)
  case (Suc m)
  show ?thesis
  proof (cases "ttyp (peek ts) \<noteq> tokRParen \<and> ttyp (peek ts) \<noteq> tokEOF")
    case True
    with assms(2) Suc obtain v us where v: "self ts = Some (Inr (v, us))"
      and more: "argsLoop self m [v] us = Some (Inr (vs, rest))"
      by (auto simp: pbind_eq_Some)
    obtain pre e where e: "ts = pre @ us" "gOr pre e" "sem lib c e = Inr v"
      using soundE[OF assms(1) v] by blast
    from argsLoop_sound[OF assms(1) more] consider "us = rest" "vs = [v]"
      | t pre' es ws where "us = t # pre' @ rest" "ttyp t = tokComma" "chain gOr tokComma pre' es"
          "sems lib c es = Inr ws" "vs = [v] @ ws"
      by auto
    then show ?thesis
    proof cases
      case 1
      with e show ?thesis
        by (intro disjI2 exI[of _ pre] exI[of _ "[e]"]) (auto intro: chain_one)
    next
      case (2 t pre' es ws)
      with e show ?thesis
        by (intro disjI2 exI[of _ "pre @ t # pre'"] exI[of _ "e # es"]) (auto intro: chain_more)
    qed
  qed (use assms(2) Suc in auto)
qed (use assms(2) in simp)

lemma parseIdentOrCall_sound:
  assumes "sound lib c self gOr" "ttyp t = tokIdent"
    and ok: "parseIdentOrCall lib c self n (t # us) = Some (Inr (v, rest))"
  shows "\<exists>pre e. t # us = pre @ rest \<and> gPrim pre e \<and> sem lib c e = Inr v"
proof (cases "ttyp (peek us) = tokLParen")
  case True
  then obtain l us1 where l: "us = l # us1" "ttyp l = tokLParen"
    using peek_not_EOF by blast
  with ok obtain args r where args: "argsLoop self n [] us1 = Some (Inr (args, r # rest))"
    and r: "ttyp r = tokRParen" and v: "callFunction lib c (tval t) args = Inr v"
    by (auto simp: parseIdentOrCall_def pbind_eq_Some expect_ok_iff)
  from argsLoop_sound_all[OF assms(1) args] consider "us1 = r # rest" "args = []"
    | pre es where "us1 = pre @ r # rest" "chain gOr tokComma pre es" "sems lib c es = Inr args"
    by auto
  then show ?thesis
  proof cases
    case 1
    with l r v assms(2) show ?thesis
      by (intro exI[of _ "[t, l, r]"] exI[of _ "ECall (tval t) []"]) (auto intro: prim_call0)
  next
    case (2 pre es)
    with l r v assms(2) show ?thesis
      by (intro exI[of _ "t # l # pre @ [r]"] exI[of _ "ECall (tval t) es"]) (auto intro: prim_call)
  qed
next
  case False
  with ok obtain parts where "chain_loop [tval t] us = Some (Inr (parts, rest))"
    and v: "v = (case Lookup lib c parts of Some v \<Rightarrow> v | None \<Rightarrow> VNil)"
    by (auto simp: parseIdentOrCall_def pbind_eq_Some)
  then obtain pre qs where "us = pre @ rest" "parts_of pre qs" "parts = [tval t] @ qs"
    using chain_loop_sound by blast
  with v assms(2) show ?thesis
    by (intro exI[of _ "t # pre"] exI[of _ "EPath (tval t # qs)"]) (auto intro: prim_path)
qed

lemma parsePrimary_sound:
  assumes "sound lib c self gOr"
  shows "sound lib c (parsePrimary lib c self n) gPrim"
proof (rule soundI)
  fix ts v rest
  assume ok: "parsePrimary lib c self n ts = Some (Inr (v, rest))"
  then obtain t us where ts: "ts = t # us"
    by (cases ts) (auto simp: parsePrimary_def peek_def)
  consider (paren) "ttyp t = tokLParen" | (ident) "ttyp t = tokIdent"
    | (atom) "ttyp t \<noteq> tokLParen" "ttyp t \<noteq> tokIdent" by blast
  then show "\<exists>pre e. ts = pre @ rest \<and> gPrim pre e \<and> sem lib c e = Inr v"
  proof cases
    case paren
    with ok ts obtain us' r where "self us = Some (Inr (v, us'))" "us' = r # rest" "ttyp r = tokRParen"
      by (auto simp: parsePrimary_def pbind_eq_Some expect_ok_iff)
    then obtain pre e where "us = pre @ r # rest" "gOr pre e" "sem lib c e = Inr v" "ttyp r = tokRParen"
      using soundE[OF assms] by metis
    with ts paren show ?thesis
      by (intro exI[of _ "t # pre @ [r]"] exI[of _ e]) (auto intro: prim_paren)
  next
    case ident
    with ok ts show ?thesis
      using parseIdentOrCall_sound[OF assms] by (simp add: parsePrimary_def)
  next
    case atom
    with ok ts have "us = rest"
      by (auto simp: parsePrimary_def split: tokType.splits option.splits)
    moreover have "\<exists>e. gPrim [t] e \<and> sem lib c e = Inr v"
      using atom ok ts by (cases "ttyp t") (auto simp: parsePrimary_def split: option.splits
        intro: prim_str prim_num prim_bool prim_null intro!: exI)
    ultimately show ?thesis
      using ts by (intro exI[of _ "[t]"]) simp
  qed
qed

lemma parseComparison_sound:
  assumes "sound lib c (parsePrimary lib c self n) gPrim"
  shows "sound lib c (parseComparison lib c self n) gCmp"
proof (rule soundI)
  fix ts v rest
  assume "parseComparison lib c self n ts = Some (Inr (v, rest))"
  then obtain left us where l: "parsePrimary lib c self n ts = Some (Inr (left, us))"
    and k: "(if ttyp (peek us) \<in> cmp_ops then
              pbind (parsePrimary lib c self n (consume us))
                (\<lambda>right ts''. plift (evalComparison lib left (ttyp (peek us)) right) ts'')
            else pok left us) = Some (Inr (v, rest))"
    by (auto simp: parseComparison_def pbind_eq_Some)
  obtain pre e where e: "ts = pre @ us" "gPrim pre e" "sem lib c e = Inr left"
    using soundE[OF assms l] by blast
  show "\<exists>pre e. ts = pre @ rest \<and> gCmp pre e \<and> sem lib c e = Inr v"
  proof (cases "ttyp (peek us) \<in> cmp_ops")
    case True
    then obtain t us1 where t: "us = t # us1" "ttyp t \<in> cmp_ops"
      by (cases us) (auto simp: cmp_ops_def)
    with k obtain right where r: "parsePrimary lib c self n us1 = Some (Inr (right, rest))"
      and v: "evalComparison lib left (ttyp t) right = Inr v"
      by (auto simp: pbind_eq_Some)
    obtain pre' f where "us1 = pre' @ rest" "gPrim pre' f" "sem lib c f = Inr right"
      using soundE[OF assms r] by blast
    with e t v show ?thesis
      by (intro exI[of _ "pre @ t # pre'"] exI[of _ "ECmp e (ttyp t) f"]) (auto intro: cmp_op)
  next
    case False
    with k e show ?thesis
      by (auto intro: cmp_prim)
  qed
qed

lemma parseNot_sound:
  assumes "sound lib c (parseComparison lib c self n) gCmp"
  shows "sound lib c (parseNot lib c self n) gNot"
proof (rule soundI)
  fix ts v rest
  assume "parseNot lib c self n ts = Some (Inr (v, rest))"
  then show "\<exists>pre e. ts = pre @ rest \<and> gNot pre e \<and> sem lib c e = Inr v"
  proof (induction ts arbitrary: v)
    case (Cons t ts)
    show ?case
    proof (cases "ttyp t = tokNOT")
      case True
      with Cons.prems obtain w where w: "parseNot lib c self n ts = Some (Inr (w, rest))"
        and v: "v = VBool (\<not> isTruthy w)"
        by (auto simp: pbind_eq_Some)
      obtain pre e where "ts = pre @ rest" "gNot pre e" "sem lib c e = Inr w"
        using Cons.IH[OF w] by blast
      with True v show ?thesis
        by (intro exI[of _ "t # pre"] exI[of _ "ENot e"]) (auto intro: not_not)
    next
      case False
      with Cons.prems show ?thesis
        using assms unfolding sound_def by (metis parseNot.simps(2) not_cmp)
    qed
  qed (use assms in \<open>fastforce simp: sound_def intro: not_cmp\<close>)
qed

context binary_loop
begin

lemma loop_sound:
  assumes "sound lib c p G" "loop p n left ts = Some (Inr (v, rest))" "sem lib c e0 = Inr left"
  shows "ts = rest \<and> v = left \<or>
    (\<exists>t pre es. ts = t # pre @ rest \<and> ttyp t = sep \<and> chain G sep pre es \<and> sem lib c (foldl con e0 es) = Inr v)"
  using assms(2,3)
proof (induction n arbitrary: left ts e0)
  case (Suc n)
  show ?case
  proof (cases "ttyp (peek ts) = sep")
    case True
    then obtain t us where t: "ts = t # us" "ttyp t = sep"
      using peek_not_EOF[OF _ sep_not_EOF] by blast
    with Suc.prems obtain w us' where w: "p us = Some (Inr (w, us'))"
      and more: "loop p n (VBool (f (isTruthy left) (isTruthy w))) us' = Some (Inr (v, rest))"
      by (auto simp: loop_Suc pbind_eq_Some)
    obtain pre e where e: "us = pre @ us'" "G pre e" "sem lib c e = Inr w"
      using soundE[OF assms(1) w] by blast
    then have val: "sem lib c (con e0 e) = Inr (VBool (f (isTruthy left) (isTruthy w)))"
      using Suc.prems(2) by (simp add: sem_con)
    from Suc.IH[OF more val] consider "us' = rest" "v = VBool (f (isTruthy left) (isTruthy w))"
      | t' pre' es where "us' = t' # pre' @ rest" "ttyp t' = sep" "chain G sep pre' es"
          "sem lib c (foldl con (con e0 e) es) = Inr v"
      by auto
    then show ?thesis
    proof cases
      case 1
      with t e val show ?thesis
        by (intro disjI2 exI[of _ t] exI[of _ pre] exI[of _ "[e]"]) (auto intro: chain_one)
    next
      case (2 t' pre' es)
      with t e show ?thesis
        by (intro disjI2 exI[of _ t] exI[of _ "pre @ t' # pre'"] exI[of _ "e # es"])
           (auto intro: chain_more)
    qed
  qed (use Suc.prems in \<open>auto simp: loop_Suc\<close>)
qed (simp add: loop_0)

lemma bind_loop_sound:
  assumes "sound lib c p G" "\<And>ts e es. chain G sep ts (e # es) \<Longrightarrow> H ts (foldl con e es)"
  shows "sound lib c (\<lambda>ts. pbind (p ts) (loop p n)) H"
proof (rule soundI)
  fix ts v rest
  assume "pbind (p ts) (loop p n) = Some (Inr (v, rest))"
  then obtain w us where w: "p ts = Some (Inr (w, us))" and l: "loop p n w us = Some (Inr (v, rest))"
    by (auto simp: pbind_eq_Some)
  obtain pre e where e: "ts = pre @ us" "G pre e" "sem lib c e = Inr w"
    using soundE[OF assms(1) w] by blast
  from loop_sound[OF assms(1) l e(3)] show "\<exists>pre e. ts = pre @ rest \<and> H pre e \<and> sem lib c e = Inr v"
  proof (elim disjE exE conjE, goal_cases)
    case 1
    with e assms(2)[of pre e "[]"] show ?thesis by (auto intro: chain_one)
  next
    case (2 t pre' es)
    with e assms(2)[of "pre @ t # pre'" e es] show ?thesis
      by (intro exI[of _ "pre @ t # pre'"] exI[of _ "foldl con e es"]) (auto intro: chain_more)
  qed
qed

end

lemma parseExpr_sound: "sound lib c (parseExpr lib c n) gOr"
proof (induction n)
  case (Suc n)
  then have "sound lib c (parseNot lib c (parseExpr lib c n) (Suc n)) gNot"
    by (intro parseNot_sound parseComparison_sound parsePrimary_sound)
  then have "sound lib c (parseAnd lib c (parseExpr lib c n) (Suc n)) gAnd"
    unfolding parseAnd_def by (rule ands.bind_loop_sound) (rule and_chain)
  then show ?case
    unfolding parseExpr_Suc parseOr_def by (rule ors.bind_loop_sound) (rule or_chain)
qed (simp add: sound_def)

section \<open>Completeness\<close>

text \<open>
  \<open>complete lib c k p G F\<close>: on fewer than \<open>k\<close> tokens, \<open>p\<close> reads a derivation of \<open>G\<close> and returns
  its meaning, when the next token is not one of \<open>F\<close>.
\<close>

definition complete ::
  "golib \<Rightarrow> EvalContext \<Rightarrow> nat \<Rightarrow> (token list \<Rightarrow> gvalue pres) \<Rightarrow> (token list \<Rightarrow> expr \<Rightarrow> bool) \<Rightarrow>
   tokType set \<Rightarrow> bool" where
  "complete lib c k p G F =
     (\<forall>pre e v rest. G pre e \<longrightarrow> sem lib c e = Inr v \<longrightarrow> ttyp (peek rest) \<notin> F \<longrightarrow>
        length (pre @ rest) < k \<longrightarrow> p (pre @ rest) = pok v rest)"

lemma completeI:
  "(\<And>pre e v rest. G pre e \<Longrightarrow> sem lib c e = Inr v \<Longrightarrow> ttyp (peek rest) \<notin> F \<Longrightarrow> length (pre @ rest) < k \<Longrightarrow>
      p (pre @ rest) = pok v rest) \<Longrightarrow> complete lib c k p G F"
  by (simp add: complete_def)

lemma completeD:
  "complete lib c k p G F \<Longrightarrow> G pre e \<Longrightarrow> sem lib c e = Inr v \<Longrightarrow> ttyp (peek rest) \<notin> F \<Longrightarrow>
   length (pre @ rest) < k \<Longrightarrow> p (pre @ rest) = pok v rest"
  by (simp add: complete_def)

definition path_ops :: "tokType set" where
  "path_ops = {tokDot, tokLBracket, tokLParen}"

definition prim_starts :: "tokType set" where
  "prim_starts = {tokLParen, tokString, tokNumber, tokBool, tokNull, tokIdent}"

text \<open>The first token of a derivation.\<close>

definition starts :: "(token list \<Rightarrow> 'e \<Rightarrow> bool) \<Rightarrow> tokType set \<Rightarrow> bool" where
  "starts G S = (\<forall>ts e. G ts e \<longrightarrow> (\<exists>t us. ts = t # us \<and> ttyp t \<in> S))"

lemma starts_chain: "starts G S \<Longrightarrow> starts (chain G sep) S"
  unfolding starts_def by (fastforce elim: chain.cases)

lemma gPrim_starts: "starts gPrim prim_starts"
  unfolding starts_def by (auto elim!: gPrim.cases simp: prim_starts_def)

lemma startsI: "(\<And>ts e. G ts e \<Longrightarrow> \<exists>t us. ts = t # us \<and> ttyp t \<in> S) \<Longrightarrow> starts G S"
  by (simp add: starts_def)

lemma startsD: "starts G S \<Longrightarrow> G ts e \<Longrightarrow> \<exists>t us. ts = t # us \<and> ttyp t \<in> S"
  unfolding starts_def by blast

lemma gCmp_starts: "starts gCmp prim_starts"
  by (rule startsI, erule gCmp_cases) (auto dest!: startsD[OF gPrim_starts])

lemma gNot_starts: "starts gNot (insert tokNOT prim_starts)"
  by (rule startsI, erule gNot_cases) (auto dest!: startsD[OF gCmp_starts])

lemma gAnd_starts: "starts gAnd (insert tokNOT prim_starts)"
  by (rule startsI, erule gAnd_cases) (auto dest!: startsD[OF starts_chain[OF gNot_starts]])

lemma gOr_starts: "starts gOr (insert tokNOT prim_starts)"
  by (rule startsI, erule gOr_cases) (auto dest!: startsD[OF starts_chain[OF gAnd_starts]])

lemma chain_loop_complete:
  "parts_of pre qs \<Longrightarrow> ttyp (peek rest) \<notin> path_ops \<Longrightarrow> chain_loop parts (pre @ rest) = pok (parts @ qs) rest"
  by (induction arbitrary: parts rule: parts_of.induct)
     (simp_all add: chain_loop_dot chain_loop_index chain_loop_end expect_ok path_ops_def)

lemma argsLoop_complete:
  assumes C: "complete lib c k self gOr F" and F: "tokComma \<notin> F" "tokRParen \<notin> F"
    and r: "ttyp r = tokRParen" and "chain gOr tokComma us es"
  shows "sems lib c es = Inr ws \<Longrightarrow> ttyp t = tokComma \<Longrightarrow> args \<noteq> [] \<Longrightarrow>
    length (t # us @ r # rest) < k \<Longrightarrow> length (t # us @ r # rest) < n \<Longrightarrow>
    argsLoop self n args (t # us @ r # rest) = pok (args @ ws) (r # rest)"
  using assms(5)
proof (induction us es arbitrary: t args ws n rule: chain.induct)
  case (chain_one us e)
  then obtain v m where "sem lib c e = Inr v" "ws = [v]" "n = Suc (Suc m)"
    by (auto simp: rbind_eq_Inr numeral_eq_Suc dest!: less_imp_Suc_add)
  moreover from this have "self (us @ r # rest) = pok v (r # rest)"
    using chain_one F r by (intro completeD[OF C]) auto
  ultimately show ?case
    using chain_one r by (simp add: expect_ok)
next
  case (chain_more ts e t' us es)
  then obtain v m ws' where v: "sem lib c e = Inr v" "sems lib c es = Inr ws'" "ws = v # ws'" "n = Suc m"
    by (auto simp: rbind_eq_Inr dest!: less_imp_Suc_add)
  have "self (ts @ t' # us @ r # rest) = pok v (t' # us @ r # rest)"
    using chain_more F r v by (intro completeD[OF C]) auto
  moreover have "argsLoop self m (args @ [v]) (t' # us @ r # rest) = pok ((args @ [v]) @ ws') (r # rest)"
    using chain_more v by (intro chain_more.IH) auto
  ultimately show ?case
    using chain_more v by (simp add: expect_ok)
qed

lemma argsLoop_complete_all:
  assumes C: "complete lib c k self gOr F" and F: "tokComma \<notin> F" "tokRParen \<notin> F"
    and r: "ttyp r = tokRParen" and ch: "chain gOr tokComma us es"
    and ws: "sems lib c es = Inr ws" and len: "length (us @ r # rest) < k" "length (us @ r # rest) < n"
  shows "argsLoop self n [] (us @ r # rest) = pok ws (r # rest)"
proof -
  have u: "ttyp (peek (us @ r # rest)) \<noteq> tokRParen" "ttyp (peek (us @ r # rest)) \<noteq> tokEOF"
    using startsD[OF starts_chain[OF gOr_starts] ch] by (auto simp: prim_starts_def)
  from ch show ?thesis
  proof cases
    case (chain_one e)
    with ws len obtain v m where v: "sem lib c e = Inr v" "ws = [v]" "n = Suc (Suc m)"
      by (auto simp: rbind_eq_Inr dest!: less_imp_Suc_add)
    moreover have "self (us @ r # rest) = pok v (r # rest)"
      using chain_one v F r len by (intro completeD[OF C]) auto
    ultimately show ?thesis
      using u r by simp
  next
    case (chain_more ts e t us2 es2)
    with ws len obtain v ws' m where v: "sem lib c e = Inr v" "sems lib c es2 = Inr ws'" "ws = v # ws'" "n = Suc m"
      by (auto simp: rbind_eq_Inr dest!: less_imp_Suc_add)
    have "self (ts @ t # us2 @ r # rest) = pok v (t # us2 @ r # rest)"
      using chain_more v F r len by (intro completeD[OF C]) auto
    moreover have "argsLoop self m [v] (t # us2 @ r # rest) = pok ([v] @ ws') (r # rest)"
      using chain_more v len startsD[OF gOr_starts, of ts e] by (intro argsLoop_complete[OF C F r]) auto
    ultimately show ?thesis
      using u v chain_more by simp
  qed
qed

lemma parsePrimary_complete:
  assumes C: "complete lib c k self gOr F" and F: "tokComma \<notin> F" "tokRParen \<notin> F" and n: "k \<le> n"
  shows "complete lib c (Suc k) (parsePrimary lib c self n) gPrim path_ops"
proof (rule completeI)
  fix pre e v rest
  assume G: "gPrim pre e" and v: "sem lib c e = Inr v" and fol: "ttyp (peek rest) \<notin> path_ops"
    and len: "length (pre @ rest) < Suc k"
  from G show "parsePrimary lib c self n (pre @ rest) = pok v rest"
  proof cases
    case (prim_paren l ts r)
    then have "self (ts @ r # rest) = pok v (r # rest)"
      using v len F by (intro completeD[OF C]) auto
    with prim_paren show ?thesis
      by (simp add: parsePrimary_def expect_ok)
  next
    case (prim_path t ts ps)
    have "ttyp (peek (ts @ rest)) \<noteq> tokLParen"
      using prim_path(4) fol by cases (auto simp: path_ops_def)
    with prim_path v show ?thesis
      using chain_loop_complete[OF prim_path(4) fol]
      by (simp add: parsePrimary_def parseIdentOrCall_def)
  next
    case (prim_call0 t l r)
    then show ?thesis
      using v len n
      by (cases n) (auto simp: parsePrimary_def parseIdentOrCall_def expect_ok plift_def)
  next
    case (prim_call t l ts es r)
    then obtain ws where ws: "sems lib c es = Inr ws" "callFunction lib c (tval t) ws = Inr v"
      using v by (auto simp: rbind_eq_Inr)
    then have "argsLoop self n [] (ts @ r # rest) = pok ws (r # rest)"
      using prim_call len n by (intro argsLoop_complete_all[OF C F]) auto
    with prim_call ws show ?thesis
      by (simp add: parsePrimary_def parseIdentOrCall_def expect_ok plift_def)
  qed (use v in \<open>auto simp: parsePrimary_def split: option.splits\<close>)
qed

lemma parseComparison_complete:
  assumes C: "complete lib c k (parsePrimary lib c self n) gPrim path_ops"
  shows "complete lib c k (parseComparison lib c self n) gCmp (path_ops \<union> cmp_ops)"
proof (rule completeI)
  fix pre e v rest
  assume G: "gCmp pre e" and v: "sem lib c e = Inr v" and fol: "ttyp (peek rest) \<notin> path_ops \<union> cmp_ops"
    and len: "length (pre @ rest) < k"
  from G show "parseComparison lib c self n (pre @ rest) = pok v rest"
  proof cases
    case cmp_prim
    then have "parsePrimary lib c self n (pre @ rest) = pok v rest"
      using v fol len by (intro completeD[OF C]) auto
    then show ?thesis
      using fol by (simp add: parseComparison_def)
  next
    case (cmp_op ts e1 t us e2)
    note 2 = this
    then obtain x y where x: "sem lib c e1 = Inr x" "sem lib c e2 = Inr y" "evalComparison lib x (ttyp t) y = Inr v"
      using v by (auto simp: rbind_eq_Inr)
    have "parsePrimary lib c self n (ts @ t # us @ rest) = pok x (t # us @ rest)"
      using 2 x len by (intro completeD[OF C]) (auto simp: cmp_ops_def path_ops_def)
    moreover have "parsePrimary lib c self n (us @ rest) = pok y rest"
      using 2 x fol len by (intro completeD[OF C]) auto
    ultimately show ?thesis
      using 2 x by (simp add: parseComparison_def plift_def)
  qed
qed

lemma parseNot_complete:
  assumes C: "complete lib c k (parseComparison lib c self n) gCmp F"
  shows "complete lib c k (parseNot lib c self n) gNot F"
proof (rule completeI)
  fix pre e v rest
  assume "gNot pre e" "sem lib c e = Inr v" "ttyp (peek rest) \<notin> F" "length (pre @ rest) < k"
  then show "parseNot lib c self n (pre @ rest) = pok v rest"
  proof (induction pre arbitrary: e v)
    case Nil
    then show ?case
      using startsD[OF gNot_starts] by blast
  next
    case (Cons t ts)
    from Cons.prems(1) show ?case
    proof cases
      case (not_not a)
      note 1 = this
      with Cons.prems obtain w where w: "sem lib c a = Inr w" "v = VBool (\<not> isTruthy w)"
        by (auto simp: rbind_eq_Inr)
      with 1 Cons have "parseNot lib c self n (ts @ rest) = pok w rest"
        by auto
      with 1 w show ?thesis by simp
    next
      case not_cmp
      note 2 = this
      then have "ttyp t \<noteq> tokNOT"
        using startsD[OF gCmp_starts] by (fastforce simp: prim_starts_def)
      moreover have "parseComparison lib c self n ((t # ts) @ rest) = pok v rest"
        using Cons.prems 2 by (intro completeD[OF C]) auto
      ultimately show ?thesis by simp
    qed
  qed
qed

context binary_loop
begin

lemma sem_foldl_prefix: "sem lib c (foldl con e es) = Inr v \<Longrightarrow> \<exists>w. sem lib c e = Inr w"
  by (induction es arbitrary: e) (fastforce simp: sem_con rbind_eq_Inr)+

lemma loop_complete:
  assumes C: "complete lib c k p G F" and F: "sep \<notin> F" and fol: "ttyp (peek rest) \<notin> insert sep F"
    and "chain G sep us es"
  shows "sem lib c e0 = Inr left \<Longrightarrow> sem lib c (foldl con e0 es) = Inr v \<Longrightarrow> ttyp t = sep \<Longrightarrow>
    length (t # us @ rest) < k \<Longrightarrow> length (t # us @ rest) < n \<Longrightarrow> loop p n left (t # us @ rest) = pok v rest"
  using assms(4)
proof (induction us es arbitrary: t e0 left n rule: chain.induct)
  case (chain_one us e)
  then obtain w m where w: "sem lib c e = Inr w" "v = VBool (f (isTruthy left) (isTruthy w))" "n = Suc (Suc m)"
    by (auto simp: sem_con rbind_eq_Inr dest!: less_imp_Suc_add)
  moreover from this have "p (us @ rest) = pok w rest"
    using chain_one fol by (intro completeD[OF C]) auto
  ultimately show ?case
    using chain_one fol by (simp add: loop_Suc)
next
  case (chain_more ts e t' us es)
  then obtain w m where w: "sem lib c e = Inr w" "n = Suc m"
      "sem lib c (con e0 e) = Inr (VBool (f (isTruthy left) (isTruthy w)))"
    using sem_foldl_prefix[of lib c "con e0 e" es v]
    by (auto simp: sem_con rbind_eq_Inr dest!: less_imp_Suc_add)
  have "p (ts @ t' # us @ rest) = pok w (t' # us @ rest)"
    using chain_more w F by (intro completeD[OF C]) auto
  moreover have "loop p m (VBool (f (isTruthy left) (isTruthy w))) (t' # us @ rest) = pok v rest"
    using chain_more w by (intro chain_more.IH[OF w(3)]) auto
  ultimately show ?case
    using chain_more w by (simp add: loop_Suc)
qed

lemma bind_loop_complete:
  assumes C: "complete lib c k p G F" and F: "sep \<notin> F" and S: "starts G S" and n: "k \<le> n"
    and H: "\<And>ts e. H ts e \<Longrightarrow> \<exists>e0 es. chain G sep ts (e0 # es) \<and> e = foldl con e0 es"
  shows "complete lib c k (\<lambda>ts. pbind (p ts) (loop p n)) H (insert sep F)"
proof (rule completeI)
  fix pre e v rest
  assume "H pre e" and v: "sem lib c e = Inr v" and fol: "ttyp (peek rest) \<notin> insert sep F"
    and len: "length (pre @ rest) < k"
  then obtain e0 es where ch: "chain G sep pre (e0 # es)" and e: "e = foldl con e0 es"
    using H by blast
  obtain w where w: "sem lib c e0 = Inr w"
    using sem_foldl_prefix v e by blast
  from ch show "pbind (p (pre @ rest)) (loop p n) = pok v rest"
  proof cases
    case chain_one
    then have "p (pre @ rest) = pok v rest" "n = Suc (n - 1)"
      using e v fol len n by (auto intro!: completeD[OF C])
    moreover have "loop p (Suc (n - 1)) v rest = pok v rest"
      using fol by (simp add: loop_Suc)
    ultimately show ?thesis by simp
  next
    case (chain_more ts t us)
    then have "p (ts @ t # us @ rest) = pok w (t # us @ rest)"
      using w F len by (intro completeD[OF C]) auto
    moreover have "loop p n w (t # us @ rest) = pok v rest"
      using chain_more v e len n by (intro loop_complete[OF C F fol _ w]) auto
    ultimately show ?thesis
      using chain_more by simp
  qed
qed

end

definition or_follow :: "tokType set" where
  "or_follow = insert tokOR (insert tokAND (path_ops \<union> cmp_ops))"

lemma parseExpr_complete: "complete lib c n (parseExpr lib c n) gOr or_follow"
proof (induction n)
  case (Suc n)
  note defs = path_ops_def cmp_ops_def or_follow_def
  have "complete lib c (Suc n) (parseNot lib c (parseExpr lib c n) (Suc n)) gNot (path_ops \<union> cmp_ops)"
    by (intro parseNot_complete parseComparison_complete parsePrimary_complete[OF Suc.IH]) (auto simp: defs)
  then have "complete lib c (Suc n) (parseAnd lib c (parseExpr lib c n) (Suc n)) gAnd
      (insert tokAND (path_ops \<union> cmp_ops))"
    unfolding parseAnd_def
    by (rule ands.bind_loop_complete[OF _ _ gNot_starts]) (auto simp: defs elim!: gAnd_cases)
  then show ?case
    unfolding parseExpr_Suc parseOr_def or_follow_def
    by (rule ors.bind_loop_complete[OF _ _ gAnd_starts]) (auto simp: defs elim!: gOr_cases)
qed (simp add: complete_def)

section \<open>The evaluator\<close>

lemma chain_no_EOF:
  "chain (\<lambda>ts e. P ts e \<and> (\<forall>t \<in> set ts. ttyp t \<noteq> tokEOF)) sep ts es \<Longrightarrow> sep \<noteq> tokEOF \<Longrightarrow> t \<in> set ts \<Longrightarrow>
   ttyp t \<noteq> tokEOF"
  by (induction rule: chain.induct) auto

lemma parts_no_EOF: "parts_of ts ps \<Longrightarrow> t \<in> set ts \<Longrightarrow> ttyp t \<noteq> tokEOF"
  by (induction rule: parts_of.induct) auto

lemma grammar_no_EOF:
  "gOr ts e \<Longrightarrow> \<forall>t \<in> set ts. ttyp t \<noteq> tokEOF"
  "gAnd ts e \<Longrightarrow> \<forall>t \<in> set ts. ttyp t \<noteq> tokEOF"
  "gNot ts e \<Longrightarrow> \<forall>t \<in> set ts. ttyp t \<noteq> tokEOF"
  "gCmp ts e \<Longrightarrow> \<forall>t \<in> set ts. ttyp t \<noteq> tokEOF"
  "gPrim ts e \<Longrightarrow> \<forall>t \<in> set ts. ttyp t \<noteq> tokEOF"
  by (induction rule: gOr_gAnd_gNot_gCmp_gPrim.inducts)
     (auto simp: cmp_ops_def dest: chain_no_EOF parts_no_EOF)

lemma Eval_total: "\<exists>r. Eval lib c s = Some r"
proof -
  have "ends (length (tokenize s) - 1) (parseExpr lib c (Suc (length (tokenize s))) (tokenize s))"
    by (rule ends_halts[OF halts_parseExpr]) simp
  then show ?thesis
    by (auto simp: Eval_def ends_def Let_def split: option.splits sum.splits)
qed

lemma Eval_sound:
  assumes "Eval lib c s = Some (Inr v)"
  shows "\<exists>ts e. tokenize s = ts @ [Token tokEOF []] \<and> gOr ts e \<and> sem lib c e = Inr v"
proof -
  obtain ts where ts: "tokenize s = ts @ [Token tokEOF []]" "\<forall>t \<in> set ts. ttyp t \<noteq> tokEOF"
    using tokenize_ends_in_EOF by blast
  obtain rest where p: "parseExpr lib c (Suc (length (tokenize s))) (tokenize s) = Some (Inr (v, rest))"
    and rest: "rest = [] \<or> ttyp (hd rest) = tokEOF"
    using assms by (auto simp: Eval_def Let_def simp del: parseExpr.simps split: option.splits sum.splits if_splits)
  obtain pre e where e: "ts @ [Token tokEOF []] = pre @ rest" "gOr pre e" "sem lib c e = Inr v"
    using soundE[OF parseExpr_sound p] ts(1) by metis
  have "pre = ts"
  proof (cases rest rule: rev_cases)
    case Nil
    with e grammar_no_EOF(1)[OF e(2)] show ?thesis by (auto dest!: arg_cong[of _ _ set])
  next
    case (snoc us t)
    with e(1) have us: "ts = pre @ us" by simp
    with ts(2) rest snoc have "us = []" by (cases us) auto
    with us show ?thesis by simp
  qed
  with ts e show ?thesis by blast
qed

lemma Eval_complete:
  assumes "tokenize s = ts @ [Token tokEOF []]" "gOr ts e" "sem lib c e = Inr v"
  shows "Eval lib c s = Some (Inr v)"
proof -
  have "parseExpr lib c (Suc (length (tokenize s))) (ts @ [Token tokEOF []]) = pok v [Token tokEOF []]"
    by (rule completeD[OF parseExpr_complete assms(2,3)])
       (simp_all add: assms(1) or_follow_def path_ops_def cmp_ops_def)
  then show ?thesis
    using assms(1) by (simp add: Eval_def pok_def del: parseExpr.simps)
qed

text \<open>
  C2. The evaluator implements the grammar and its meaning: on every input it returns, and it
  returns the value \<open>v\<close> exactly when the tokens of the input have a derivation, with the source's
  precedence (or, and, not, comparison, primary), whose syntax tree means \<open>v\<close>.
\<close>

theorem Eval_implements_grammar:
  "(\<exists>r. Eval lib c s = Some r) \<and>
   (Eval lib c s = Some (Inr v) \<longleftrightarrow>
      (\<exists>ts e. tokenize s = ts @ [Token tokEOF []] \<and> gOr ts e \<and> sem lib c e = Inr v))"
  using Eval_total Eval_sound Eval_complete by blast

end
