(* ===== verification/Interpolation.thy ===== *)
theory Interpolation
  imports Expr_Correct
begin

text \<open>
  \<open>Interpolate\<close> and \<open>EvalBool\<close> of \<open>internal/runner/eval.go\<close> against a template: literal texts with
  expressions between them.
\<close>

section \<open>Templates\<close>

text \<open>A template is a first literal and a list of expressions, each with the literal behind it.\<close>

type_synonym template = "string \<times> (string \<times> string) list"

definition template_text :: "template \<Rightarrow> string" where
  "template_text t = fst t @ concat (map (\<lambda>(e, l). ''${{'' @ e @ ''}}'' @ l) (snd t))"

definition template_value :: "golib \<Rightarrow> EvalContext \<Rightarrow> template \<Rightarrow> string" where
  "template_value lib c t = fst t @ concat (map (\<lambda>(e, l). interpolate_one lib c e @ l) (snd t))"

definition template_ok :: "template \<Rightarrow> bool" where
  "template_ok t =
     (\<not> Contains (fst t) ''${{'' \<and>
      list_all (\<lambda>(e, l). \<not> Contains (e @ ''}'') ''}}'' \<and> CHR 0x0A \<notin> set e \<and> \<not> Contains l ''${{'') (snd t))"

lemma Contains_Cons:
  "sub \<noteq> [] \<Longrightarrow> Contains (ch # s) sub \<longleftrightarrow> HasPrefix (ch # s) sub \<or> Contains s sub"
  by (simp add: Contains_def)

lemma find_close_first:
  "\<not> Contains (e @ ''}'') ''}}'' \<Longrightarrow> CHR 0x0A \<notin> set e \<Longrightarrow> find_close (e @ ''}}'' @ rest) = Some (e, rest)"
proof (induction e)
  case (Cons ch e)
  then have "\<not> HasPrefix (ch # e @ ''}}'' @ rest) ''}}''"
    by (cases e) (auto simp: Contains_Cons HasPrefix_iff)
  with Cons show ?case
    by (auto simp: Contains_Cons)
qed (simp add: HasPrefix_iff)

lemma replace_exprs_open:
  "find_close (e @ ''}}'' @ rest) = Some (e, rest) \<Longrightarrow>
   replace_exprs f (''${{'' @ e @ ''}}'' @ rest) = f e @ replace_exprs f rest"
  by (simp add: HasPrefix_iff)

lemma replace_exprs_literal:
  assumes "\<not> Contains l ''${{''" "rest = [] \<or> HasPrefix rest ''${{''"
  shows "replace_exprs f (l @ rest) = l @ replace_exprs f rest"
  using assms(1)
proof (induction l)
  case (Cons ch l)
  have "\<not> HasPrefix (ch # l @ rest) ''${{''"
    using Cons.prems assms(2)
    by (cases l; cases "tl l") (auto simp: Contains_Cons HasPrefix_iff)
  with Cons show ?case
    by (auto simp: Contains_Cons)
qed simp

text \<open>
  C26. \<open>Interpolate\<close> replaces each expression of a template by the text of its value (by nothing
  when it is in error) and leaves every literal as it is, from left to right and without
  looking at replaced text again.
\<close>

theorem Interpolate_template:
  assumes "template_ok t"
  shows "Interpolate lib c (template_text t) = template_value lib c t"
proof -
  have "replace_exprs f (l @ concat (map (\<lambda>(e, l). ''${{'' @ e @ ''}}'' @ l) ps)) =
      l @ concat (map (\<lambda>(e, l). f e @ l) ps)"
    if "template_ok (l, ps)" for f l ps
    using that
  proof (induction ps arbitrary: l)
    case Nil
    then show ?case
      using replace_exprs_literal[of l "[]" f] by (simp add: template_ok_def)
  next
    case (Cons p ps)
    obtain e m where p: "p = (e, m)" by (cases p)
    let ?rest = "m @ concat (map (\<lambda>(e, l). ''${{'' @ e @ ''}}'' @ l) ps)"
    have "replace_exprs f (''${{'' @ e @ ''}}'' @ ?rest) = f e @ replace_exprs f ?rest"
      using Cons.prems p by (intro replace_exprs_open find_close_first) (auto simp: template_ok_def)
    moreover have "replace_exprs f (l @ ''${{'' @ e @ ''}}'' @ ?rest) =
        l @ replace_exprs f (''${{'' @ e @ ''}}'' @ ?rest)"
      using Cons.prems by (intro replace_exprs_literal) (auto simp: template_ok_def HasPrefix_iff)
    moreover have "replace_exprs f ?rest = m @ concat (map (\<lambda>(e, l). f e @ l) ps)"
      using Cons p by (auto simp: template_ok_def)
    ultimately show ?case
      using p by simp
  qed
  from this[of "fst t" "snd t"] assms show ?thesis
    by (simp add: Interpolate_def template_text_def template_value_def)
qed

text \<open>A concrete instance of the library and of the context, for the examples.\<close>

definition ascii_lib :: golib where
  "ascii_lib =
     \<lparr>uni_lower = (\<lambda>s. s), uni_upper = (\<lambda>s. s), uni_fold = (\<lambda>s t. s = t),
      json_Marshal = (\<lambda>_. None), json_Unmarshal = (\<lambda>_. None)\<rparr>"

definition sample_ctx :: EvalContext where
  "sample_ctx =
     \<lparr>ec_Github = [(''ref'', VString ''refs/heads/main'')], ec_Env = [(''CI'', ''true'')], ec_Job = [],
      ec_Steps = [], ec_Runner = [], ec_Secrets = [], ec_Inputs = [],
      ec_JobStatus = JobStatusSuccess, ec_Cancelled = False\<rparr>"

definition sample_template :: template where
  "sample_template =
     (''ref='', [('' github.ref '', '' ok=''), (''1 < 2 && success()'', '';''), ('' nosuch() '', ''$'')])"

theorem Interpolate_template_witness:
  "template_ok sample_template \<and>
   Interpolate ascii_lib sample_ctx (template_text sample_template) = ''ref=refs/heads/main ok=true;$''"
proof -
  have "template_ok sample_template"
    by code_simp
  moreover have "template_value ascii_lib sample_ctx sample_template = ''ref=refs/heads/main ok=true;$''"
    by code_simp
  ultimately show ?thesis
    using Interpolate_template by metis
qed

end
