(* ===== verification/Step_Env.thy ===== *)
theory Step_Env
  imports Go_Prelude
begin

text \<open>
  The files through which steps pass environment variables, outputs and paths to later steps
  (\<open>internal/runner/stepenv.go\<close>). A file system maps the paths of files to their contents; a path that
  is not in it cannot be opened. The offsets are natural numbers: a file is shorter than \<open>2 ^ 63\<close> bytes.
\<close>

section \<open>Model\<close>

type_synonym file_system = "string gomap"

record EnvFiles =
  ef_dir :: string
  ef_envOff :: nat
  ef_outputOff :: nat
  ef_pathOff :: nat

datatype env_error =
    CreateFile string
  | ReadFile string

abbreviation newline :: char where
  "newline \<equiv> CHR 0x0A"

text \<open>
  \<open>NewEnvFiles\<close>: \<open>os.OpenFile\<close> with \<open>O_CREATE\<close> makes an empty file where there is none and
  leaves an existing one as it is. \<open>creatable\<close> says for which paths the call succeeds.
\<close>

fun touch_all :: "(string \<Rightarrow> bool) \<Rightarrow> string \<Rightarrow> string list \<Rightarrow> file_system \<Rightarrow> env_error + file_system" where
  "touch_all creatable dir [] fs = Inr fs"
| "touch_all creatable dir (name # names) fs =
     (let path = dir @ ''/'' @ name
      in if creatable path
         then touch_all creatable dir names (case map_of fs path of None \<Rightarrow> mput path [] fs | Some _ \<Rightarrow> fs)
         else Inl (CreateFile name))"

definition NewEnvFiles :: "(string \<Rightarrow> bool) \<Rightarrow> string \<Rightarrow> file_system \<Rightarrow> env_error + EnvFiles \<times> file_system" where
  "NewEnvFiles creatable dir fs =
     (case touch_all creatable dir [''_env'', ''_output'', ''_path'', ''_summary''] fs of
        Inl e \<Rightarrow> Inl e
      | Inr fs' \<Rightarrow> Inr (\<lparr>ef_dir = dir, ef_envOff = 0, ef_outputOff = 0, ef_pathOff = 0\<rparr>, fs'))"

definition readNewBytes :: "file_system \<Rightarrow> string \<Rightarrow> nat \<Rightarrow> (string \<times> nat) option" where
  "readNewBytes fs path offset =
     (case map_of fs path of
        None \<Rightarrow> None
      | Some contents \<Rightarrow> let data = drop offset contents in Some (data, offset + length data))"

definition parsePathFile :: "string \<Rightarrow> string list" where
  "parsePathFile data = (if data = [] then [] else filter (\<lambda>line. line \<noteq> []) (Split data newline))"

text \<open>The lines of a heredoc up to its delimiter, or to the end of the data without one.\<close>

fun heredoc :: "string \<Rightarrow> string list \<Rightarrow> string \<times> string list" where
  "heredoc delimiter [] = ([], [])"
| "heredoc delimiter (line # lines) =
     (if line = delimiter then ([], lines)
      else (let (value, rest) = heredoc delimiter lines in (line @ [newline] @ value, rest)))"

lemma heredoc_length: "length (snd (heredoc d ls)) \<le> length ls"
  by (induction ls) (auto simp: Let_def split: prod.splits)

definition simple_entry :: "string \<Rightarrow> string gomap \<Rightarrow> string gomap" where
  "simple_entry line result =
     (case Index line ''='' of
        Some idx \<Rightarrow>
          (let key = take idx line
           in if key \<noteq> [] then mput key (drop (idx + 1) line) result else result)
      | None \<Rightarrow> result)"

function parse_lines :: "string list \<Rightarrow> string gomap \<Rightarrow> string gomap" where
  "parse_lines [] result = result"
| "parse_lines (line # lines) result =
     (if line = [] then parse_lines lines result
      else
        (case Index line ''<<'' of
           Some idx \<Rightarrow>
             (let key = take idx line; delimiter = drop (idx + 2) line
              in if key \<noteq> [] \<and> delimiter \<noteq> []
                 then parse_lines (snd (heredoc delimiter lines))
                        (mput key (fst (heredoc delimiter lines)) result)
                 else parse_lines lines (simple_entry line result))
         | None \<Rightarrow> parse_lines lines (simple_entry line result)))"
  by pat_completeness auto
termination
  by (relation "measure (\<lambda>(lines, _). length lines)") (auto simp: less_Suc_eq_le heredoc_length)

definition parseEnvFile :: "string \<Rightarrow> string gomap" where
  "parseEnvFile data = (if data = [] then [] else parse_lines (Split data newline) [])"

text \<open>
  \<open>ReadDelta\<close>. \<open>parseEnvFile\<close> returns no error in the source, so its error branches are not
  reached; the offsets change only when all three files could be read.
\<close>

type_synonym delta = "string gomap \<times> string gomap \<times> string list"

definition ReadDelta :: "file_system \<Rightarrow> EnvFiles \<Rightarrow> (env_error + delta) \<times> EnvFiles" where
  "ReadDelta fs f =
     (case readNewBytes fs (ef_dir f @ ''/_env'') (ef_envOff f) of
        None \<Rightarrow> (Inl (ReadFile ''_env''), f)
      | Some (envData, newEnvOff) \<Rightarrow>
          (case readNewBytes fs (ef_dir f @ ''/_output'') (ef_outputOff f) of
             None \<Rightarrow> (Inl (ReadFile ''_output''), f)
           | Some (outputData, newOutputOff) \<Rightarrow>
               (case readNewBytes fs (ef_dir f @ ''/_path'') (ef_pathOff f) of
                  None \<Rightarrow> (Inl (ReadFile ''_path''), f)
                | Some (pathData, newPathOff) \<Rightarrow>
                    (Inr (parseEnvFile envData, parseEnvFile outputData, parsePathFile pathData),
                     f\<lparr>ef_envOff := newEnvOff, ef_outputOff := newOutputOff, ef_pathOff := newPathOff\<rparr>))))"

section \<open>Directories\<close>

text \<open>The files directly in a directory, by name as \<open>os.ReadDir\<close> sorts them.\<close>

definition dir_files :: "file_system \<Rightarrow> string \<Rightarrow> string list" where
  "dir_files fs dir =
     (let prefix = (if path_clean dir = ''/'' then ''/'' else path_clean dir @ ''/'')
      in sort (filter (\<lambda>name. name \<noteq> [] \<and> CHR ''/'' \<notin> set name)
           (map (\<lambda>(q, _). drop (length prefix) q) (filter (\<lambda>(q, _). HasPrefix q prefix) fs))))"

text \<open>\<open>os.RemoveAll\<close> of a directory.\<close>

definition remove_all_under :: "string \<Rightarrow> file_system \<Rightarrow> file_system" where
  "remove_all_under dir fs = filter (\<lambda>(q, _). \<not> (q = dir \<or> HasPrefix q (dir @ ''/''))) fs"

section \<open>Entries read back\<close>

text \<open>What a step writes: a variable on one line, or a heredoc with its lines and delimiter.\<close>

datatype entry =
    Simple string string
  | Heredoc string string "string list"

fun entry_lines :: "entry \<Rightarrow> string list" where
  "entry_lines (Simple k v) = [k @ ''='' @ v]"
| "entry_lines (Heredoc k d ls) = (k @ ''<<'' @ d) # ls @ [d]"

fun entry_value :: "entry \<Rightarrow> string \<times> string" where
  "entry_value (Simple k v) = (k, v)"
| "entry_value (Heredoc k d ls) = (k, concat (map (\<lambda>l. l @ [newline]) ls))"

text \<open>
  An entry is well formed when its lines contain no newline, its key is not empty, a simple line
  does not contain \<open><<\<close>, and a heredoc has a nonempty delimiter, at the first \<open><<\<close>, that is
  none of its lines.
\<close>

fun entry_ok :: "entry \<Rightarrow> bool" where
  "entry_ok (Simple k v) =
     (k \<noteq> [] \<and> CHR ''='' \<notin> set k \<and> newline \<notin> set k \<and> newline \<notin> set v \<and> \<not> Contains (k @ ''='' @ v) ''<<'')"
| "entry_ok (Heredoc k d ls) =
     (k \<noteq> [] \<and> d \<noteq> [] \<and> newline \<notin> set k \<and> newline \<notin> set d \<and> d \<notin> set ls \<and>
      list_all (\<lambda>l. newline \<notin> set l) ls \<and> Index (k @ ''<<'' @ d) ''<<'' = Some (length k))"

definition env_text :: "entry list \<Rightarrow> string" where
  "env_text es = concat (map (\<lambda>l. l @ [newline]) (concat (map entry_lines es)))"

lemma heredoc_append:
  "d \<notin> set ls \<Longrightarrow> heredoc d (ls @ d # rest) = (concat (map (\<lambda>l. l @ [newline]) ls), rest)"
  by (induction ls) auto

lemma Index_char: "c \<notin> set k \<Longrightarrow> Index (k @ c # v) [c] = Some (length k)"
  by (induction k) auto

lemma parse_entry:
  assumes "entry_ok e"
  shows "parse_lines (entry_lines e @ rest) result =
    parse_lines rest (mput (fst (entry_value e)) (snd (entry_value e)) result)"
proof (cases e)
  case (Simple k v)
  with assms show ?thesis
    by (simp add: Contains_def simple_entry_def Index_char Let_def)
next
  case (Heredoc k d ls)
  with assms show ?thesis
    by (simp add: heredoc_append Let_def del: Index.simps)
qed

lemma parse_entries:
  "list_all entry_ok es \<Longrightarrow>
   parse_lines (concat (map entry_lines es) @ rest) result =
   parse_lines rest (mput_all result (map entry_value es))"
proof (induction es arbitrary: result)
  case (Cons e es)
  then show ?case
    by (cases "entry_value e") (simp add: parse_entry)
qed simp

lemma Split_lines:
  "list_all (\<lambda>l. newline \<notin> set l) ls \<Longrightarrow> Split (concat (map (\<lambda>l. l @ [newline]) ls)) newline = ls @ [[]]"
  by (induction ls) simp_all

lemma entry_lines_no_newline: "entry_ok e \<Longrightarrow> list_all (\<lambda>l. newline \<notin> set l) (entry_lines e)"
  by (cases e) auto

lemma env_entries_parse:
  assumes "list_all entry_ok es"
  shows "parseEnvFile (env_text es) = mput_all [] (map entry_value es)"
proof -
  have "list_all (\<lambda>l. newline \<notin> set l) (concat (map entry_lines es))"
    using assms entry_lines_no_newline by (induction es) auto
  then have "Split (env_text es) newline = concat (map entry_lines es) @ [[]]"
    unfolding env_text_def by (rule Split_lines)
  then have "parse_lines (Split (env_text es) newline) [] = mput_all [] (map entry_value es)"
    using parse_entries[OF assms, of "[[]]" "[]"] by simp
  moreover have "env_text es = [] \<Longrightarrow> es = []"
    by (cases es; cases "hd es") (auto simp: env_text_def)
  ultimately show ?thesis
    by (auto simp: parseEnvFile_def)
qed

text \<open>
  C23. The variables that a step writes are read back: for every list of well-formed entries, of
  both forms, parsing the text gives each key the value of its last entry.
\<close>

theorem parseEnvFile_entries:
  assumes "list_all entry_ok es"
  shows "parseEnvFile (env_text es) = mput_all [] (map entry_value es)"
  using assms by (rule env_entries_parse)

definition sample_entries :: "entry list" where
  "sample_entries =
     [Simple ''A'' ''1=x'', Heredoc ''B'' ''EOF'' [''line = 1'', [], ''C<<D''], Simple ''A'' ''2'']"

theorem parseEnvFile_entries_witness:
  "list_all entry_ok sample_entries \<and>
   parseEnvFile (env_text sample_entries) =
     [(''A'', ''2''), (''B'', ''line = 1'' @ [newline] @ [newline] @ ''C<<D'' @ [newline])]"
proof -
  have "list_all entry_ok sample_entries"
    by code_simp
  moreover have "mput_all [] (map entry_value sample_entries) =
     [(''A'', ''2''), (''B'', ''line = 1'' @ [newline] @ [newline] @ ''C<<D'' @ [newline])]"
    by code_simp
  ultimately show ?thesis
    using parseEnvFile_entries by metis
qed

text \<open>
  A variable on one line whose value contains \<open><<\<close> is not read as the documented \<open>KEY=value\<close>:
  the line is taken for a heredoc whose key contains the equals sign, and the lines behind it, up
  to one that equals the end of the value, are lost as its text.
\<close>

lemma parseEnvFile_simple_with_heredoc_mark:
  "parseEnvFile (''A=1<<2'' @ [newline] @ ''B=3'' @ [newline]) =
     [(''A=1'', ''B=3'' @ [newline] @ [newline])]"
  by code_simp

section \<open>Reading increments\<close>

text \<open>
  \<open>in_sync fs f\<close>: the three files exist and everything in them has been read. A step appends to
  the files; \<open>ReadDelta\<close> then reads what it appended.
\<close>

definition in_sync :: "file_system \<Rightarrow> EnvFiles \<Rightarrow> bool" where
  "in_sync fs f =
     (map_option length (map_of fs (ef_dir f @ ''/_env'')) = Some (ef_envOff f) \<and>
      map_option length (map_of fs (ef_dir f @ ''/_output'')) = Some (ef_outputOff f) \<and>
      map_option length (map_of fs (ef_dir f @ ''/_path'')) = Some (ef_pathOff f))"

definition append_file :: "string \<Rightarrow> string \<Rightarrow> file_system \<Rightarrow> file_system" where
  "append_file path s fs = mput path (case map_of fs path of None \<Rightarrow> s | Some c \<Rightarrow> c @ s) fs"

fun step_writes :: "string \<Rightarrow> string \<times> string \<times> string \<Rightarrow> file_system \<Rightarrow> file_system" where
  "step_writes dir (e, ou, p) fs =
     append_file (dir @ ''/_path'') p (append_file (dir @ ''/_output'') ou (append_file (dir @ ''/_env'') e fs))"

text \<open>The deltas of a job: each step writes, then \<open>ReadDelta\<close> is called.\<close>

fun run_deltas ::
  "file_system \<Rightarrow> EnvFiles \<Rightarrow> (string \<times> string \<times> string) list \<Rightarrow> (env_error + delta) list" where
  "run_deltas fs f [] = []"
| "run_deltas fs f (w # ws) =
     (let fs' = step_writes (ef_dir f) w fs; (d, f') = ReadDelta fs' f
      in d # run_deltas fs' f' ws)"

lemma ReadDelta_sync:
  assumes "in_sync fs f"
  obtains f' where
    "ReadDelta (step_writes (ef_dir f) (e, ou, p) fs) f =
       (Inr (parseEnvFile e, parseEnvFile ou, parsePathFile p), f')"
    "in_sync (step_writes (ef_dir f) (e, ou, p) fs) f'" "ef_dir f' = ef_dir f"
proof -
  obtain a b c where "map_of fs (ef_dir f @ ''/_env'') = Some a" "map_of fs (ef_dir f @ ''/_output'') = Some b"
    "map_of fs (ef_dir f @ ''/_path'') = Some c" "ef_envOff f = length a" "ef_outputOff f = length b"
    "ef_pathOff f = length c"
    using assms by (auto simp: in_sync_def)
  then show ?thesis
    by (intro that[of "f\<lparr>ef_envOff := ef_envOff f + length e, ef_outputOff := ef_outputOff f + length ou,
          ef_pathOff := ef_pathOff f + length p\<rparr>"])
       (auto simp: ReadDelta_def readNewBytes_def append_file_def in_sync_def Let_def)
qed

text \<open>
  C22. Each step of a job sees exactly its own increments: when the files of a fresh runner
  directory are created and steps append to them in turn, the call of \<open>ReadDelta\<close> behind each step
  returns exactly what that step wrote, whatever the steps before it wrote.
\<close>

theorem ReadDelta_increments:
  assumes "NewEnvFiles creatable dir fs = Inr (f, fs')"
    and "map_of fs (dir @ ''/_env'') = None" "map_of fs (dir @ ''/_output'') = None" "map_of fs (dir @ ''/_path'') = None"
  shows "run_deltas fs' f ws =
    map (\<lambda>(e, ou, p). Inr (parseEnvFile e, parseEnvFile ou, parsePathFile p)) ws"
proof -
  have "in_sync fs' f"
    using assms by (auto simp: NewEnvFiles_def in_sync_def Let_def split: if_splits option.splits)
  then show ?thesis
  proof (induction ws arbitrary: fs' f)
    case (Cons w ws)
    obtain e ou p where w: "w = (e, ou, p)" by (cases w)
    obtain f' where "ReadDelta (step_writes (ef_dir f) w fs') f =
        (Inr (parseEnvFile e, parseEnvFile ou, parsePathFile p), f')"
      "in_sync (step_writes (ef_dir f) w fs') f'"
      using ReadDelta_sync[OF Cons.prems, of e ou p] w by metis
    with Cons.IH w show ?case
      by (simp add: Let_def)
  qed simp
qed

definition fresh_env_files :: EnvFiles where
  "fresh_env_files = \<lparr>ef_dir = ''/r'', ef_envOff = 0, ef_outputOff = 0, ef_pathOff = 0\<rparr>"

theorem ReadDelta_increments_witness:
  "\<exists>fs'. NewEnvFiles (\<lambda>_. True) ''/r'' [] = Inr (fresh_env_files, fs') \<and>
     run_deltas fs' fresh_env_files
       [(''A=1'' @ [newline], [], []), ([], ''B=2'' @ [newline], ''/bin'' @ [newline])] =
       [Inr ([(''A'', ''1'')], [], []), Inr ([], [(''B'', ''2'')], [''/bin''])]"
proof -
  obtain fs' where new: "NewEnvFiles (\<lambda>_. True) ''/r'' [] = Inr (fresh_env_files, fs')"
    by (simp add: NewEnvFiles_def fresh_env_files_def)
  have parsed: "parseEnvFile (''A=1'' @ [newline]) = [(''A'', ''1'')]" "parseEnvFile (''B=2'' @ [newline]) = [(''B'', ''2'')]"
    "parseEnvFile [] = []" "parsePathFile [] = []" "parsePathFile (''/bin'' @ [newline]) = [''/bin'']"
    by code_simp+
  show ?thesis
    using new ReadDelta_increments[OF new] by (simp add: parsed[simplified] del: run_deltas.simps)
qed

end
