(* ===== verification/Go_Time.thy ===== *)
theory Go_Time
  imports Go_Prelude
begin

text \<open>
  What the program uses of the package \<open>time\<close>: an instant in UTC is the number of nanoseconds since
  1970, \<open>Format\<close> writes it in the layout \<open>time.RFC3339Nano\<close> and \<open>Parse\<close> reads texts of that layout
  whose zone is \<open>Z\<close>, the only ones that the program stores.
\<close>

section \<open>Calendar\<close>

type_synonym gtime = int

text \<open>
  Days since 1970 and the civil date. The years start in March, so that a leap day is the last
  day of its year: a day is a number of eras of 400 years, centuries, spans of four years,
  years and days.
\<close>

definition civil_from_days :: "int \<Rightarrow> int \<times> int \<times> int" where
  "civil_from_days z =
     (let d = z + 719468; era = d div 146097; doe = d mod 146097;
          c = min (doe div 36524) 3; doc = doe - 36524 * c; q = doc div 1461; doq = doc mod 1461;
          y = min (doq div 365) 3; doy = doq - 365 * y; mp = (5 * doy + 2) div 153;
          day = doy - (153 * mp + 2) div 5 + 1; month = (if mp < 10 then mp + 3 else mp - 9);
          year = 400 * era + 100 * c + 4 * q + y + (if month \<le> 2 then 1 else 0)
      in (year, month, day))"

definition days_from_civil :: "int \<Rightarrow> int \<Rightarrow> int \<Rightarrow> int" where
  "days_from_civil year month day =
     (let y = (if month \<le> 2 then year - 1 else year);
          mp = (if month > 2 then month - 3 else month + 9); doy = (153 * mp + 2) div 5 + day - 1
      in 365 * y + y div 4 - y div 100 + y div 400 + doy - 719468)"

lemma calendar_parts:
  fixes d :: int
  assumes "c = min ((d mod 146097) div 36524) 3" "q = (d mod 146097 - 36524 * c) div 1461"
    and "y = min (((d mod 146097 - 36524 * c) mod 1461) div 365) 3"
    and "doy = (d mod 146097 - 36524 * c) mod 1461 - 365 * y"
  shows "0 \<le> c" "c \<le> 3" "0 \<le> q" "q \<le> 24" "0 \<le> y" "y \<le> 3" "0 \<le> doy" "doy \<le> 365"
    "d = 146097 * (d div 146097) + 36524 * c + 1461 * q + 365 * y + doy"
proof -
  define doe where "doe = d mod 146097"
  have doe: "0 \<le> doe" "doe < 146097" by (simp_all add: doe_def)
  have c: "c = min (doe div 36524) 3" using assms(1) by (simp add: doe_def)
  show "0 \<le> c" "c \<le> 3" using c doe by auto
  define doc where "doc = doe - 36524 * c"
  have doc: "0 \<le> doc" "doc \<le> 36524"
    using c doe unfolding doc_def by (auto simp: min_def split: if_splits)
  have q: "q = doc div 1461" using assms(2) by (simp add: doc_def doe_def)
  show "0 \<le> q" "q \<le> 24" using q doc by auto
  define doq where "doq = doc mod 1461"
  have doq: "0 \<le> doq" "doq < 1461" by (simp_all add: doq_def)
  have y: "y = min (doq div 365) 3" using assms(3) by (simp add: doq_def doc_def doe_def)
  show "0 \<le> y" "y \<le> 3" using y doq by auto
  have doy: "doy = doq - 365 * y" using assms(4) by (simp add: doq_def doc_def doe_def)
  show "0 \<le> doy" "doy \<le> 365"
    using y doq unfolding doy by (auto simp: min_def split: if_splits)
  have "d = 146097 * (d div 146097) + doe" by (simp add: doe_def)
  moreover have "doc = 1461 * q + doq" by (simp add: q doq_def)
  ultimately show "d = 146097 * (d div 146097) + 36524 * c + 1461 * q + 365 * y + doy"
    using doy by (simp add: doc_def)
qed

lemma year_divs:
  fixes era :: int
  assumes "0 \<le> c" "c \<le> 3" "0 \<le> q" "q \<le> 24" "0 \<le> y" "y \<le> 3"
  shows "(400 * era + 100 * c + 4 * q + y) div 4 = 100 * era + 25 * c + q"
    "(400 * era + 100 * c + 4 * q + y) div 100 = 4 * era + c"
    "(400 * era + 100 * c + 4 * q + y) div 400 = era"
  using assms
  by (auto intro: int_div_pos_eq[where r = y] int_div_pos_eq[where r = "4 * q + y"]
      int_div_pos_eq[where r = "100 * c + 4 * q + y"])

lemma div_bounds: "0 < b \<Longrightarrow> b * (a div b) \<le> a \<and> a < b * (a div b) + (b :: int)"
  using minus_mod_eq_mult_div[of a b] pos_mod_bound[of b a] pos_mod_sign[of b a] by linarith

lemma month_range:
  fixes doy :: int
  assumes "0 \<le> doy" "doy \<le> 365"
  shows "0 \<le> (5 * doy + 2) div 153" "(5 * doy + 2) div 153 \<le> 11"
    "1 \<le> doy - (153 * ((5 * doy + 2) div 153) + 2) div 5 + 1"
    "doy - (153 * ((5 * doy + 2) div 153) + 2) div 5 + 1 \<le> 32"
proof -
  define mp where "mp = (5 * doy + 2) div 153"
  define t where "t = (153 * mp + 2) div 5"
  have "153 * mp \<le> 5 * doy + 2" "5 * doy + 2 < 153 * mp + 153"
    using div_bounds[of 153 "5 * doy + 2"] by (simp_all add: mp_def)
  moreover have "5 * t \<le> 153 * mp + 2" "153 * mp + 2 < 5 * t + 5"
    using div_bounds[of 5 "153 * mp + 2"] by (simp_all add: t_def)
  ultimately show "0 \<le> (5 * doy + 2) div 153" "(5 * doy + 2) div 153 \<le> 11"
    "1 \<le> doy - (153 * ((5 * doy + 2) div 153) + 2) div 5 + 1"
    "doy - (153 * ((5 * doy + 2) div 153) + 2) div 5 + 1 \<le> 32"
    unfolding mp_def[symmetric] t_def[symmetric] using assms by linarith+
qed

lemma days_civil:
  assumes "civil_from_days z = (year, month, day)"
  shows "days_from_civil year month day = z" "1 \<le> month" "month \<le> 12" "1 \<le> day" "day \<le> 32"
proof -
  define d where "d = z + 719468"
  define c where "c = min ((d mod 146097) div 36524) 3"
  define q where "q = (d mod 146097 - 36524 * c) div 1461"
  define y where "y = min (((d mod 146097 - 36524 * c) mod 1461) div 365) 3"
  define doy where "doy = (d mod 146097 - 36524 * c) mod 1461 - 365 * y"
  define mp where "mp = (5 * doy + 2) div 153"
  note parts = calendar_parts[OF c_def q_def y_def doy_def]
  have mp: "0 \<le> mp" "mp \<le> 11"
    using month_range(1,2)[OF parts(7,8)] by (simp_all add: mp_def)
  have day: "day = doy - (153 * mp + 2) div 5 + 1"
    and month: "month = (if mp < 10 then mp + 3 else mp - 9)"
    and year: "year = 400 * (d div 146097) + 100 * c + 4 * q + y + (if month \<le> 2 then 1 else 0)"
    using assms unfolding civil_from_days_def Let_def d_def[symmetric] c_def[symmetric] q_def[symmetric]
      y_def[symmetric] doy_def[symmetric] mp_def[symmetric]
    by auto
  show "1 \<le> month" "month \<le> 12"
    using month mp by auto
  show "1 \<le> day" "day \<le> 32"
    using month_range(3,4)[OF parts(7,8)] day by (simp_all add: mp_def)
  have "(if month > 2 then month - 3 else month + 9) = mp"
    using month mp by auto
  moreover have "(if month \<le> 2 then year - 1 else year) = 400 * (d div 146097) + 100 * c + 4 * q + y"
    using year by simp
  ultimately have "days_from_civil year month day =
      365 * (400 * (d div 146097) + 100 * c + 4 * q + y) + (100 * (d div 146097) + 25 * c + q) -
      (4 * (d div 146097) + c) + d div 146097 + doy - 719468"
    using day by (simp only: days_from_civil_def Let_def year_divs[OF parts(1-6)])
  also have "\<dots> = d - 719468"
    using parts(9) by (simp add: algebra_simps)
  finally show "days_from_civil year month day = z"
    by (simp add: d_def)
qed

section \<open>Texts\<close>

text \<open>The last \<open>k\<close> decimal digits.\<close>

fun fixed_dec :: "nat \<Rightarrow> int \<Rightarrow> string" where
  "fixed_dec 0 v = []"
| "fixed_dec (Suc k) v = fixed_dec k (v div 10) @ [digit_char (v mod 10)]"

definition format_year :: "int \<Rightarrow> string" where
  "format_year y = (if 0 \<le> y \<and> y < 10000 then fixed_dec 4 y else Itoa y)"

text \<open>The fraction of a second, without trailing zeros and left out when it is zero.\<close>

definition format_fraction :: "int \<Rightarrow> string" where
  "format_fraction ns =
     (let ds = rev (dropWhile (\<lambda>c. c = CHR ''0'') (rev (fixed_dec 9 ns)))
      in if ds = [] then [] else CHR ''.'' # ds)"

definition nanos_per_second :: int where
  "nanos_per_second = 1000000000"

definition FormatNano :: "gtime \<Rightarrow> string" where
  "FormatNano t =
     (let secs = t div nanos_per_second; ns = t mod nanos_per_second; sod = secs mod 86400;
          (year, month, day) = civil_from_days (secs div 86400)
      in format_year year @ ''-'' @ fixed_dec 2 month @ ''-'' @ fixed_dec 2 day @ ''T'' @
         fixed_dec 2 (sod div 3600) @ '':'' @ fixed_dec 2 (sod div 60 mod 60) @ '':'' @
         fixed_dec 2 (sod mod 60) @ format_fraction ns @ ''Z'')"

text \<open>
  \<open>Parse\<close>: the fixed fields, each a number of digits and the character behind it, then the
  fraction and the zone. A date is valid when the calendar gives it back.
\<close>

fun read_fields :: "(nat \<times> char option) list \<Rightarrow> string \<Rightarrow> (int list \<times> string) option" where
  "read_fields [] s = Some ([], s)"
| "read_fields ((k, sep) # fs) s =
     (let ds = take k s; rest = drop k s
      in if length ds = k \<and> list_all is_digit ds \<and> (case sep of None \<Rightarrow> True | Some c \<Rightarrow> HasPrefix rest [c])
         then map_option (\<lambda>(vs, r). (digits_val ds # vs, r))
                (read_fields fs (case sep of None \<Rightarrow> rest | Some c \<Rightarrow> drop 1 rest))
         else None)"

definition read_fraction :: "string \<Rightarrow> int option" where
  "read_fraction s =
     (if s = ''Z'' then Some 0
      else if HasPrefix s ''.'' \<and> HasSuffix s ''Z'' then
        (let ds = butlast (tl s); ds9 = take 9 ds
         in if ds \<noteq> [] \<and> list_all is_digit ds then Some (digits_val ds9 * 10 ^ (9 - length ds9)) else None)
      else None)"

definition date_fields :: "(nat \<times> char option) list" where
  "date_fields =
     [(4, Some CHR ''-''), (2, Some CHR ''-''), (2, Some CHR ''T''), (2, Some CHR '':''), (2, Some CHR '':''), (2, None)]"

definition ParseNano :: "string \<Rightarrow> gtime option" where
  "ParseNano s =
     (case read_fields date_fields s of
        Some ([year, month, day, hour, minute, sec], rest) \<Rightarrow>
          (case read_fraction rest of
             Some ns \<Rightarrow>
               if civil_from_days (days_from_civil year month day) = (year, month, day) \<and>
                  hour < 24 \<and> minute < 60 \<and> sec < 60
               then Some ((days_from_civil year month day * 86400 + hour * 3600 + minute * 60 + sec) *
                          nanos_per_second + ns)
               else None
           | None \<Rightarrow> None)
      | _ \<Rightarrow> None)"

lemma fixed_dec_length [simp]: "length (fixed_dec k v) = k"
  by (induction k arbitrary: v) simp_all

lemma fixed_dec_digits [simp]: "list_all is_digit (fixed_dec k v)"
  by (induction k arbitrary: v) simp_all

lemma digits_val_append: "digits_val (xs @ [c]) = 10 * digits_val xs + digit_val c"
  by (simp add: digits_val_def)

lemma digits_val_fixed_dec: "0 \<le> v \<Longrightarrow> v < 10 ^ k \<Longrightarrow> digits_val (fixed_dec k v) = v"
proof (induction k arbitrary: v)
  case (Suc k)
  then have "digits_val (fixed_dec k (v div 10)) = v div 10"
    by (intro Suc.IH) (auto simp: div_less_iff_less_mult pos_imp_zdiv_nonneg_iff mult.commute)
  then show ?case
    by (simp add: digits_val_append)
qed (simp add: digits_val_def)

lemma digits_two: "0 \<le> v \<Longrightarrow> v < 100 \<Longrightarrow> digits_val (fixed_dec 2 v) = v"
  by (rule digits_val_fixed_dec) simp_all

lemma digits_val_zeros: "digits_val (ds @ replicate n (CHR ''0'')) = digits_val ds * 10 ^ n"
proof (induction n)
  case (Suc n)
  have "digits_val (ds @ replicate (Suc n) (CHR ''0'')) = digits_val ((ds @ replicate n (CHR ''0'')) @ [CHR ''0''])"
    by (simp add: replicate_append_same)
  with Suc show ?case
    by (simp only: digits_val_append) (simp add: digit_val_def)
qed simp

lemma read_field:
  "length ds = k \<Longrightarrow> list_all is_digit ds \<Longrightarrow>
   read_fields ((k, Some c) # fs) (ds @ c # rest) =
     map_option (\<lambda>(vs, r). (digits_val ds # vs, r)) (read_fields fs rest)"
  by (simp add: Let_def)

lemma read_last_field:
  "length ds = k \<Longrightarrow> list_all is_digit ds \<Longrightarrow> read_fields [(k, None)] (ds @ rest) = Some ([digits_val ds], rest)"
  by (simp add: Let_def)

lemma dropWhile_rev_zeros:
  assumes "ds = rev (dropWhile (\<lambda>c. c = CHR ''0'') (rev xs))"
  shows "xs = ds @ replicate (length xs - length ds) (CHR ''0'')"
proof -
  let ?ys = "rev (takeWhile (\<lambda>c. c = CHR ''0'') (rev xs))"
  have xs: "xs = ds @ ?ys"
    using assms by (metis rev_append rev_rev_ident takeWhile_dropWhile_id)
  moreover have "?ys = replicate (length ?ys) (CHR ''0'')"
    by (rule replicate_length_same[symmetric]) (auto dest: set_takeWhileD)
  ultimately show ?thesis
    by (metis diff_add_inverse length_append)
qed

lemma read_format_fraction:
  assumes "0 \<le> ns" "ns < 10 ^ 9"
  shows "read_fraction (format_fraction ns @ ''Z'') = Some ns"
proof -
  define ds where "ds = rev (dropWhile (\<lambda>c. c = CHR ''0'') (rev (fixed_dec 9 ns)))"
  have f: "fixed_dec 9 ns = ds @ replicate (9 - length ds) (CHR ''0'')"
    using dropWhile_rev_zeros[OF ds_def] by simp
  have len: "length ds \<le> 9"
    using arg_cong[OF f, of length] by simp
  have digs: "list_all is_digit ds"
    using fixed_dec_digits[of 9 ns] unfolding f by simp
  have v: "digits_val ds * 10 ^ (9 - length ds) = ns"
    using digits_val_fixed_dec[OF assms] unfolding f digits_val_zeros .
  have ff: "format_fraction ns = (if ds = [] then [] else CHR ''.'' # ds)"
    by (simp only: format_fraction_def ds_def Let_def)
  show ?thesis
  proof (cases "ds = []")
    case True
    with v ff show ?thesis
      by (simp add: read_fraction_def digits_val_def)
  next
    case False
    with len digs v ff show ?thesis
      by (auto simp: Let_def read_fraction_def HasSuffix_iff)
  qed
qed

lemma time_of_day:
  fixes secs :: int
  defines "sod \<equiv> secs mod 86400"
  shows "secs div 86400 * 86400 + sod div 3600 * 3600 + sod div 60 mod 60 * 60 + sod mod 60 = secs"
    "0 \<le> sod div 3600" "sod div 3600 < 24"
    "0 \<le> sod div 60 mod 60" "sod div 60 mod 60 < 60" "0 \<le> sod mod 60" "sod mod 60 < 60"
proof -
  have "0 \<le> sod" "sod < 86400" by (simp_all add: sod_def)
  then show "0 \<le> sod div 3600" "sod div 3600 < 24"
    "0 \<le> sod div 60 mod 60" "sod div 60 mod 60 < 60" "0 \<le> sod mod 60" "sod mod 60 < 60"
    by auto
  have "sod div 3600 = sod div 60 div 60"
    using zdiv_zmult2_eq[of 60 sod 60] by simp
  then have "sod div 3600 * 3600 + sod div 60 mod 60 * 60 = sod div 60 * 60"
    using div_mult_mod_eq[of "sod div 60" 60] by linarith
  then have "sod div 3600 * 3600 + sod div 60 mod 60 * 60 + sod mod 60 = sod"
    using div_mult_mod_eq[of sod 60] by linarith
  moreover have "secs div 86400 * 86400 + sod = secs"
    by (simp add: sod_def)
  ultimately show "secs div 86400 * 86400 + sod div 3600 * 3600 + sod div 60 mod 60 * 60 + sod mod 60 = secs"
    by linarith
qed

definition year_of :: "gtime \<Rightarrow> int" where
  "year_of t = fst (civil_from_days (t div nanos_per_second div 86400))"

lemma Parse_Format:
  assumes "0 \<le> year_of t" "year_of t < 10000"
  shows "ParseNano (FormatNano t) = Some t"
proof -
  define secs where "secs = t div nanos_per_second"
  define ns where "ns = t mod nanos_per_second"
  define sod where "sod = secs mod 86400"
  obtain year month day where civ: "civil_from_days (secs div 86400) = (year, month, day)"
    by (cases "civil_from_days (secs div 86400)") auto
  note date = days_civil[OF civ]
  note tod = time_of_day[of secs, folded sod_def]
  have y: "0 \<le> year" "year < 10000"
    using assms civ by (simp_all add: year_of_def secs_def)
  have ns: "0 \<le> ns" "ns < 10 ^ 9"
    by (simp_all add: ns_def nanos_per_second_def)
  have t: "t = secs * nanos_per_second + ns"
    by (simp add: secs_def ns_def)
  have shape: "FormatNano t = fixed_dec 4 year @ CHR ''-'' # fixed_dec 2 month @ CHR ''-'' # fixed_dec 2 day @
      CHR ''T'' # fixed_dec 2 (sod div 3600) @ CHR '':'' # fixed_dec 2 (sod div 60 mod 60) @ CHR '':'' #
      fixed_dec 2 (sod mod 60) @ format_fraction ns @ ''Z''"
    using y by (simp add: FormatNano_def Let_def civ format_year_def flip: secs_def ns_def sod_def)
  have vals: "digits_val (fixed_dec 4 year) = year" "digits_val (fixed_dec 2 month) = month"
    "digits_val (fixed_dec 2 day) = day" "digits_val (fixed_dec 2 (sod div 3600)) = sod div 3600"
    "digits_val (fixed_dec 2 (sod div 60 mod 60)) = sod div 60 mod 60"
    "digits_val (fixed_dec 2 (sod mod 60)) = sod mod 60"
    by (simp add: digits_val_fixed_dec y)
       (rule digits_two[OF order_trans[OF _ date(2)] le_less_trans[OF date(3)]]
         digits_two[OF order_trans[OF _ date(4)] le_less_trans[OF date(5)]]
         digits_two[OF tod(2) less_trans[OF tod(3)]] digits_two[OF tod(4) less_trans[OF tod(5)]]
         digits_two[OF tod(6) less_trans[OF tod(7)]]; simp)+
  have "read_fields date_fields (FormatNano t) =
      Some ([year, month, day, sod div 3600, sod div 60 mod 60, sod mod 60], format_fraction ns @ ''Z'')"
    unfolding shape date_fields_def
    by (simp only: read_field read_last_field fixed_dec_length fixed_dec_digits vals option.map prod.case)
  moreover have "(days_from_civil year month day * 86400 + sod div 3600 * 3600 + sod div 60 mod 60 * 60 + sod mod 60) = secs"
    unfolding date(1) by (rule tod(1))
  moreover have "civil_from_days (days_from_civil year month day) = (year, month, day)"
    unfolding date(1) by (rule civ)
  ultimately have "ParseNano (FormatNano t) = Some (secs * nanos_per_second + ns)"
    unfolding ParseNano_def
    by (simp only: option.case prod.case list.case read_format_fraction[OF ns] tod(3,5,7) simp_thms if_True)
  with t show ?thesis by simp
qed

definition sample_time :: gtime where
  "sample_time = 1709211661500000000"

text \<open>
  The texts do not sort like the instants: half a second after a full second has the smaller
  text, because the fraction is left out when it is zero and the point precedes the letter Z.
\<close>

lemma FormatNano_not_monotone:
  "\<exists>t. t < t + 500000000 \<and> FormatNano (t + 500000000) < FormatNano t"
proof -
  have "FormatNano (1709211661000000000 + 500000000) < FormatNano 1709211661000000000"
    by code_simp
  then show ?thesis
    by (intro exI[of _ 1709211661000000000]) simp
qed

section \<open>Durations\<close>

text \<open>
  The durations of the package \<open>time\<close>: the difference of two instants, which saturates at the ends of \<open>int64\<close>,
  \<open>Round(time.Second)\<close>, which rounds halves away from zero and stays at the ends, and the text of a duration of whole seconds or at
  least one second.
\<close>

definition time_Sub :: "gtime \<Rightarrow> gtime \<Rightarrow> int" where
  "time_Sub t u = max (- (2 ^ 63)) (min (2 ^ 63 - 1) (t - u))"

definition Round_second :: "int \<Rightarrow> int" where
  "Round_second d =
     (let r = \<bar>d\<bar> mod nanos_per_second; m = (if 2 * r < nanos_per_second then \<bar>d\<bar> - r else \<bar>d\<bar> + nanos_per_second - r)
      in max (- (2 ^ 63)) (min (2 ^ 63 - 1) (if d < 0 then - m else m)))"

definition Duration_String :: "int \<Rightarrow> string" where
  "Duration_String d =
     (if d = 0 then ''0s''
      else
        (let u = \<bar>d\<bar> div nanos_per_second; secs = Itoa (u mod 60) @ format_fraction (\<bar>d\<bar> mod nanos_per_second) @ ''s''; mins = u div 60; hours = mins div 60
         in (if d < 0 then ''-'' else []) @ (if 0 < hours then Itoa hours @ ''h'' else []) @
            (if 0 < mins then Itoa (mins mod 60) @ ''m'' else []) @ secs))"

lemma Duration_String_samples:
  "Duration_String (Round_second 3661500000000) = ''1h1m2s''" "Duration_String (Round_second 499999999) = ''0s''"
  "Duration_String (Round_second (2 ^ 63 - 1)) = ''2562047h47m16.854775807s''" "Duration_String (Round_second (- 60000000001)) = ''-1m0s''"
  by code_simp+

text \<open>Away from the ends of \<open>int64\<close> the rounded duration is a whole number of seconds, at most half a second away.\<close>

lemma Round_second_nearest:
  assumes "\<bar>d\<bar> < 2 ^ 63 - nanos_per_second"
  shows "nanos_per_second dvd Round_second d" "2 * \<bar>Round_second d - d\<bar> \<le> nanos_per_second"
proof -
  define r where "r = \<bar>d\<bar> mod nanos_per_second"
  have r: "0 \<le> r" "r < nanos_per_second" "nanos_per_second dvd \<bar>d\<bar> - r"
    by (simp_all add: r_def nanos_per_second_def)
  define m where "m = (if 2 * r < nanos_per_second then \<bar>d\<bar> - r else \<bar>d\<bar> + nanos_per_second - r)"
  have "nanos_per_second dvd (\<bar>d\<bar> - r) + nanos_per_second" using r(3) by (intro dvd_add) simp_all
  then have m: "nanos_per_second dvd m" using r(3) by (simp add: m_def algebra_simps)
  have "r \<le> \<bar>d\<bar>" by (simp add: r_def zmod_le_nonneg_dividend)
  then have "0 \<le> m" "m < 2 ^ 63" using assms r(1,2) by (auto simp: m_def)
  moreover have "Round_second d = max (- (2 ^ 63)) (min (2 ^ 63 - 1) (if d < 0 then - m else m))"
    unfolding Round_second_def Let_def m_def r_def ..
  ultimately have eq: "Round_second d = (if d < 0 then - m else m)" by auto
  show "nanos_per_second dvd Round_second d" using m by (simp add: eq)
  show "2 * \<bar>Round_second d - d\<bar> \<le> nanos_per_second" using r(1,2) by (auto simp: eq m_def)
qed

end
