(* ===== verification/Store.thy ===== *)
theory Store
  imports Go_Time
begin

text \<open>
  The store (\<open>internal/store/store.go\<close>): the tables of the schema as lists of rows in the order of
  their row ids, and one operation per method of \<open>SQLiteStore\<close>. The mutex makes each operation
  atomic.

  The database is reached through a context: \<open>alive\<close> says that the context of the call is not done;
  with a context that is done, the driver returns its error and changes nothing. Whether SQLite
  enforces foreign keys is a setting of the connection, \<open>db_fk\<close>.

  Instants in the columns of runs, jobs and artifacts are texts of the layout \<open>time.RFC3339Nano\<close>. The
  expiry of a session has the layout \<open>time.RFC3339\<close>, a fixed width that keeps whole seconds, and the
  creation of a user is the default of its column; both are instants here. \<open>encoding/json\<close> is the
  parameter \<open>jsonlib\<close>, and random identifiers are arguments.
\<close>

section \<open>Types\<close>

definition RunStatusQueued :: string where "RunStatusQueued = ''queued''"
definition RunStatusRunning :: string where "RunStatusRunning = ''running''"
definition RunStatusSuccess :: string where "RunStatusSuccess = ''success''"
definition RunStatusFailure :: string where "RunStatusFailure = ''failure''"
definition RunStatusError :: string where "RunStatusError = ''error''"
definition RunStatusCanceled :: string where "RunStatusCanceled = ''canceled''"

lemmas run_status_defs = RunStatusQueued_def RunStatusRunning_def RunStatusSuccess_def
  RunStatusFailure_def RunStatusError_def RunStatusCanceled_def

record RunJob =
  rj_ID :: string
  rj_RunID :: string
  rj_JobName :: string
  rj_Status :: string
  rj_StartedAt :: "gtime option"
  rj_FinishedAt :: "gtime option"

record Run =
  ru_ID :: string
  ru_WatchName :: string
  ru_Repo :: string
  ru_SHA :: string
  ru_WorkflowName :: string
  ru_Status :: string
  ru_StartedAt :: gtime
  ru_FinishedAt :: "gtime option"
  ru_ExitCode :: "int option"
  ru_LogPath :: string

record SeenCommit =
  sc_Repo :: string
  sc_SHA :: string
  sc_PrOrBranch :: string
  sc_FirstSeenAt :: gtime

record User =
  us_ID :: string
  us_Username :: string
  us_PasswordHash :: string
  us_Role :: string
  us_CreatedAt :: gtime

record Session =
  se_Token :: string
  se_UserID :: string
  se_ExpiresAt :: gtime

record DBWorkflow =
  dw_ID :: string
  dw_ProjectName :: string
  dw_Name :: string
  dw_Path :: string
  dw_RunnerImage :: string
  dw_Secrets :: "string gomap"
  dw_Env :: "string gomap"
  dw_TimeoutMinutes :: int

record DBTrigger =
  dt_ID :: string
  dt_ProjectName :: string
  dt_Type :: string
  dt_Repo :: string
  dt_Branch :: string
  dt_PR :: int
  dt_OnEvents :: "string list"

record DBProject =
  dp_Name :: string
  dp_Description :: string
  dp_Workflows :: "DBWorkflow list"
  dp_Triggers :: "DBTrigger list"

record DBWatch =
  dwa_Name :: string
  dwa_Repo :: string
  dwa_Branch :: string
  dwa_PR :: int
  dwa_OnEvents :: "string list"
  dwa_Workflows :: "DBWorkflow list"

record RunArtifact =
  ra_ID :: string
  ra_RunID :: string
  ra_Filename :: string
  ra_Size :: int
  ra_SHA256 :: string
  ra_CreatedAt :: gtime

text \<open>The rows of the tables whose columns differ from the fields of the Go types.\<close>

record run_row =
  rr_id :: string
  rr_project_name :: string
  rr_repo :: string
  rr_sha :: string
  rr_workflow_name :: string
  rr_status :: string
  rr_started_at :: string
  rr_finished_at :: "string option"
  rr_exit_code :: "int option"
  rr_log_path :: string

record run_job_row =
  jr_id :: string
  jr_run_id :: string
  jr_job_name :: string
  jr_status :: string
  jr_started_at :: "string option"
  jr_finished_at :: "string option"

record artifact_row =
  ar_id :: string
  ar_run_id :: string
  ar_filename :: string
  ar_size :: int
  ar_sha256 :: string
  ar_created_at :: string

record workflow_row =
  wr_id :: string
  wr_project_name :: string
  wr_name :: string
  wr_path :: string
  wr_runner_image :: "string option"
  wr_secrets :: string
  wr_env :: string
  wr_timeout_minutes :: int

record trigger_row =
  tr_id :: string
  tr_project_name :: string
  tr_type :: string
  tr_repo :: "string option"
  tr_branch :: "string option"
  tr_pr :: "int option"
  tr_on_events :: string

record DB =
  db_runs :: "run_row list"
  db_seen :: "SeenCommit list"
  db_users :: "User list"
  db_sessions :: "Session list"
  db_projects :: "(string \<times> string) list"
  db_workflows :: "workflow_row list"
  db_triggers :: "trigger_row list"
  db_run_jobs :: "run_job_row list"
  db_artifacts :: "artifact_row list"
  db_fk :: bool

record jsonlib =
  js_map :: "string gomap \<Rightarrow> string"
  js_unmap :: "string \<Rightarrow> string gomap option"
  js_list :: "string list \<Rightarrow> string"
  js_unlist :: "string \<Rightarrow> string list option"

datatype store_error =
    ContextDone
  | ConstraintFailed
  | NoRows
  | BadTime
  | ProjectNotFound

type_synonym 'a wres = "store_error option \<times> 'a"

section \<open>Statements\<close>

text \<open>
  \<open>INSERT\<close> fails when a row with an equal key is present; \<open>UPDATE\<close> and \<open>DELETE\<close> work on the rows that
  match. \<open>exec\<close> runs a statement in a context.
\<close>

definition has_key :: "('r \<Rightarrow> 'k) \<Rightarrow> 'k \<Rightarrow> 'r list \<Rightarrow> bool" where
  "has_key key k rows = list_ex (\<lambda>r. key r = k) rows"

definition update_where :: "('r \<Rightarrow> bool) \<Rightarrow> ('r \<Rightarrow> 'r) \<Rightarrow> 'r list \<Rightarrow> 'r list" where
  "update_where p f rows = map (\<lambda>r. if p r then f r else r) rows"

definition delete_where :: "('r \<Rightarrow> bool) \<Rightarrow> 'r list \<Rightarrow> 'r list" where
  "delete_where p rows = filter (\<lambda>r. \<not> p r) rows"

definition exec :: "bool \<Rightarrow> (DB \<Rightarrow> DB option) \<Rightarrow> DB \<Rightarrow> DB wres" where
  "exec alive stmt db =
     (if \<not> alive then (Some ContextDone, db)
      else (case stmt db of None \<Rightarrow> (Some ConstraintFailed, db) | Some db' \<Rightarrow> (None, db')))"

definition nullTime :: "gtime option \<Rightarrow> string option" where
  "nullTime t = map_option FormatNano t"

definition null_if_empty :: "string \<Rightarrow> string option" where
  "null_if_empty s = (if s \<noteq> [] then Some s else None)"

definition null_if_zero :: "int \<Rightarrow> int option" where
  "null_if_zero n = (if n \<noteq> 0 then Some n else None)"

definition coalesce :: "'a \<Rightarrow> 'a option \<Rightarrow> 'a" where
  "coalesce d v = (case v of None \<Rightarrow> d | Some x \<Rightarrow> x)"

section \<open>Runs\<close>

definition run_to_row :: "Run \<Rightarrow> run_row" where
  "run_to_row r =
     \<lparr>rr_id = ru_ID r, rr_project_name = ru_WatchName r, rr_repo = ru_Repo r, rr_sha = ru_SHA r,
      rr_workflow_name = ru_WorkflowName r, rr_status = ru_Status r,
      rr_started_at = FormatNano (ru_StartedAt r), rr_finished_at = nullTime (ru_FinishedAt r),
      rr_exit_code = ru_ExitCode r, rr_log_path = ru_LogPath r\<rparr>"

definition CreateRun :: "bool \<Rightarrow> Run \<Rightarrow> DB \<Rightarrow> DB wres" where
  "CreateRun alive r =
     exec alive (\<lambda>db. if has_key rr_id (ru_ID r) (db_runs db) then None
                      else Some (db\<lparr>db_runs := db_runs db @ [run_to_row r]\<rparr>))"

definition UpdateRunSHA :: "bool \<Rightarrow> string \<Rightarrow> string \<Rightarrow> DB \<Rightarrow> DB wres" where
  "UpdateRunSHA alive rid sha =
     exec alive (\<lambda>db. Some (db\<lparr>db_runs := update_where (\<lambda>r. rr_id r = rid) (\<lambda>r. r\<lparr>rr_sha := sha\<rparr>) (db_runs db)\<rparr>))"

definition UpdateRunStatus ::
  "bool \<Rightarrow> string \<Rightarrow> string \<Rightarrow> int option \<Rightarrow> gtime option \<Rightarrow> DB \<Rightarrow> DB wres" where
  "UpdateRunStatus alive rid status exitCode finishedAt =
     exec alive (\<lambda>db. Some (db\<lparr>db_runs :=
       update_where (\<lambda>r. rr_id r = rid)
         (\<lambda>r. r\<lparr>rr_status := status, rr_exit_code := exitCode, rr_finished_at := nullTime finishedAt\<rparr>)
         (db_runs db)\<rparr>))"

definition parse_null_time :: "string option \<Rightarrow> store_error + gtime option" where
  "parse_null_time s =
     (case s of
        None \<Rightarrow> Inr None
      | Some x \<Rightarrow> (case ParseNano x of None \<Rightarrow> Inl BadTime | Some t \<Rightarrow> Inr (Some t)))"

definition scanRun :: "run_row \<Rightarrow> store_error + Run" where
  "scanRun r =
     (case ParseNano (rr_started_at r) of
        None \<Rightarrow> Inl BadTime
      | Some started \<Rightarrow>
          (case parse_null_time (rr_finished_at r) of
             Inl e \<Rightarrow> Inl e
           | Inr finished \<Rightarrow>
               Inr \<lparr>ru_ID = rr_id r, ru_WatchName = rr_project_name r, ru_Repo = rr_repo r,
                    ru_SHA = rr_sha r, ru_WorkflowName = rr_workflow_name r, ru_Status = rr_status r,
                    ru_StartedAt = started, ru_FinishedAt = finished, ru_ExitCode = rr_exit_code r,
                    ru_LogPath = rr_log_path r\<rparr>))"

definition query_row :: "bool \<Rightarrow> ('r \<Rightarrow> bool) \<Rightarrow> 'r list \<Rightarrow> store_error + 'r" where
  "query_row alive p rows =
     (if \<not> alive then Inl ContextDone
      else case find p rows of None \<Rightarrow> Inl NoRows | Some r \<Rightarrow> Inr r)"

fun scan_all :: "('r \<Rightarrow> store_error + 'a) \<Rightarrow> 'r list \<Rightarrow> store_error + 'a list" where
  "scan_all scan [] = Inr []"
| "scan_all scan (r # rs) =
     (case scan r of
        Inl e \<Rightarrow> Inl e
      | Inr x \<Rightarrow> (case scan_all scan rs of Inl e \<Rightarrow> Inl e | Inr xs \<Rightarrow> Inr (x # xs)))"

definition query_rows :: "bool \<Rightarrow> ('r \<Rightarrow> store_error + 'a) \<Rightarrow> 'r list \<Rightarrow> store_error + 'a list" where
  "query_rows alive scan rows = (if \<not> alive then Inl ContextDone else scan_all scan rows)"

definition GetRun :: "bool \<Rightarrow> string \<Rightarrow> DB \<Rightarrow> store_error + Run" where
  "GetRun alive rid db =
     (case query_row alive (\<lambda>r. rr_id r = rid) (db_runs db) of Inl e \<Rightarrow> Inl e | Inr r \<Rightarrow> scanRun r)"

text \<open>
  \<open>ListRuns\<close>: the column is sorted as text, in descending order. SQLite leaves the order of rows
  with equal keys open; here the row that was inserted first comes first.
\<close>

definition order_desc :: "('r \<Rightarrow> string) \<Rightarrow> 'r list \<Rightarrow> 'r list" where
  "order_desc key rows = rev (sort_key key (rev rows))"

definition ListRuns :: "bool \<Rightarrow> int \<Rightarrow> DB \<Rightarrow> store_error + Run list" where
  "ListRuns alive limit db =
     (let limit = (if limit \<le> 0 then 10000 else limit)
      in query_rows alive scanRun (take (nat limit) (order_desc rr_started_at (db_runs db))))"

text \<open>With foreign keys enforced, the deletion of a run deletes its jobs and artifacts.\<close>

definition DeleteRun :: "bool \<Rightarrow> string \<Rightarrow> DB \<Rightarrow> DB wres" where
  "DeleteRun alive rid =
     exec alive (\<lambda>db. Some
       (let db' = db\<lparr>db_runs := delete_where (\<lambda>r. rr_id r = rid) (db_runs db)\<rparr>
        in if db_fk db
           then db'\<lparr>db_run_jobs := delete_where (\<lambda>j. jr_run_id j = rid) (db_run_jobs db),
                    db_artifacts := delete_where (\<lambda>a. ar_run_id a = rid) (db_artifacts db)\<rparr>
           else db'))"

definition RunExists :: "bool \<Rightarrow> string \<Rightarrow> string \<Rightarrow> string \<Rightarrow> DB \<Rightarrow> store_error + bool" where
  "RunExists alive repo sha workflowName db =
     (if \<not> alive then Inl ContextDone
      else Inr (list_ex (\<lambda>r. rr_repo r = repo \<and> rr_sha r = sha \<and> rr_workflow_name r = workflowName \<and>
                             rr_status r \<in> {''queued'', ''running''}) (db_runs db)))"

section \<open>Seen commits\<close>

definition seen_key :: "SeenCommit \<Rightarrow> string \<times> string \<times> string" where
  "seen_key sc = (sc_Repo sc, sc_SHA sc, sc_PrOrBranch sc)"

text \<open>\<open>INSERT OR IGNORE\<close>: a row with the same key stays as it is, without an error.\<close>

definition MarkSeen :: "bool \<Rightarrow> SeenCommit \<Rightarrow> DB \<Rightarrow> DB wres" where
  "MarkSeen alive sc =
     exec alive (\<lambda>db. Some (if has_key seen_key (seen_key sc) (db_seen db) then db
                            else db\<lparr>db_seen := db_seen db @ [sc]\<rparr>))"

definition IsSeen :: "bool \<Rightarrow> string \<Rightarrow> string \<Rightarrow> string \<Rightarrow> DB \<Rightarrow> store_error + bool" where
  "IsSeen alive repo sha prOrBranch db =
     (if \<not> alive then Inl ContextDone else Inr (has_key seen_key (repo, sha, prOrBranch) (db_seen db)))"

section \<open>Users and sessions\<close>

definition CreateUser :: "bool \<Rightarrow> gtime \<Rightarrow> string \<Rightarrow> string \<Rightarrow> string \<Rightarrow> string \<Rightarrow> DB \<Rightarrow> DB wres" where
  "CreateUser alive now uid username passwordHash role =
     exec alive (\<lambda>db.
       if has_key us_ID uid (db_users db) \<or> has_key us_Username username (db_users db) then None
       else Some (db\<lparr>db_users := db_users db @
              [\<lparr>us_ID = uid, us_Username = username, us_PasswordHash = passwordHash, us_Role = role,
                us_CreatedAt = now\<rparr>]\<rparr>))"

text \<open>\<open>scanUser\<close> turns a missing row into a nil user without an error.\<close>

definition query_user :: "bool \<Rightarrow> (User \<Rightarrow> bool) \<Rightarrow> DB \<Rightarrow> store_error + User option" where
  "query_user alive p db = (if \<not> alive then Inl ContextDone else Inr (find p (db_users db)))"

definition GetUserByUsername :: "bool \<Rightarrow> string \<Rightarrow> DB \<Rightarrow> store_error + User option" where
  "GetUserByUsername alive username = query_user alive (\<lambda>u. us_Username u = username)"

definition GetUserByID :: "bool \<Rightarrow> string \<Rightarrow> DB \<Rightarrow> store_error + User option" where
  "GetUserByID alive uid = query_user alive (\<lambda>u. us_ID u = uid)"

definition ListUsers :: "bool \<Rightarrow> DB \<Rightarrow> store_error + User list" where
  "ListUsers alive db = query_rows alive Inr (sort_key us_CreatedAt (db_users db))"

definition DeleteUser :: "bool \<Rightarrow> string \<Rightarrow> DB \<Rightarrow> DB wres" where
  "DeleteUser alive uid =
     exec alive (\<lambda>db. Some
       (let db' = db\<lparr>db_users := delete_where (\<lambda>u. us_ID u = uid) (db_users db)\<rparr>
        in if db_fk db then db'\<lparr>db_sessions := delete_where (\<lambda>s. se_UserID s = uid) (db_sessions db)\<rparr> else db'))"

definition UpdateUserPassword :: "bool \<Rightarrow> string \<Rightarrow> string \<Rightarrow> DB \<Rightarrow> DB wres" where
  "UpdateUserPassword alive uid passwordHash =
     exec alive (\<lambda>db. Some (db\<lparr>db_users :=
       update_where (\<lambda>u. us_ID u = uid) (\<lambda>u. u\<lparr>us_PasswordHash := passwordHash\<rparr>) (db_users db)\<rparr>))"

definition UserCount :: "bool \<Rightarrow> DB \<Rightarrow> store_error + nat" where
  "UserCount alive db = (if \<not> alive then Inl ContextDone else Inr (length (db_users db)))"

definition whole_seconds :: "gtime \<Rightarrow> gtime" where
  "whole_seconds t = t div nanos_per_second * nanos_per_second"

definition CreateSession :: "bool \<Rightarrow> string \<Rightarrow> string \<Rightarrow> gtime \<Rightarrow> DB \<Rightarrow> DB wres" where
  "CreateSession alive token userID expiresAt =
     exec alive (\<lambda>db.
       if has_key se_Token token (db_sessions db) \<or> db_fk db \<and> \<not> has_key us_ID userID (db_users db) then None
       else Some (db\<lparr>db_sessions := db_sessions db @
              [\<lparr>se_Token = token, se_UserID = userID, se_ExpiresAt = whole_seconds expiresAt\<rparr>]\<rparr>))"

text \<open>\<open>GetSession\<close> deletes a session that is past its expiry and returns nil for it.\<close>

definition GetSession :: "bool \<Rightarrow> gtime \<Rightarrow> string \<Rightarrow> DB \<Rightarrow> (store_error + Session option) \<times> DB" where
  "GetSession alive now token db =
     (case query_row alive (\<lambda>s. se_Token s = token) (db_sessions db) of
        Inl NoRows \<Rightarrow> (Inr None, db)
      | Inl e \<Rightarrow> (Inl e, db)
      | Inr sess \<Rightarrow>
          if se_ExpiresAt sess < now
          then (Inr None, snd (exec alive (\<lambda>db. Some (db\<lparr>db_sessions := delete_where (\<lambda>s. se_Token s = token) (db_sessions db)\<rparr>)) db))
          else (Inr (Some sess), db))"

definition DeleteSession :: "bool \<Rightarrow> string \<Rightarrow> DB \<Rightarrow> DB wres" where
  "DeleteSession alive token =
     exec alive (\<lambda>db. Some (db\<lparr>db_sessions := delete_where (\<lambda>s. se_Token s = token) (db_sessions db)\<rparr>))"

section \<open>Workflows and triggers\<close>

definition workflow_to_row :: "jsonlib \<Rightarrow> DBWorkflow \<Rightarrow> workflow_row" where
  "workflow_to_row js w =
     \<lparr>wr_id = dw_ID w, wr_project_name = dw_ProjectName w, wr_name = dw_Name w, wr_path = dw_Path w,
      wr_runner_image = null_if_empty (dw_RunnerImage w), wr_secrets = js_map js (dw_Secrets w),
      wr_env = js_map js (dw_Env w), wr_timeout_minutes = dw_TimeoutMinutes w\<rparr>"

definition insertWorkflow :: "bool \<Rightarrow> jsonlib \<Rightarrow> DBWorkflow \<Rightarrow> DB \<Rightarrow> DB wres" where
  "insertWorkflow alive js w =
     exec alive (\<lambda>db.
       if has_key wr_id (dw_ID w) (db_workflows db) \<or>
          has_key (\<lambda>r. (wr_project_name r, wr_name r)) (dw_ProjectName w, dw_Name w) (db_workflows db) \<or>
          db_fk db \<and> \<not> has_key fst (dw_ProjectName w) (db_projects db)
       then None
       else Some (db\<lparr>db_workflows := db_workflows db @ [workflow_to_row js w]\<rparr>))"

definition CreateWorkflow :: "bool \<Rightarrow> jsonlib \<Rightarrow> string \<Rightarrow> DBWorkflow \<Rightarrow> DB \<Rightarrow> DB wres" where
  "CreateWorkflow alive js newID w =
     insertWorkflow alive js (if dw_ID w = [] then w\<lparr>dw_ID := newID\<rparr> else w)"

definition UpdateWorkflow :: "bool \<Rightarrow> jsonlib \<Rightarrow> DBWorkflow \<Rightarrow> DB \<Rightarrow> DB wres" where
  "UpdateWorkflow alive js w =
     exec alive (\<lambda>db. Some (db\<lparr>db_workflows :=
       update_where (\<lambda>r. wr_project_name r = dw_ProjectName w \<and> wr_name r = dw_Name w)
         (\<lambda>r. r\<lparr>wr_path := dw_Path w, wr_runner_image := null_if_empty (dw_RunnerImage w),
                wr_secrets := js_map js (dw_Secrets w), wr_env := js_map js (dw_Env w),
                wr_timeout_minutes := dw_TimeoutMinutes w\<rparr>) (db_workflows db)\<rparr>))"

definition DeleteWorkflow :: "bool \<Rightarrow> string \<Rightarrow> string \<Rightarrow> DB \<Rightarrow> DB wres" where
  "DeleteWorkflow alive projectName workflowName =
     exec alive (\<lambda>db. Some (db\<lparr>db_workflows :=
       delete_where (\<lambda>r. wr_project_name r = projectName \<and> wr_name r = workflowName) (db_workflows db)\<rparr>))"

definition scanWorkflow :: "jsonlib \<Rightarrow> workflow_row \<Rightarrow> DBWorkflow" where
  "scanWorkflow js r =
     \<lparr>dw_ID = wr_id r, dw_ProjectName = wr_project_name r, dw_Name = wr_name r, dw_Path = wr_path r,
      dw_RunnerImage = coalesce [] (wr_runner_image r), dw_Secrets = coalesce [] (js_unmap js (wr_secrets r)),
      dw_Env = coalesce [] (js_unmap js (wr_env r)), dw_TimeoutMinutes = wr_timeout_minutes r\<rparr>"

definition trigger_to_row :: "jsonlib \<Rightarrow> DBTrigger \<Rightarrow> trigger_row" where
  "trigger_to_row js t =
     \<lparr>tr_id = dt_ID t, tr_project_name = dt_ProjectName t, tr_type = dt_Type t,
      tr_repo = null_if_empty (dt_Repo t), tr_branch = null_if_empty (dt_Branch t),
      tr_pr = null_if_zero (dt_PR t), tr_on_events = js_list js (dt_OnEvents t)\<rparr>"

definition insertTrigger :: "bool \<Rightarrow> jsonlib \<Rightarrow> DBTrigger \<Rightarrow> DB \<Rightarrow> DB wres" where
  "insertTrigger alive js t =
     exec alive (\<lambda>db.
       if has_key tr_id (dt_ID t) (db_triggers db) \<or> db_fk db \<and> \<not> has_key fst (dt_ProjectName t) (db_projects db)
       then None
       else Some (db\<lparr>db_triggers := db_triggers db @ [trigger_to_row js t]\<rparr>))"

definition CreateTrigger :: "bool \<Rightarrow> jsonlib \<Rightarrow> string \<Rightarrow> DBTrigger \<Rightarrow> DB \<Rightarrow> DB wres" where
  "CreateTrigger alive js newID t =
     insertTrigger alive js (if dt_ID t = [] then t\<lparr>dt_ID := newID\<rparr> else t)"

definition UpdateTrigger :: "bool \<Rightarrow> jsonlib \<Rightarrow> DBTrigger \<Rightarrow> DB \<Rightarrow> DB wres" where
  "UpdateTrigger alive js t =
     exec alive (\<lambda>db. Some (db\<lparr>db_triggers :=
       update_where (\<lambda>r. tr_id r = dt_ID t)
         (\<lambda>r. r\<lparr>tr_type := dt_Type t, tr_repo := null_if_empty (dt_Repo t),
                tr_branch := null_if_empty (dt_Branch t), tr_pr := null_if_zero (dt_PR t),
                tr_on_events := js_list js (dt_OnEvents t)\<rparr>) (db_triggers db)\<rparr>))"

definition DeleteTrigger :: "bool \<Rightarrow> string \<Rightarrow> DB \<Rightarrow> DB wres" where
  "DeleteTrigger alive triggerID =
     exec alive (\<lambda>db. Some (db\<lparr>db_triggers := delete_where (\<lambda>r. tr_id r = triggerID) (db_triggers db)\<rparr>))"

definition scanTrigger :: "jsonlib \<Rightarrow> trigger_row \<Rightarrow> DBTrigger" where
  "scanTrigger js r =
     \<lparr>dt_ID = tr_id r, dt_ProjectName = tr_project_name r, dt_Type = tr_type r,
      dt_Repo = coalesce [] (tr_repo r), dt_Branch = coalesce [] (tr_branch r), dt_PR = coalesce 0 (tr_pr r),
      dt_OnEvents = coalesce [''push''] (js_unlist js (tr_on_events r))\<rparr>"

section \<open>Projects\<close>

definition loadProjectWorkflows :: "jsonlib \<Rightarrow> DB \<Rightarrow> string \<Rightarrow> DBWorkflow list" where
  "loadProjectWorkflows js db name =
     map (scanWorkflow js) (sort_key wr_name (filter (\<lambda>r. wr_project_name r = name) (db_workflows db)))"

definition loadProjectTriggers :: "jsonlib \<Rightarrow> DB \<Rightarrow> string \<Rightarrow> DBTrigger list" where
  "loadProjectTriggers js db name =
     map (scanTrigger js) (sort_key tr_id (filter (\<lambda>r. tr_project_name r = name) (db_triggers db)))"

definition load_project :: "jsonlib \<Rightarrow> DB \<Rightarrow> string \<times> string \<Rightarrow> DBProject" where
  "load_project js db row =
     \<lparr>dp_Name = fst row, dp_Description = snd row, dp_Workflows = loadProjectWorkflows js db (fst row),
      dp_Triggers = loadProjectTriggers js db (fst row)\<rparr>"

definition ListProjects :: "bool \<Rightarrow> jsonlib \<Rightarrow> DB \<Rightarrow> store_error + DBProject list" where
  "ListProjects alive js db =
     query_rows alive (\<lambda>row. Inr (load_project js db row)) (sort_key fst (db_projects db))"

definition GetProject :: "bool \<Rightarrow> jsonlib \<Rightarrow> string \<Rightarrow> DB \<Rightarrow> store_error + DBProject" where
  "GetProject alive js name db =
     (case query_row alive (\<lambda>row. fst row = name) (db_projects db) of
        Inl NoRows \<Rightarrow> Inl ProjectNotFound
      | Inl e \<Rightarrow> Inl e
      | Inr row \<Rightarrow> Inr (load_project js db row))"

text \<open>
  The loops of \<open>CreateProject\<close>: \<open>ids k\<close> is the \<open>k\<close>-th identifier that \<open>generateStoreID\<close> returns. An
  error ends the loop and leaves the rows that were inserted before it.
\<close>

fun insert_workflows ::
  "bool \<Rightarrow> jsonlib \<Rightarrow> (nat \<Rightarrow> string) \<Rightarrow> nat \<Rightarrow> string \<Rightarrow> DBWorkflow list \<Rightarrow> DB \<Rightarrow> (nat \<times> DB) wres" where
  "insert_workflows alive js ids k name [] db = (None, k, db)"
| "insert_workflows alive js ids k name (w # ws) db =
     (let w = w\<lparr>dw_ProjectName := name\<rparr>;
          (w, k) = (if dw_ID w = [] then (w\<lparr>dw_ID := ids k\<rparr>, Suc k) else (w, k))
      in case insertWorkflow alive js w db of
           (Some e, db') \<Rightarrow> (Some e, k, db')
         | (None, db') \<Rightarrow> insert_workflows alive js ids k name ws db')"

fun insert_triggers ::
  "bool \<Rightarrow> jsonlib \<Rightarrow> (nat \<Rightarrow> string) \<Rightarrow> nat \<Rightarrow> string \<Rightarrow> DBTrigger list \<Rightarrow> DB \<Rightarrow> (nat \<times> DB) wres" where
  "insert_triggers alive js ids k name [] db = (None, k, db)"
| "insert_triggers alive js ids k name (t # ts) db =
     (let t = t\<lparr>dt_ProjectName := name\<rparr>;
          (t, k) = (if dt_ID t = [] then (t\<lparr>dt_ID := ids k\<rparr>, Suc k) else (t, k))
      in case insertTrigger alive js t db of
           (Some e, db') \<Rightarrow> (Some e, k, db')
         | (None, db') \<Rightarrow> insert_triggers alive js ids k name ts db')"

definition CreateProject :: "bool \<Rightarrow> jsonlib \<Rightarrow> (nat \<Rightarrow> string) \<Rightarrow> DBProject \<Rightarrow> DB \<Rightarrow> DB wres" where
  "CreateProject alive js ids p db =
     (case exec alive (\<lambda>db. if has_key fst (dp_Name p) (db_projects db) then None
                            else Some (db\<lparr>db_projects := db_projects db @ [(dp_Name p, dp_Description p)]\<rparr>)) db of
        (Some e, db1) \<Rightarrow> (Some e, db1)
      | (None, db1) \<Rightarrow>
          (case insert_workflows alive js ids 0 (dp_Name p) (dp_Workflows p) db1 of
             (Some e, _, db2) \<Rightarrow> (Some e, db2)
           | (None, k, db2) \<Rightarrow>
               (case insert_triggers alive js ids k (dp_Name p) (dp_Triggers p) db2 of
                  (e, _, db3) \<Rightarrow> (e, db3))))"

definition UpdateProject :: "bool \<Rightarrow> DBProject \<Rightarrow> DB \<Rightarrow> DB wres" where
  "UpdateProject alive p =
     exec alive (\<lambda>db. Some (db\<lparr>db_projects :=
       update_where (\<lambda>row. fst row = dp_Name p) (\<lambda>row. (fst row, dp_Description p)) (db_projects db)\<rparr>))"

definition DeleteProject :: "bool \<Rightarrow> string \<Rightarrow> DB \<Rightarrow> DB wres" where
  "DeleteProject alive name =
     exec alive (\<lambda>db. Some
       (let db' = db\<lparr>db_projects := delete_where (\<lambda>row. fst row = name) (db_projects db)\<rparr>
        in if db_fk db
           then db'\<lparr>db_workflows := delete_where (\<lambda>r. wr_project_name r = name) (db_workflows db),
                    db_triggers := delete_where (\<lambda>r. tr_project_name r = name) (db_triggers db)\<rparr>
           else db'))"

section \<open>Watches\<close>

definition projectToWatch :: "DBProject \<Rightarrow> DBWatch" where
  "projectToWatch p =
     (let w = \<lparr>dwa_Name = dp_Name p, dwa_Repo = [], dwa_Branch = [], dwa_PR = 0, dwa_OnEvents = [''push''],
               dwa_Workflows = dp_Workflows p\<rparr>
      in case dp_Triggers p of
           [] \<Rightarrow> w
         | t # _ \<Rightarrow>
             w\<lparr>dwa_Repo := dt_Repo t, dwa_Branch := dt_Branch t, dwa_PR := dt_PR t,
               dwa_OnEvents := (if dt_OnEvents t \<noteq> [] then dt_OnEvents t else dwa_OnEvents w)\<rparr>)"

definition watchToProject :: "DBWatch \<Rightarrow> DBProject" where
  "watchToProject w =
     \<lparr>dp_Name = dwa_Name w, dp_Description = [], dp_Workflows = dwa_Workflows w,
      dp_Triggers =
        (if dwa_Repo w \<noteq> [] then
           [\<lparr>dt_ID = [], dt_ProjectName = dwa_Name w,
             dt_Type = (if dwa_PR w \<noteq> 0 then ''pull_request'' else ''push''), dt_Repo = dwa_Repo w,
             dt_Branch = dwa_Branch w, dt_PR = dwa_PR w,
             dt_OnEvents = (if dwa_OnEvents w = [] then [''push''] else dwa_OnEvents w)\<rparr>]
         else [])\<rparr>"

definition ListWatches :: "bool \<Rightarrow> jsonlib \<Rightarrow> DB \<Rightarrow> store_error + DBWatch list" where
  "ListWatches alive js db =
     (case ListProjects alive js db of Inl e \<Rightarrow> Inl e | Inr ps \<Rightarrow> Inr (map projectToWatch ps))"

definition GetWatch :: "bool \<Rightarrow> jsonlib \<Rightarrow> string \<Rightarrow> DB \<Rightarrow> store_error + DBWatch" where
  "GetWatch alive js name db =
     (case GetProject alive js name db of Inl e \<Rightarrow> Inl e | Inr p \<Rightarrow> Inr (projectToWatch p))"

definition CreateWatch :: "bool \<Rightarrow> jsonlib \<Rightarrow> (nat \<Rightarrow> string) \<Rightarrow> DBWatch \<Rightarrow> DB \<Rightarrow> DB wres" where
  "CreateWatch alive js ids w = CreateProject alive js ids (watchToProject w)"

text \<open>
  \<open>UpdateWatch\<close>: the query has no order, so the trigger that it updates is the first row of the
  project. The new row is not checked against the projects' keys unless foreign keys are enforced.
\<close>

definition UpdateWatch :: "bool \<Rightarrow> jsonlib \<Rightarrow> string \<Rightarrow> DBWatch \<Rightarrow> DB \<Rightarrow> DB wres" where
  "UpdateWatch alive js newID w db =
     (let ttyp = (if dwa_PR w \<noteq> 0 then ''pull_request'' else ''push'')
      in case query_row alive (\<lambda>r. tr_project_name r = dwa_Name w) (db_triggers db) of
           Inl NoRows \<Rightarrow>
             exec alive (\<lambda>db.
               if has_key tr_id newID (db_triggers db) \<or> db_fk db \<and> \<not> has_key fst (dwa_Name w) (db_projects db)
               then None
               else Some (db\<lparr>db_triggers := db_triggers db @
                 [\<lparr>tr_id = newID, tr_project_name = dwa_Name w, tr_type = ttyp, tr_repo = Some (dwa_Repo w),
                   tr_branch = null_if_empty (dwa_Branch w), tr_pr = null_if_zero (dwa_PR w),
                   tr_on_events = js_list js (dwa_OnEvents w)\<rparr>]\<rparr>)) db
         | Inl e \<Rightarrow> (Some e, db)
         | Inr row \<Rightarrow>
             exec alive (\<lambda>db. Some (db\<lparr>db_triggers :=
               update_where (\<lambda>r. tr_id r = tr_id row)
                 (\<lambda>r. r\<lparr>tr_type := ttyp, tr_repo := Some (dwa_Repo w), tr_branch := null_if_empty (dwa_Branch w),
                        tr_pr := null_if_zero (dwa_PR w), tr_on_events := js_list js (dwa_OnEvents w)\<rparr>)
                 (db_triggers db)\<rparr>)) db)"

definition DeleteWatch :: "bool \<Rightarrow> string \<Rightarrow> DB \<Rightarrow> DB wres" where
  "DeleteWatch alive name = DeleteProject alive name"

section \<open>Jobs and artifacts of a run\<close>

text \<open>
  \<open>UpsertRunJob\<close>: a row of the same run and job name is updated in place, its identifier included;
  an identifier that another row has is an error.
\<close>

definition run_job_row_of :: "RunJob \<Rightarrow> run_job_row" where
  "run_job_row_of j =
     \<lparr>jr_id = rj_ID j, jr_run_id = rj_RunID j, jr_job_name = rj_JobName j, jr_status = rj_Status j,
      jr_started_at = nullTime (rj_StartedAt j), jr_finished_at = nullTime (rj_FinishedAt j)\<rparr>"

definition job_key :: "run_job_row \<Rightarrow> string \<times> string" where
  "job_key r = (jr_run_id r, jr_job_name r)"

definition UpsertRunJob :: "bool \<Rightarrow> RunJob \<Rightarrow> DB \<Rightarrow> DB wres" where
  "UpsertRunJob alive j =
     exec alive (\<lambda>db.
       let row = run_job_row_of j; rows = db_run_jobs db
       in if list_ex (\<lambda>r. jr_id r = jr_id row \<and> job_key r \<noteq> job_key row) rows then None
          else if has_key job_key (job_key row) rows
          then Some (db\<lparr>db_run_jobs := update_where (\<lambda>r. job_key r = job_key row) (\<lambda>_. row) rows\<rparr>)
          else if db_fk db \<and> \<not> has_key rr_id (rj_RunID j) (db_runs db) then None
          else Some (db\<lparr>db_run_jobs := rows @ [row]\<rparr>))"

definition scanRunJob :: "run_job_row \<Rightarrow> store_error + RunJob" where
  "scanRunJob r =
     (case parse_null_time (jr_started_at r) of
        Inl e \<Rightarrow> Inl e
      | Inr started \<Rightarrow>
          (case parse_null_time (jr_finished_at r) of
             Inl e \<Rightarrow> Inl e
           | Inr finished \<Rightarrow>
               Inr \<lparr>rj_ID = jr_id r, rj_RunID = jr_run_id r, rj_JobName = jr_job_name r,
                    rj_Status = jr_status r, rj_StartedAt = started, rj_FinishedAt = finished\<rparr>))"

definition ListRunJobs :: "bool \<Rightarrow> string \<Rightarrow> DB \<Rightarrow> store_error + RunJob list" where
  "ListRunJobs alive runID db =
     query_rows alive scanRunJob (filter (\<lambda>r. jr_run_id r = runID) (db_run_jobs db))"

definition artifact_key :: "artifact_row \<Rightarrow> string \<times> string" where
  "artifact_key r = (ar_run_id r, ar_filename r)"

definition UpsertArtifact :: "bool \<Rightarrow> string \<Rightarrow> RunArtifact \<Rightarrow> DB \<Rightarrow> DB wres" where
  "UpsertArtifact alive newID a =
     exec alive (\<lambda>db.
       let row = \<lparr>ar_id = (if ra_ID a = [] then newID else ra_ID a), ar_run_id = ra_RunID a,
                  ar_filename = ra_Filename a, ar_size = ra_Size a, ar_sha256 = ra_SHA256 a,
                  ar_created_at = FormatNano (ra_CreatedAt a)\<rparr>; rows = db_artifacts db
       in if list_ex (\<lambda>r. ar_id r = ar_id row \<and> artifact_key r \<noteq> artifact_key row) rows then None
          else if has_key artifact_key (artifact_key row) rows
          then Some (db\<lparr>db_artifacts := update_where (\<lambda>r. artifact_key r = artifact_key row) (\<lambda>_. row) rows\<rparr>)
          else if db_fk db \<and> \<not> has_key rr_id (ra_RunID a) (db_runs db) then None
          else Some (db\<lparr>db_artifacts := rows @ [row]\<rparr>))"

text \<open>A creation time that cannot be parsed reads as the zero time, the year 1.\<close>

definition zero_time :: gtime where
  "zero_time = days_from_civil 1 1 1 * 86400 * nanos_per_second"

definition scanArtifact :: "artifact_row \<Rightarrow> RunArtifact" where
  "scanArtifact r =
     \<lparr>ra_ID = ar_id r, ra_RunID = ar_run_id r, ra_Filename = ar_filename r, ra_Size = ar_size r,
      ra_SHA256 = ar_sha256 r, ra_CreatedAt = coalesce zero_time (ParseNano (ar_created_at r))\<rparr>"

definition ListRunArtifacts :: "bool \<Rightarrow> string \<Rightarrow> DB \<Rightarrow> store_error + RunArtifact list" where
  "ListRunArtifacts alive runID db =
     query_rows alive (\<lambda>r. Inr (scanArtifact r))
       (sort_key ar_filename (filter (\<lambda>r. ar_run_id r = runID) (db_artifacts db)))"

end
