(* ===== verification/Store_Correct.thy ===== *)
theory Store_Correct
  imports Store
begin

text \<open>
  Properties of the store: the keys that the schema declares stay unique and, with foreign keys
  enforced, no row refers to a missing one, under every sequence of operations; what is written is
  read back; and what the deletion of a project leaves behind.
\<close>

section \<open>Invariant\<close>

definition keys_ok :: "DB \<Rightarrow> bool" where
  "keys_ok db =
     (distinct (map rr_id (db_runs db)) \<and> distinct (map seen_key (db_seen db)) \<and>
      distinct (map us_ID (db_users db)) \<and> distinct (map us_Username (db_users db)) \<and>
      distinct (map se_Token (db_sessions db)) \<and> distinct (map fst (db_projects db)) \<and>
      distinct (map wr_id (db_workflows db)) \<and>
      distinct (map (\<lambda>r. (wr_project_name r, wr_name r)) (db_workflows db)) \<and>
      distinct (map tr_id (db_triggers db)) \<and>
      distinct (map jr_id (db_run_jobs db)) \<and> distinct (map job_key (db_run_jobs db)) \<and>
      distinct (map ar_id (db_artifacts db)) \<and> distinct (map artifact_key (db_artifacts db)))"

definition refs_ok :: "DB \<Rightarrow> bool" where
  "refs_ok db =
     (se_UserID ` set (db_sessions db) \<subseteq> us_ID ` set (db_users db) \<and>
      wr_project_name ` set (db_workflows db) \<subseteq> fst ` set (db_projects db) \<and>
      tr_project_name ` set (db_triggers db) \<subseteq> fst ` set (db_projects db) \<and>
      jr_run_id ` set (db_run_jobs db) \<subseteq> rr_id ` set (db_runs db) \<and>
      ar_run_id ` set (db_artifacts db) \<subseteq> rr_id ` set (db_runs db))"

definition db_ok :: "bool \<Rightarrow> DB \<Rightarrow> bool" where
  "db_ok fk db = (db_fk db = fk \<and> keys_ok db \<and> (fk \<longrightarrow> refs_ok db))"

text \<open>The operations that change the database, and their effect.\<close>

datatype store_op =
    OpCreateRun Run
  | OpUpdateRunSHA string string
  | OpUpdateRunStatus string string "int option" "gtime option"
  | OpDeleteRun string
  | OpMarkSeen SeenCommit
  | OpCreateUser gtime string string string string
  | OpDeleteUser string
  | OpUpdateUserPassword string string
  | OpCreateSession string string gtime
  | OpGetSession gtime string
  | OpDeleteSession string
  | OpCreateWorkflow string DBWorkflow
  | OpUpdateWorkflow DBWorkflow
  | OpDeleteWorkflow string string
  | OpCreateTrigger string DBTrigger
  | OpUpdateTrigger DBTrigger
  | OpDeleteTrigger string
  | OpCreateProject "nat \<Rightarrow> string" DBProject
  | OpUpdateProject DBProject
  | OpDeleteProject string
  | OpUpdateWatch string DBWatch
  | OpUpsertRunJob RunJob
  | OpUpsertArtifact string RunArtifact

fun apply_op :: "bool \<Rightarrow> jsonlib \<Rightarrow> store_op \<Rightarrow> DB \<Rightarrow> DB" where
  "apply_op alive js (OpCreateRun r) db = snd (CreateRun alive r db)"
| "apply_op alive js (OpUpdateRunSHA rid sha) db = snd (UpdateRunSHA alive rid sha db)"
| "apply_op alive js (OpUpdateRunStatus rid st ec f) db = snd (UpdateRunStatus alive rid st ec f db)"
| "apply_op alive js (OpDeleteRun rid) db = snd (DeleteRun alive rid db)"
| "apply_op alive js (OpMarkSeen sc) db = snd (MarkSeen alive sc db)"
| "apply_op alive js (OpCreateUser now u n p r) db = snd (CreateUser alive now u n p r db)"
| "apply_op alive js (OpDeleteUser u) db = snd (DeleteUser alive u db)"
| "apply_op alive js (OpUpdateUserPassword u p) db = snd (UpdateUserPassword alive u p db)"
| "apply_op alive js (OpCreateSession t u e) db = snd (CreateSession alive t u e db)"
| "apply_op alive js (OpGetSession now t) db = snd (GetSession alive now t db)"
| "apply_op alive js (OpDeleteSession t) db = snd (DeleteSession alive t db)"
| "apply_op alive js (OpCreateWorkflow i w) db = snd (CreateWorkflow alive js i w db)"
| "apply_op alive js (OpUpdateWorkflow w) db = snd (UpdateWorkflow alive js w db)"
| "apply_op alive js (OpDeleteWorkflow p n) db = snd (DeleteWorkflow alive p n db)"
| "apply_op alive js (OpCreateTrigger i t) db = snd (CreateTrigger alive js i t db)"
| "apply_op alive js (OpUpdateTrigger t) db = snd (UpdateTrigger alive js t db)"
| "apply_op alive js (OpDeleteTrigger i) db = snd (DeleteTrigger alive i db)"
| "apply_op alive js (OpCreateProject ids p) db = snd (CreateProject alive js ids p db)"
| "apply_op alive js (OpUpdateProject p) db = snd (UpdateProject alive p db)"
| "apply_op alive js (OpDeleteProject n) db = snd (DeleteProject alive n db)"
| "apply_op alive js (OpUpdateWatch i w) db = snd (UpdateWatch alive js i w db)"
| "apply_op alive js (OpUpsertRunJob j) db = snd (UpsertRunJob alive j db)"
| "apply_op alive js (OpUpsertArtifact i a) db = snd (UpsertArtifact alive i a db)"

section \<open>Statements keep keys\<close>

lemma has_key_iff: "has_key key k rows \<longleftrightarrow> k \<in> key ` set rows"
  by (auto simp: has_key_def list_ex_iff)

lemma map_key_update [simp]:
  "(\<And>r. p r \<Longrightarrow> key (f r) = key r) \<Longrightarrow> map key (update_where p f rows) = map key rows"
  by (auto simp: update_where_def)

lemma image_key_update:
  "(\<And>r. p r \<Longrightarrow> key (f r) = key r) \<Longrightarrow> key ` set (update_where p f rows) = key ` set rows"
  by (metis image_set map_key_update)

lemma distinct_delete [simp]: "distinct (map key rows) \<Longrightarrow> distinct (map key (delete_where p rows))"
  by (simp add: delete_where_def distinct_map_filter)

lemma set_delete [simp]: "set (delete_where p rows) = {r \<in> set rows. \<not> p r}"
  by (auto simp: delete_where_def)

lemma distinct_insert [simp]:
  "\<not> has_key key (key r) rows \<Longrightarrow> distinct (map key rows) \<Longrightarrow> distinct (map key (rows @ [r]))"
  by (auto simp: has_key_iff)

lemma replace_distinct:
  assumes "distinct (map key rows)" "distinct (map other rows)" "has_key key (key row) rows"
    and "\<not> list_ex (\<lambda>r. other r = other row \<and> key r \<noteq> key row) rows"
  shows "distinct (map other (update_where (\<lambda>r. key r = key row) (\<lambda>_. row) rows))"
  using assms
proof (induction rows)
  case (Cons r rows)
  show ?case
  proof (cases "key r = key row")
    case True
    then have notin: "key row \<notin> key ` set rows"
      using Cons.prems(1) by auto
    then have "other row \<notin> other ` set rows"
      using Cons.prems(4) unfolding list_ex_iff image_iff by (metis list.set_intros(2))
    moreover from notin have "update_where (\<lambda>r. key r = key row) (\<lambda>_. row) rows = rows"
      unfolding update_where_def by (intro map_idI) (metis image_eqI)
    ultimately show ?thesis
      using True Cons.prems(2) by (simp add: update_where_def)
  next
    case False
    with Cons have "distinct (map other (update_where (\<lambda>r. key r = key row) (\<lambda>_. row) rows))"
      by (auto simp: has_key_def)
    with False Cons.prems show ?thesis
      by (auto simp: update_where_def split: if_splits)
  qed
qed (simp add: update_where_def)

lemma exec_ok:
  "db_ok fk db \<Longrightarrow> (\<And>db'. stmt db = Some db' \<Longrightarrow> db_ok fk db') \<Longrightarrow> db_ok fk (snd (exec alive stmt db))"
  by (simp add: exec_def split: option.split)

lemmas db_ok_defs = db_ok_def keys_ok_def refs_ok_def

lemma CreateRun_ok: "db_ok fk db \<Longrightarrow> db_ok fk (snd (CreateRun alive r db))"
  unfolding CreateRun_def
  by (rule exec_ok, assumption) (clarsimp simp: db_ok_defs run_to_row_def has_key_iff subset_insertI2 split: if_splits)

lemma UpdateRunSHA_ok: "db_ok fk db \<Longrightarrow> db_ok fk (snd (UpdateRunSHA alive rid sha db))"
  unfolding UpdateRunSHA_def
  by (rule exec_ok, assumption) (clarsimp simp: db_ok_defs image_key_update)

lemma UpdateRunStatus_ok: "db_ok fk db \<Longrightarrow> db_ok fk (snd (UpdateRunStatus alive rid st ec f db))"
  unfolding UpdateRunStatus_def
  by (rule exec_ok, assumption) (clarsimp simp: db_ok_defs image_key_update)

lemma cascade: "f ` A \<subseteq> g ` B \<Longrightarrow> f ` {x \<in> A. f x \<noteq> k} \<subseteq> g ` {y \<in> B. g y \<noteq> k}"
  by blast

lemma image_filter_subset: "f ` A \<subseteq> S \<Longrightarrow> f ` {x \<in> A. p x} \<subseteq> S"
  by blast

lemma DeleteRun_ok: "db_ok fk db \<Longrightarrow> db_ok fk (snd (DeleteRun alive rid db))"
  unfolding DeleteRun_def
  by (rule exec_ok, assumption) (clarsimp simp: db_ok_defs Let_def cascade split: if_splits)

lemma MarkSeen_ok: "db_ok fk db \<Longrightarrow> db_ok fk (snd (MarkSeen alive sc db))"
  unfolding MarkSeen_def
  by (rule exec_ok, assumption) (clarsimp simp: db_ok_defs has_key_iff split: if_splits)

lemma CreateUser_ok: "db_ok fk db \<Longrightarrow> db_ok fk (snd (CreateUser alive now u n p r db))"
  unfolding CreateUser_def
  by (rule exec_ok, assumption) (clarsimp simp: db_ok_defs has_key_iff subset_insertI2 split: if_splits)

lemma DeleteUser_ok: "db_ok fk db \<Longrightarrow> db_ok fk (snd (DeleteUser alive u db))"
  unfolding DeleteUser_def
  by (rule exec_ok, assumption) (clarsimp simp: db_ok_defs Let_def cascade split: if_splits)

lemma UpdateUserPassword_ok: "db_ok fk db \<Longrightarrow> db_ok fk (snd (UpdateUserPassword alive u p db))"
  unfolding UpdateUserPassword_def
  by (rule exec_ok, assumption) (clarsimp simp: db_ok_defs image_key_update)

lemma CreateSession_ok: "db_ok fk db \<Longrightarrow> db_ok fk (snd (CreateSession alive t u e db))"
  unfolding CreateSession_def
  by (rule exec_ok, assumption) (clarsimp simp: db_ok_defs has_key_iff split: if_splits)

lemma DeleteSession_ok: "db_ok fk db \<Longrightarrow> db_ok fk (snd (DeleteSession alive t db))"
  unfolding DeleteSession_def
  by (rule exec_ok, assumption) (clarsimp simp: db_ok_defs image_filter_subset)

lemma GetSession_ok: "db_ok fk db \<Longrightarrow> db_ok fk (snd (GetSession alive now t db))"
  using DeleteSession_ok[of fk db alive t]
  by (auto simp: GetSession_def DeleteSession_def split: sum.splits store_error.splits)

lemma insertWorkflow_ok: "db_ok fk db \<Longrightarrow> db_ok fk (snd (insertWorkflow alive js w db))"
  unfolding insertWorkflow_def
  by (rule exec_ok, assumption) (clarsimp simp: db_ok_defs workflow_to_row_def has_key_iff split: if_splits)

lemma UpdateWorkflow_ok: "db_ok fk db \<Longrightarrow> db_ok fk (snd (UpdateWorkflow alive js w db))"
  unfolding UpdateWorkflow_def
  by (rule exec_ok, assumption) (clarsimp simp: db_ok_defs image_key_update)

lemma DeleteWorkflow_ok: "db_ok fk db \<Longrightarrow> db_ok fk (snd (DeleteWorkflow alive p n db))"
  unfolding DeleteWorkflow_def
  by (rule exec_ok, assumption) (clarsimp simp: db_ok_defs image_filter_subset)

lemma insertTrigger_ok: "db_ok fk db \<Longrightarrow> db_ok fk (snd (insertTrigger alive js t db))"
  unfolding insertTrigger_def
  by (rule exec_ok, assumption) (clarsimp simp: db_ok_defs trigger_to_row_def has_key_iff split: if_splits)

lemma UpdateTrigger_ok: "db_ok fk db \<Longrightarrow> db_ok fk (snd (UpdateTrigger alive js t db))"
  unfolding UpdateTrigger_def
  by (rule exec_ok, assumption) (clarsimp simp: db_ok_defs image_key_update)

lemma DeleteTrigger_ok: "db_ok fk db \<Longrightarrow> db_ok fk (snd (DeleteTrigger alive i db))"
  unfolding DeleteTrigger_def
  by (rule exec_ok, assumption) (clarsimp simp: db_ok_defs image_filter_subset)

lemma UpdateProject_ok: "db_ok fk db \<Longrightarrow> db_ok fk (snd (UpdateProject alive p db))"
  unfolding UpdateProject_def
  by (rule exec_ok, assumption) (clarsimp simp: db_ok_defs image_key_update)

lemma DeleteProject_ok: "db_ok fk db \<Longrightarrow> db_ok fk (snd (DeleteProject alive n db))"
  unfolding DeleteProject_def
  by (rule exec_ok, assumption) (clarsimp simp: db_ok_defs Let_def cascade split: if_splits)

lemma insert_workflows_ok:
  "db_ok fk db \<Longrightarrow> db_ok fk (snd (snd (insert_workflows alive js ids k name ws db)))"
proof (induction ws arbitrary: k db)
  case (Cons w ws)
  have "db_ok fk db'" if "insertWorkflow alive js v db = (e, db')" for v e db'
    using insertWorkflow_ok[OF Cons.prems, of alive js v] that by simp
  with Cons.IH show ?case
    by (auto simp: Let_def split: prod.splits option.splits)
qed simp

lemma insert_triggers_ok:
  "db_ok fk db \<Longrightarrow> db_ok fk (snd (snd (insert_triggers alive js ids k name ts db)))"
proof (induction ts arbitrary: k db)
  case (Cons t ts)
  have "db_ok fk db'" if "insertTrigger alive js v db = (e, db')" for v e db'
    using insertTrigger_ok[OF Cons.prems, of alive js v] that by simp
  with Cons.IH show ?case
    by (auto simp: Let_def split: prod.splits option.splits)
qed simp

lemma CreateProject_ok:
  assumes "db_ok fk db"
  shows "db_ok fk (snd (CreateProject alive js ids p db))"
proof -
  let ?ins = "\<lambda>db. if has_key fst (dp_Name p) (db_projects db) then None
                   else Some (db\<lparr>db_projects := db_projects db @ [(dp_Name p, dp_Description p)]\<rparr>)"
  have "db_ok fk (snd (exec alive ?ins db))"
    by (rule exec_ok[OF assms])
       (use assms in \<open>clarsimp simp: db_ok_defs has_key_iff subset_insertI2 split: if_splits\<close>)
  then have "db_ok fk db1" if "exec alive ?ins db = (e, db1)" for e db1
    using that by simp
  moreover have "db_ok fk db2" if "insert_workflows alive js ids k name ws db1 = (e, j, db2)" "db_ok fk db1"
    for k name ws db1 e j db2
    using insert_workflows_ok[OF that(2), of alive js ids k name ws] that(1) by simp
  moreover have "db_ok fk db2" if "insert_triggers alive js ids k name ts db1 = (e, j, db2)" "db_ok fk db1"
    for k name ts db1 e j db2
    using insert_triggers_ok[OF that(2), of alive js ids k name ts] that(1) by simp
  ultimately show ?thesis
    unfolding CreateProject_def by (simp split: prod.split option.split)
qed

lemma UpdateWatch_ok:
  assumes "db_ok fk db"
  shows "db_ok fk (snd (UpdateWatch alive js i w db))"
proof -
  have "db_ok fk (snd (exec alive (\<lambda>db.
      if has_key tr_id i (db_triggers db) \<or> db_fk db \<and> \<not> has_key fst (dwa_Name w) (db_projects db) then None
      else Some (db\<lparr>db_triggers := db_triggers db @
        [\<lparr>tr_id = i, tr_project_name = dwa_Name w, tr_type = y, tr_repo = a, tr_branch = b, tr_pr = c,
          tr_on_events = d\<rparr>]\<rparr>)) db))" for y a b c d
    by (rule exec_ok[OF assms]) (use assms in \<open>clarsimp simp: db_ok_defs has_key_iff split: if_splits\<close>)
  moreover have "db_ok fk (snd (exec alive (\<lambda>db. Some (db\<lparr>db_triggers :=
      update_where (\<lambda>r. tr_id r = k)
        (\<lambda>r. r\<lparr>tr_type := y, tr_repo := a, tr_branch := b, tr_pr := c, tr_on_events := d\<rparr>)
        (db_triggers db)\<rparr>)) db))" for k y a b c d
    by (rule exec_ok[OF assms]) (use assms in \<open>clarsimp simp: db_ok_defs image_key_update\<close>)
  ultimately show ?thesis
    unfolding UpdateWatch_def Let_def
    by (auto simp: assms split: sum.split store_error.split)
qed

lemma fresh_other:
  "\<not> list_ex (\<lambda>r. other r = other row \<and> key r \<noteq> key row) rows \<Longrightarrow> \<not> has_key key (key row) rows \<Longrightarrow>
   other row \<notin> other ` set rows"
  unfolding list_ex_iff has_key_iff image_iff by metis

lemma map_key_replace [simp]:
  "map key (update_where (\<lambda>r. key r = key row) (\<lambda>_. row) rows) = map key rows"
  by (auto simp: update_where_def)

lemma image_key_update_subset:
  "key ` set rows \<subseteq> S \<Longrightarrow> key row \<in> S \<Longrightarrow> key ` set (update_where p (\<lambda>_. row) rows) \<subseteq> S"
  by (auto simp: update_where_def)

lemma UpsertRunJob_ok:
  assumes "db_ok fk db"
  shows "db_ok fk (snd (UpsertRunJob alive j db))"
  unfolding UpsertRunJob_def Let_def
proof (rule exec_ok[OF assms])
  fix db'
  let ?row = "run_job_row_of j" and ?rows = "db_run_jobs db"
  assume step: "(if list_ex (\<lambda>r. jr_id r = jr_id ?row \<and> job_key r \<noteq> job_key ?row) ?rows then None
      else if has_key job_key (job_key ?row) ?rows
      then Some (db\<lparr>db_run_jobs := update_where (\<lambda>r. job_key r = job_key ?row) (\<lambda>_. ?row) ?rows\<rparr>)
      else if db_fk db \<and> \<not> has_key rr_id (rj_RunID j) (db_runs db) then None
      else Some (db\<lparr>db_run_jobs := ?rows @ [?row]\<rparr>)) = Some db'"
  have keys: "distinct (map jr_id ?rows)" "distinct (map job_key ?rows)"
    using assms by (simp_all add: db_ok_defs)
  show "db_ok fk db'"
  proof (cases "has_key job_key (job_key ?row) ?rows")
    case True
    have "distinct (map jr_id (update_where (\<lambda>r. job_key r = job_key ?row) (\<lambda>_. ?row) ?rows))"
      using step True keys by (intro replace_distinct) (auto split: if_splits)
    moreover have "db_fk db \<longrightarrow> jr_run_id ?row \<in> rr_id ` set (db_runs db)"
      using True assms by (auto simp: has_key_iff job_key_def db_ok_defs)
    ultimately show ?thesis
      using step True assms
      by (clarsimp simp: db_ok_defs image_key_update_subset split: if_splits)
  next
    case False
    then have "jr_id ?row \<notin> jr_id ` set ?rows"
      using step by (intro fresh_other[where key = job_key]) (auto split: if_splits)
    with False step assms show ?thesis
      by (clarsimp simp: db_ok_defs has_key_iff run_job_row_of_def split: if_splits)
  qed
qed

lemma UpsertArtifact_ok:
  assumes "db_ok fk db"
  shows "db_ok fk (snd (UpsertArtifact alive i a db))"
  unfolding UpsertArtifact_def Let_def
proof (rule exec_ok[OF assms])
  fix db'
  let ?row = "\<lparr>ar_id = (if ra_ID a = [] then i else ra_ID a), ar_run_id = ra_RunID a,
      ar_filename = ra_Filename a, ar_size = ra_Size a, ar_sha256 = ra_SHA256 a,
      ar_created_at = FormatNano (ra_CreatedAt a)\<rparr>"
  let ?rows = "db_artifacts db"
  assume step: "(if list_ex (\<lambda>r. ar_id r = ar_id ?row \<and> artifact_key r \<noteq> artifact_key ?row) ?rows then None
      else if has_key artifact_key (artifact_key ?row) ?rows
      then Some (db\<lparr>db_artifacts := update_where (\<lambda>r. artifact_key r = artifact_key ?row) (\<lambda>_. ?row) ?rows\<rparr>)
      else if db_fk db \<and> \<not> has_key rr_id (ra_RunID a) (db_runs db) then None
      else Some (db\<lparr>db_artifacts := ?rows @ [?row]\<rparr>)) = Some db'"
  define row where "row = ?row"
  note step = step[folded row_def]
  have run: "ar_run_id row = ra_RunID a" by (simp add: row_def)
  have keys: "distinct (map ar_id ?rows)" "distinct (map artifact_key ?rows)"
    using assms by (simp_all add: db_ok_defs)
  show "db_ok fk db'"
  proof (cases "has_key artifact_key (artifact_key row) ?rows")
    case True
    have "distinct (map ar_id (update_where (\<lambda>r. artifact_key r = artifact_key row) (\<lambda>_. row) ?rows))"
      using step True keys by (intro replace_distinct) (auto split: if_splits)
    moreover have "db_fk db \<longrightarrow> ar_run_id row \<in> rr_id ` set (db_runs db)"
      using True assms by (auto simp: has_key_iff artifact_key_def db_ok_defs)
    ultimately show ?thesis
      using step True assms
      by (clarsimp simp: db_ok_defs image_key_update_subset split: if_splits)
  next
    case False
    then have "ar_id row \<notin> ar_id ` set ?rows"
      using step by (intro fresh_other[where key = artifact_key]) (auto split: if_splits)
    with False step assms run show ?thesis
      by (clarsimp simp: db_ok_defs has_key_iff split: if_splits)
  qed
qed

lemmas store_ops_ok = CreateRun_ok UpdateRunSHA_ok UpdateRunStatus_ok DeleteRun_ok MarkSeen_ok
  CreateUser_ok DeleteUser_ok UpdateUserPassword_ok CreateSession_ok GetSession_ok DeleteSession_ok
  insertWorkflow_ok UpdateWorkflow_ok DeleteWorkflow_ok insertTrigger_ok UpdateTrigger_ok
  DeleteTrigger_ok CreateProject_ok UpdateProject_ok DeleteProject_ok UpdateWatch_ok
  UpsertRunJob_ok UpsertArtifact_ok

lemma apply_op_ok: "db_ok fk db \<Longrightarrow> db_ok fk (apply_op alive js op db)"
  by (cases op) (simp_all add: store_ops_ok CreateWorkflow_def CreateTrigger_def)

definition empty_db :: "bool \<Rightarrow> DB" where
  "empty_db fk =
     \<lparr>db_runs = [], db_seen = [], db_users = [], db_sessions = [], db_projects = [], db_workflows = [],
      db_triggers = [], db_run_jobs = [], db_artifacts = [], db_fk = fk\<rparr>"

fun run_ops :: "jsonlib \<Rightarrow> (bool \<times> store_op) list \<Rightarrow> DB \<Rightarrow> DB" where
  "run_ops js [] db = db"
| "run_ops js ((alive, op) # ops) db = run_ops js ops (apply_op alive js op db)"

lemma run_ops_ok: "db_ok fk db \<Longrightarrow> db_ok fk (run_ops js ops db)"
  by (induction js ops db rule: run_ops.induct) (simp_all add: apply_op_ok)


section \<open>Runs read back\<close>

definition time_ok :: "gtime \<Rightarrow> bool" where
  "time_ok t = (0 \<le> year_of t \<and> year_of t < 10000)"

definition run_times_ok :: "Run \<Rightarrow> bool" where
  "run_times_ok r = (time_ok (ru_StartedAt r) \<and> pred_option time_ok (ru_FinishedAt r))"

lemma parse_nullTime: "pred_option time_ok t \<Longrightarrow> parse_null_time (nullTime t) = Inr t"
  by (cases t) (simp_all add: parse_null_time_def nullTime_def time_ok_def Parse_Format)

lemma scanRun_row: "run_times_ok r \<Longrightarrow> scanRun (run_to_row r) = Inr r"
  by (simp add: scanRun_def run_to_row_def run_times_ok_def parse_nullTime time_ok_def Parse_Format)

lemma find_append: "find p (xs @ ys) = (case find p xs of None \<Rightarrow> find p ys | Some x \<Rightarrow> Some x)"
  by (induction xs) auto

lemma find_no_key: "\<not> has_key key k rows \<Longrightarrow> find (\<lambda>r. key r = k) rows = None"
  by (auto simp: has_key_iff find_None_iff image_iff)

lemma find_update:
  "(\<And>r. p r \<Longrightarrow> q (f r) = q r) \<Longrightarrow>
   find q (update_where p f rows) = map_option (\<lambda>r. if p r then f r else r) (find q rows)"
  by (induction rows) (auto simp: update_where_def)

lemma find_holds: "find p xs = Some x \<Longrightarrow> p x"
  by (auto simp: find_Some_iff)

lemma CreateRun_rows:
  "CreateRun alive r db = (None, db') \<Longrightarrow>
   \<not> has_key rr_id (ru_ID r) (db_runs db) \<and> db_runs db' = db_runs db @ [run_to_row r]"
  by (auto simp: CreateRun_def exec_def split: if_splits)

lemma GetRun_created:
  assumes "CreateRun alive r db = (None, db')" "run_times_ok r"
  shows "GetRun True (ru_ID r) db' = Inr r"
proof -
  have "rr_id (run_to_row r) = ru_ID r"
    by (simp add: run_to_row_def)
  then have "find (\<lambda>x. rr_id x = ru_ID r) (db_runs db') = Some (run_to_row r)"
    using CreateRun_rows[OF assms(1)] by (simp add: find_append find_no_key)
  then show ?thesis
    using scanRun_row[OF assms(2)] by (simp add: GetRun_def query_row_def)
qed

text \<open>
  C31. The life of a run is read back from the store: after \<open>CreateRun\<close> the run is returned as it
  was given, after \<open>UpdateRunSHA\<close> and \<open>UpdateRunStatus\<close> with the new commit, status, exit code and
  end, and no other run changes.
\<close>

theorem run_read_back:
  assumes "CreateRun alive r db = (None, db1)" "run_times_ok r" "pred_option time_ok fin"
    and "UpdateRunSHA True (ru_ID r) sha db1 = (None, db2)"
    and "UpdateRunStatus True (ru_ID r) st ec fin db2 = (None, db3)"
  shows "GetRun True (ru_ID r) db1 = Inr r \<and>
    GetRun True (ru_ID r) db3 = Inr (r\<lparr>ru_SHA := sha, ru_Status := st, ru_FinishedAt := fin, ru_ExitCode := ec\<rparr>) \<and>
    (rid = ru_ID r \<or> GetRun True rid db3 = GetRun True rid db)"
proof -
  note rows1 = CreateRun_rows[OF assms(1)]
  have db3: "db_runs db3 =
      update_where (\<lambda>x. rr_id x = ru_ID r)
        (\<lambda>x. x\<lparr>rr_status := st, rr_exit_code := ec, rr_finished_at := nullTime fin\<rparr>)
        (update_where (\<lambda>x. rr_id x = ru_ID r) (\<lambda>x. x\<lparr>rr_sha := sha\<rparr>) (db_runs db1))"
    using assms(4,5) by (auto simp: UpdateRunSHA_def UpdateRunStatus_def exec_def)
  have new: "find (\<lambda>x. rr_id x = ru_ID r) (db_runs db1) = Some (run_to_row r)"
    using rows1 by (simp add: find_append find_no_key run_to_row_def)
  let ?r' = "r\<lparr>ru_SHA := sha, ru_Status := st, ru_FinishedAt := fin, ru_ExitCode := ec\<rparr>"
  have "find (\<lambda>x. rr_id x = ru_ID r) (db_runs db3) = Some (run_to_row ?r')"
    unfolding db3 by (simp add: find_update new) (simp add: run_to_row_def)
  then have "GetRun True (ru_ID r) db3 = Inr ?r'"
    using scanRun_row[of ?r'] assms(2,3) by (simp add: GetRun_def query_row_def run_times_ok_def)
  moreover have "GetRun True (ru_ID r) db1 = Inr r"
    by (rule GetRun_created[OF assms(1,2)])
  moreover have "GetRun True rid db3 = GetRun True rid db" if "rid \<noteq> ru_ID r"
  proof -
    have "find (\<lambda>x. rr_id x = rid) (db_runs db1) = find (\<lambda>x. rr_id x = rid) (db_runs db)"
      using rows1 that by (simp add: find_append run_to_row_def split: option.split)
    then have "find (\<lambda>x. rr_id x = rid) (db_runs db3) = find (\<lambda>x. rr_id x = rid) (db_runs db)"
      unfolding db3 using that
      by (cases "find (\<lambda>x. rr_id x = rid) (db_runs db)") (auto simp: find_update dest: find_holds)
    then show ?thesis by (simp add: GetRun_def query_row_def)
  qed
  ultimately show ?thesis by blast
qed

definition sample_run :: Run where
  "sample_run =
     \<lparr>ru_ID = ''r1'', ru_WatchName = ''w'', ru_Repo = ''o/r'', ru_SHA = ''abc'', ru_WorkflowName = ''ci'',
      ru_Status = RunStatusRunning, ru_StartedAt = sample_time, ru_FinishedAt = None, ru_ExitCode = None,
      ru_LogPath = []\<rparr>"

theorem run_read_back_witness:
  "\<exists>db1 db2 db3.
     CreateRun True sample_run (empty_db False) = (None, db1) \<and>
     UpdateRunSHA True ''r1'' ''def'' db1 = (None, db2) \<and>
     UpdateRunStatus True ''r1'' RunStatusSuccess (Some 0) (Some sample_time) db2 = (None, db3) \<and>
     GetRun True ''r1'' db3 = Inr (sample_run\<lparr>ru_SHA := ''def'', ru_Status := RunStatusSuccess,
       ru_FinishedAt := Some sample_time, ru_ExitCode := Some 0\<rparr>)"
proof -
  obtain db1 where 1: "CreateRun True sample_run (empty_db False) = (None, db1)"
    by (simp add: CreateRun_def exec_def empty_db_def has_key_def)
  obtain db2 where 2: "UpdateRunSHA True (ru_ID sample_run) ''def'' db1 = (None, db2)"
    by (simp add: UpdateRunSHA_def exec_def)
  obtain db3 where 3: "UpdateRunStatus True (ru_ID sample_run) RunStatusSuccess (Some 0) (Some sample_time) db2 = (None, db3)"
    by (simp add: UpdateRunStatus_def exec_def)
  have t: "time_ok sample_time"
    by code_simp
  have "ru_ID sample_run = ''r1''"
    by (simp add: sample_run_def)
  moreover have "run_times_ok sample_run"
    using t by (simp add: run_times_ok_def sample_run_def)
  ultimately show ?thesis
    using run_read_back[OF 1 _ _ 2 3] t 1 2 3 by (metis option.pred_inject(2))
qed

section \<open>Jobs of a run\<close>

definition upsert_job :: "RunJob \<Rightarrow> RunJob list \<Rightarrow> RunJob list" where
  "upsert_job j js =
     (if list_ex (\<lambda>x. rj_JobName x = rj_JobName j) js
      then map (\<lambda>x. if rj_JobName x = rj_JobName j then j else x) js else js @ [j])"

lemma scanRunJob_row:
  "pred_option time_ok (rj_StartedAt j) \<Longrightarrow> pred_option time_ok (rj_FinishedAt j) \<Longrightarrow>
   scanRunJob (run_job_row_of j) = Inr j"
  by (simp add: scanRunJob_def run_job_row_of_def parse_nullTime)

lemma scan_all_append:
  "scan_all scan (xs @ ys) =
     (case scan_all scan xs of
        Inl e \<Rightarrow> Inl e
      | Inr us \<Rightarrow> (case scan_all scan ys of Inl e \<Rightarrow> Inl e | Inr vs \<Rightarrow> Inr (us @ vs)))"
  by (induction xs) (auto split: sum.split)

lemma scan_all_Inr:
  "scan_all scan rows = Inr xs \<longleftrightarrow> list_all2 (\<lambda>r x. scan r = Inr x) rows xs"
proof (induction rows arbitrary: xs)
  case (Cons r rows)
  show ?case
    by (cases xs; cases "scan r"; cases "scan_all scan rows") (auto simp flip: Cons.IH)
qed auto

lemma scanRunJob_fields:
  "scanRunJob r = Inr x \<Longrightarrow> rj_JobName x = jr_job_name r \<and> rj_RunID x = jr_run_id r"
  by (auto simp: scanRunJob_def split: sum.splits)

lemma filter_update_same:
  "jr_run_id row = run \<Longrightarrow>
   filter (\<lambda>r. jr_run_id r = run)
     (update_where (\<lambda>r. jr_run_id r = run \<and> jr_job_name r = nm) (\<lambda>_. row) rows) =
   map (\<lambda>r. if jr_job_name r = nm then row else r) (filter (\<lambda>r. jr_run_id r = run) rows)"
  by (induction rows) (auto simp: update_where_def)

lemma filter_update_other:
  "jr_run_id row = run \<Longrightarrow> run' \<noteq> run \<Longrightarrow>
   filter (\<lambda>r. jr_run_id r = run')
     (update_where (\<lambda>r. jr_run_id r = run \<and> jr_job_name r = nm) (\<lambda>_. row) rows) =
   filter (\<lambda>r. jr_run_id r = run') rows"
  by (induction rows) (auto simp: update_where_def)

text \<open>
  \<open>UpsertRunJob\<close> keeps one entry per job: in the list of the run's jobs it replaces the entry of
  the same name where it stands, or appends the job when there is none, and the jobs of other runs
  stay as they are.
\<close>

lemma UpsertRunJob_lists:
  assumes "UpsertRunJob alive j db = (None, db')" "ListRunJobs True (rj_RunID j) db = Inr js"
    and "pred_option time_ok (rj_StartedAt j)" "pred_option time_ok (rj_FinishedAt j)"
  shows "ListRunJobs True (rj_RunID j) db' = Inr (upsert_job j js) \<and>
    (run = rj_RunID j \<or> ListRunJobs True run db' = ListRunJobs True run db)"
proof -
  let ?row = "run_job_row_of j" and ?rows = "db_run_jobs db"
  let ?mine = "filter (\<lambda>r. jr_run_id r = rj_RunID j)"
  have key: "job_key r = job_key ?row \<longleftrightarrow> jr_run_id r = rj_RunID j \<and> jr_job_name r = rj_JobName j" for r
    by (auto simp: job_key_def run_job_row_of_def)
  have rid: "jr_run_id ?row = rj_RunID j"
    by (simp add: run_job_row_of_def)
  have old: "list_all2 (\<lambda>r x. scanRunJob r = Inr x) (?mine ?rows) js"
    using assms(2) by (simp add: ListRunJobs_def query_rows_def scan_all_Inr)
  have jj: "scanRunJob ?row = Inr j"
    by (rule scanRunJob_row[OF assms(3,4)])
  have has: "has_key job_key (job_key ?row) ?rows \<longleftrightarrow> list_ex (\<lambda>x. rj_JobName x = rj_JobName j) js"
  proof -
    have "list_ex (\<lambda>r. jr_job_name r = rj_JobName j) (?mine ?rows) \<longleftrightarrow> list_ex (\<lambda>x. rj_JobName x = rj_JobName j) js"
      using old by (induction rule: list_all2_induct) (auto dest: scanRunJob_fields)
    then show ?thesis
      by (simp add: has_key_def key list_ex_iff) blast
  qed
  consider (upd) "has_key job_key (job_key ?row) ?rows"
      "db_run_jobs db' = update_where (\<lambda>r. job_key r = job_key ?row) (\<lambda>_. ?row) ?rows"
    | (ins) "\<not> has_key job_key (job_key ?row) ?rows" "db_run_jobs db' = ?rows @ [?row]"
    using assms(1) by (auto simp: UpsertRunJob_def exec_def Let_def split: if_splits)
  then show ?thesis
  proof cases
    case upd
    have "list_all2 (\<lambda>r x. scanRunJob r = Inr x)
        (map (\<lambda>r. if jr_job_name r = rj_JobName j then ?row else r) (?mine ?rows))
        (map (\<lambda>x. if rj_JobName x = rj_JobName j then j else x) js)"
      using old by (induction rule: list_all2_induct) (auto simp: jj dest: scanRunJob_fields)
    moreover have "?mine (db_run_jobs db') = map (\<lambda>r. if jr_job_name r = rj_JobName j then ?row else r) (?mine ?rows)"
      unfolding upd(2) key by (rule filter_update_same[OF rid])
    moreover have "filter (\<lambda>r. jr_run_id r = run) (db_run_jobs db') = filter (\<lambda>r. jr_run_id r = run) ?rows"
      if "run \<noteq> rj_RunID j"
      unfolding upd(2) key by (rule filter_update_other[OF rid that])
    ultimately show ?thesis
      using upd(1) has
      by (cases "run = rj_RunID j") (auto simp: ListRunJobs_def query_rows_def scan_all_Inr upsert_job_def)
  next
    case ins
    then show ?thesis
      using old jj has
      by (auto simp: ListRunJobs_def query_rows_def scan_all_Inr upsert_job_def run_job_row_of_def
          intro!: list_all2_appendI)
  qed
qed

definition sample_job :: "string \<Rightarrow> string \<Rightarrow> RunJob" where
  "sample_job jid status =
     \<lparr>rj_ID = jid, rj_RunID = ''r1'', rj_JobName = ''build'', rj_Status = status, rj_StartedAt = None,
      rj_FinishedAt = None\<rparr>"

definition sample_jobs_db :: DB where
  "sample_jobs_db = (empty_db False)\<lparr>db_run_jobs := [run_job_row_of (sample_job ''a'' ''running'')]\<rparr>"

lemma UpsertRunJob_lists_witness:
  "\<exists>db'. UpsertRunJob True (sample_job ''b'' ''success'') sample_jobs_db = (None, db') \<and>
     ListRunJobs True ''r1'' db' = Inr [sample_job ''b'' ''success'']"
proof -
  have run: "rj_RunID (sample_job jid st) = ''r1''" for jid st
    by (simp add: sample_job_def)
  obtain db' where up: "UpsertRunJob True (sample_job ''b'' ''success'') sample_jobs_db = (None, db')"
    by (simp add: UpsertRunJob_def exec_def Let_def sample_jobs_db_def sample_job_def run_job_row_of_def
        job_key_def has_key_def)
  have "ListRunJobs True (rj_RunID (sample_job ''b'' ''success'')) sample_jobs_db = Inr [sample_job ''a'' ''running'']"
    by (simp add: ListRunJobs_def query_rows_def sample_jobs_db_def sample_job_def run_job_row_of_def
        scanRunJob_def parse_null_time_def nullTime_def)
  from UpsertRunJob_lists[OF up this, of "''r1''"] up show ?thesis
    by (simp add: run) (simp add: sample_job_def upsert_job_def)
qed

section \<open>Sessions\<close>

text \<open>
  A session opens the store exactly until its expiry: after \<open>CreateSession\<close>, \<open>GetSession\<close> returns
  the session of the token when the clock has not passed the whole second of the expiry, and behind
  it returns nil and removes the session; sessions of other tokens are not touched.
\<close>

lemma GetSession_expiry:
  assumes "CreateSession alive token userID expiresAt db = (None, db1)"
    and "GetSession True now token db1 = (res, db2)"
  shows "res = Inr (if now \<le> whole_seconds expiresAt
                    then Some \<lparr>se_Token = token, se_UserID = userID, se_ExpiresAt = whole_seconds expiresAt\<rparr>
                    else None) \<and>
    has_key se_Token token (db_sessions db2) = (now \<le> whole_seconds expiresAt) \<and>
    filter (\<lambda>s. se_Token s \<noteq> token) (db_sessions db2) = filter (\<lambda>s. se_Token s \<noteq> token) (db_sessions db)"
proof -
  let ?s = "\<lparr>se_Token = token, se_UserID = userID, se_ExpiresAt = whole_seconds expiresAt\<rparr>"
  have new: "\<not> has_key se_Token token (db_sessions db)" "db_sessions db1 = db_sessions db @ [?s]"
    using assms(1) by (auto simp: CreateSession_def exec_def split: if_splits)
  then have "find (\<lambda>s. se_Token s = token) (db_sessions db1) = Some ?s"
    by (simp add: find_append find_no_key)
  then show ?thesis
    using assms(2) new
    by (auto simp: GetSession_def query_row_def exec_def has_key_iff delete_where_def split: if_splits)
qed

lemma GetSession_expiry_witness:
  "\<exists>db1 res db2. CreateSession True ''t'' ''u'' 5000000000 (empty_db False) = (None, db1) \<and>
     GetSession True 6000000000 ''t'' db1 = (res, db2) \<and> res = Inr None"
proof -
  obtain db1 where 1: "CreateSession True ''t'' ''u'' 5000000000 (empty_db False) = (None, db1)"
    by (simp add: CreateSession_def exec_def empty_db_def has_key_def)
  obtain res db2 where 2: "GetSession True 6000000000 ''t'' db1 = (res, db2)"
    by fastforce
  have "\<not> 6000000000 \<le> whole_seconds 5000000000"
    by (simp add: whole_seconds_def nanos_per_second_def)
  then show ?thesis
    using GetSession_expiry[OF 1 2] 1 2 by auto
qed

section \<open>Projects\<close>

text \<open>
  The deletion of a project removes its workflows and triggers only when the connection enforces
  foreign keys; otherwise they stay, and a project that is created later under the name has them.
\<close>

lemma DeleteProject_children:
  "loadProjectWorkflows js (snd (DeleteProject True name db)) name =
     (if db_fk db then [] else loadProjectWorkflows js db name) \<and>
   loadProjectTriggers js (snd (DeleteProject True name db)) name =
     (if db_fk db then [] else loadProjectTriggers js db name) \<and>
   GetProject True js name (snd (DeleteProject True name db)) = Inl ProjectNotFound"
proof -
  have "find (\<lambda>row. fst row = name) (delete_where (\<lambda>row. fst row = name) rows) = None"
    for rows :: "(string \<times> string) list"
    by (simp add: find_None_iff)
  then show ?thesis
    by (simp add: DeleteProject_def exec_def Let_def loadProjectWorkflows_def loadProjectTriggers_def
        GetProject_def query_row_def delete_where_def)
qed

definition bare_workflow :: "string \<Rightarrow> DBWorkflow" where
  "bare_workflow name =
     \<lparr>dw_ID = [], dw_ProjectName = [], dw_Name = name, dw_Path = [], dw_RunnerImage = [], dw_Secrets = [],
      dw_Env = [], dw_TimeoutMinutes = 0\<rparr>"

text \<open>
  \<open>CreateProject\<close> is not atomic: when a workflow cannot be inserted, here the second of two with
  the same name, it returns the error and the project and the first workflow stay in the store.
\<close>

lemma CreateProject_partial:
  "\<exists>p db'. CreateProject True js (\<lambda>k. [char_of (65 + k)]) p (empty_db fk) = (Some ConstraintFailed, db') \<and>
     has_key fst (dp_Name p) (db_projects db') \<and> length (db_workflows db') = 1"
proof -
  let ?p = "\<lparr>dp_Name = ''p'', dp_Description = [], dp_Workflows = [bare_workflow ''w'', bare_workflow ''w''],
    dp_Triggers = []\<rparr>"
  show ?thesis
    by (rule exI[of _ ?p])
       (simp add: CreateProject_def exec_def empty_db_def has_key_def insertWorkflow_def workflow_to_row_def
        bare_workflow_def Let_def)
qed

text \<open>\<open>GetWatch\<close> after \<open>CreateWatch\<close>.\<close>

lemma insert_triggers_one:
  assumes "insert_triggers alive js ids k name [t] db = (None, k', db')"
  shows "db_triggers db' = db_triggers db @
      [trigger_to_row js (t\<lparr>dt_ProjectName := name, dt_ID := (if dt_ID t = [] then ids k else dt_ID t)\<rparr>)] \<and>
    db_projects db' = db_projects db \<and> db_workflows db' = db_workflows db"
  using assms
  by (auto simp: insertTrigger_def exec_def Let_def trigger_to_row_def split: if_splits prod.splits option.splits)

lemma insert_workflows_others:
  "insert_workflows alive js ids k name ws db = (None, k', db') \<Longrightarrow>
   db_triggers db' = db_triggers db \<and> db_projects db' = db_projects db \<and> db_fk db' = db_fk db"
proof (induction ws arbitrary: k db)
  case (Cons w ws)
  have ins: "db_triggers d = db_triggers db \<and> db_projects d = db_projects db \<and> db_fk d = db_fk db"
    if "insertWorkflow alive js v db = (None, d)" for v d
    using that by (auto simp: insertWorkflow_def exec_def split: if_splits)
  from Cons.prems obtain v d j where "insertWorkflow alive js v db = (None, d)"
    "insert_workflows alive js ids j name ws d = (None, k', db')"
    by (auto simp: Let_def split: prod.splits option.splits)
  with Cons.IH ins show ?case by metis
qed simp

text \<open>
  A watch is read back from its project: when the store holds no triggers under the name, then
  after \<open>CreateWatch\<close>, \<open>GetWatch\<close> returns the repository, branch, pull request and events of the
  watch, with the events defaulting to a push. The JSON codec is required to read what it wrote.
\<close>

lemma CreateWatch_GetWatch:
  assumes codec: "\<And>xs. js_unlist js (js_list js xs) = Some xs"
    and fresh: "\<not> has_key tr_project_name (dwa_Name w) (db_triggers db)"
    and repo: "dwa_Repo w \<noteq> []"
    and created: "CreateWatch True js ids w db = (None, db')"
  shows "\<exists>w'. GetWatch True js (dwa_Name w) db' = Inr w' \<and> dwa_Name w' = dwa_Name w \<and>
    dwa_Repo w' = dwa_Repo w \<and> dwa_Branch w' = dwa_Branch w \<and> dwa_PR w' = dwa_PR w \<and>
    dwa_OnEvents w' = (if dwa_OnEvents w = [] then [''push''] else dwa_OnEvents w)"
proof -
  let ?p = "watchToProject w"
  let ?t = "hd (dp_Triggers ?p)"
  have trigs: "dp_Triggers ?p = [?t]" "dt_ID ?t = []" and name: "dp_Name ?p = dwa_Name w" "dp_Description ?p = []"
    using repo by (simp_all add: watchToProject_def)
  define db1 where "db1 = db\<lparr>db_projects := db_projects db @ [(dwa_Name w, [])]\<rparr>"
  have free: "\<not> has_key fst (dwa_Name w) (db_projects db)"
    using created unfolding CreateWatch_def CreateProject_def name by (auto simp: exec_def split: if_splits)
  then have rest: "(case insert_workflows True js ids 0 (dwa_Name w) (dp_Workflows ?p) db1 of
             (Some e, _, db2) \<Rightarrow> (Some e, db2)
           | (None, k, db2) \<Rightarrow>
               (case insert_triggers True js ids k (dwa_Name w) (dp_Triggers ?p) db2 of (e, _, db3) \<Rightarrow> (e, db3))) = (None, db')"
    using created unfolding CreateWatch_def CreateProject_def name db1_def by (simp add: exec_def)
  have db1: "db_triggers db1 = db_triggers db" "db_projects db1 = db_projects db @ [(dwa_Name w, [])]"
    by (simp_all add: db1_def)
  from rest obtain k db2 j where ws: "insert_workflows True js ids 0 (dwa_Name w) (dp_Workflows ?p) db1 = (None, k, db2)"
    and ts: "insert_triggers True js ids k (dwa_Name w) [?t] db2 = (None, j, db')"
    using trigs(1) by (auto split: prod.splits option.splits)
  note mid = insert_workflows_others[OF ws] and fin = insert_triggers_one[OF ts]
  have row: "find (\<lambda>row. fst row = dwa_Name w) (db_projects db') = Some (dwa_Name w, [])"
    using fin mid db1 free by (simp add: find_append find_no_key)
  have "filter (\<lambda>r. tr_project_name r = dwa_Name w) (db_triggers db) = []"
    using fresh by (force simp: has_key_def filter_empty_conv list_ex_iff)
  then have "loadProjectTriggers js db' (dwa_Name w) =
      [scanTrigger js (trigger_to_row js (?t\<lparr>dt_ProjectName := dwa_Name w, dt_ID := ids k\<rparr>))]"
    using fin mid db1 trigs by (simp add: loadProjectTriggers_def trigger_to_row_def)
  then show ?thesis
    using row repo codec
    by (auto simp: GetWatch_def GetProject_def query_row_def load_project_def projectToWatch_def
        watchToProject_def scanTrigger_def trigger_to_row_def null_if_empty_def null_if_zero_def coalesce_def Let_def)
qed

text \<open>A codec that reads what it wrote: each character behind a mark, each string with an end mark.\<close>

fun decode_list :: "string \<Rightarrow> string list" where
  "decode_list [] = []"
| "decode_list (m # s) =
     (if m = CHR ''e'' then [] # decode_list s
      else (case s of
              [] \<Rightarrow> []
            | c # s' \<Rightarrow> (case decode_list s' of [] \<Rightarrow> [[c]] | x # xs \<Rightarrow> (c # x) # xs)))"

definition encode_string :: "string \<Rightarrow> string" where
  "encode_string x = concat (map (\<lambda>c. [CHR ''c'', c]) x) @ ''e''"

definition list_codec :: jsonlib where
  "list_codec =
     \<lparr>js_map = (\<lambda>_. []), js_unmap = (\<lambda>_. Some []), js_list = (\<lambda>xs. concat (map encode_string xs)),
      js_unlist = (\<lambda>s. Some (decode_list s))\<rparr>"

lemma decode_encode_string: "decode_list (encode_string x @ s) = x # decode_list s"
  by (induction x) (simp_all add: encode_string_def)

lemma list_codec_ok: "js_unlist list_codec (js_list list_codec xs) = Some xs"
  by (induction xs) (simp_all add: list_codec_def decode_encode_string)

definition sample_watch :: DBWatch where
  "sample_watch =
     \<lparr>dwa_Name = ''w'', dwa_Repo = ''o/r'', dwa_Branch = ''main'', dwa_PR = 0, dwa_OnEvents = [],
      dwa_Workflows = []\<rparr>"

lemma CreateWatch_GetWatch_witness:
  "\<exists>db' w'. CreateWatch True list_codec (\<lambda>_. ''i'') sample_watch (empty_db True) = (None, db') \<and>
     GetWatch True list_codec ''w'' db' = Inr w' \<and> dwa_Repo w' = ''o/r'' \<and> dwa_OnEvents w' = [''push'']"
proof -
  obtain db' where c: "CreateWatch True list_codec (\<lambda>_. ''i'') sample_watch (empty_db True) = (None, db')"
    by (simp add: CreateWatch_def CreateProject_def exec_def empty_db_def has_key_def insertTrigger_def
        watchToProject_def sample_watch_def Let_def)
  have w: "dwa_Name sample_watch = ''w''" "dwa_Repo sample_watch = ''o/r''" "dwa_OnEvents sample_watch = []"
    by (simp_all add: sample_watch_def)
  have "\<not> has_key tr_project_name (dwa_Name sample_watch) (db_triggers (empty_db True))"
    by (simp add: has_key_def empty_db_def)
  from CreateWatch_GetWatch[OF list_codec_ok this _ c] c w show ?thesis
    by auto
qed

section \<open>The interface of seen commits\<close>

text \<open>
  What the poller relies on: a set of keys \<open>seen\<close>, a query that returns membership, and an operation
  that adds a key. An operation that fails leaves the set as it is, and none fails in a context
  that is not done.
\<close>

locale seen_store =
  fixes isSeen :: "bool \<Rightarrow> string \<Rightarrow> string \<Rightarrow> string \<Rightarrow> 's \<Rightarrow> 'e + bool"
    and markSeen :: "bool \<Rightarrow> SeenCommit \<Rightarrow> 's \<Rightarrow> 'e option \<times> 's"
    and seen :: "'s \<Rightarrow> (string \<times> string \<times> string) set"
  assumes isSeen_sound: "isSeen alive repo sha prb s = Inr b \<Longrightarrow> b = ((repo, sha, prb) \<in> seen s)"
    and isSeen_alive: "\<exists>b. isSeen True repo sha prb s = Inr b"
    and markSeen_sound: "markSeen alive sc s = (None, s') \<Longrightarrow> seen s' = insert (seen_key sc) (seen s)"
    and markSeen_error: "markSeen alive sc s = (Some e, s') \<Longrightarrow> s' = s"
    and markSeen_alive: "fst (markSeen True sc s) = None"

definition seen_keys :: "DB \<Rightarrow> (string \<times> string \<times> string) set" where
  "seen_keys db = seen_key ` set (db_seen db)"

interpretation sqlite: seen_store IsSeen MarkSeen seen_keys
  by unfold_locales
     (auto simp: IsSeen_def MarkSeen_def exec_def seen_keys_def has_key_iff split: if_splits)

end
