(* ===== verification/Store_Open.thy ===== *)
theory Store_Open
  imports Go_Prelude "HOL-Library.List_Lexorder" "HOL-Library.Char_ord"
begin

text \<open>
  The opening of the store (\<open>Open\<close> in \<open>internal/store/store.go\<close>) and the migrations of its schema
  (\<open>internal/store/migrations.go\<close>). The table \<open>schema_migrations\<close> is the list of its file names, or missing; what the scripts
  of the schema do to the rest of the database is the parameter \<open>script\<close>, whose first component says whether the script succeeded.
  \<open>up k\<close> says that the \<open>k\<close>-th statement reaches the database, and \<open>files\<close> are the embedded files, read without errors.
\<close>

record 'd migration_db =
  mg_table :: "string list option"
  mg_data :: 'd

datatype migration_error = CreateMigrations | CheckMigration string | ApplyMigration string | RecordMigration string

text \<open>The names that the table has.\<close>

definition applied :: "'d migration_db \<Rightarrow> string list" where
  "applied db = (case mg_table db of None \<Rightarrow> [] | Some names \<Rightarrow> names)"

text \<open>The loop over the sorted files, from the statement \<open>k\<close>.\<close>

fun apply_files ::
  "(string \<Rightarrow> 'd \<Rightarrow> bool \<times> 'd) \<Rightarrow> (nat \<Rightarrow> bool) \<Rightarrow> nat \<Rightarrow> string gomap \<Rightarrow> 'd migration_db \<Rightarrow>
   migration_error option \<times> 'd migration_db" where
  "apply_files script up k [] db = (None, db)"
| "apply_files script up k ((name, content) # fs) db =
     (if \<not> up k then (Some (CheckMigration name), db)
      else if name \<in> set (applied db) then apply_files script up (Suc k) fs db
      else if \<not> up (k + 1) then (Some (ApplyMigration name), db)
      else (case script content (mg_data db) of
              (False, d) \<Rightarrow> (Some (ApplyMigration name), db\<lparr>mg_data := d\<rparr>)
            | (True, d) \<Rightarrow>
                (let db1 = db\<lparr>mg_data := d\<rparr>
                 in if \<not> up (k + 2) then (Some (RecordMigration name), db1)
                    else apply_files script up (k + 3) fs (db1\<lparr>mg_table := Some (applied db1 @ [name])\<rparr>))))"

definition applyMigrations ::
  "(string \<Rightarrow> 'd \<Rightarrow> bool \<times> 'd) \<Rightarrow> (nat \<Rightarrow> bool) \<Rightarrow> string gomap \<Rightarrow> 'd migration_db \<Rightarrow> migration_error option \<times> 'd migration_db" where
  "applyMigrations script up files db =
     (if \<not> up 0 then (Some CreateMigrations, db)
      else apply_files script up 1 (sort_key fst files) (db\<lparr>mg_table := Some (applied db)\<rparr>))"

text \<open>The name of the data source.\<close>

definition dsn :: "string \<Rightarrow> string" where
  "dsn path =
     path @ (if path \<noteq> [] \<and> last path \<noteq> CHR ''?'' \<and> CHR ''?'' \<in> set path then ''&'' else ''?'') @
     ''_journal_mode=WAL&_foreign_keys=on&_busy_timeout=5000''"

datatype open_error = OpenSqlite | Migrations migration_error

definition Open ::
  "(string \<Rightarrow> 'd migration_db option) \<Rightarrow> (string \<Rightarrow> 'd \<Rightarrow> bool \<times> 'd) \<Rightarrow> (nat \<Rightarrow> bool) \<Rightarrow> string gomap \<Rightarrow> string \<Rightarrow>
   open_error + 'd migration_db" where
  "Open connect script up files path =
     (case connect (dsn path) of
        None \<Rightarrow> Inl OpenSqlite
      | Some db \<Rightarrow> (case applyMigrations script up files db of (Some e, _) \<Rightarrow> Inl (Migrations e) | (None, db') \<Rightarrow> Inr db'))"

section \<open>Each script once\<close>

text \<open>The scripts that are still to run, in the order of their names.\<close>

definition pending :: "string gomap \<Rightarrow> 'd migration_db \<Rightarrow> string gomap" where
  "pending fs db = filter (\<lambda>(name, _). name \<notin> set (applied db)) fs"

definition run_scripts :: "(string \<Rightarrow> 'd \<Rightarrow> bool \<times> 'd) \<Rightarrow> string gomap \<Rightarrow> 'd \<Rightarrow> 'd" where
  "run_scripts script fs d = fold (\<lambda>(_, content) d. snd (script content d)) fs d"

lemma apply_files_done:
  assumes "apply_files script up k fs db = (None, db')" "distinct (map fst fs)" "mg_table db \<noteq> None"
  shows "mg_data db' = run_scripts script (pending fs db) (mg_data db) \<and>
    mg_table db' = Some (applied db @ map fst (pending fs db))"
  using assms
proof (induction script up k fs db rule: apply_files.induct)
  case (2 script up k name content fs db)
  show ?case
  proof (cases "name \<in> set (applied db)")
    case True
    with 2 show ?thesis by (auto simp: pending_def split: if_splits)
  next
    case False
    obtain d where d: "script content (mg_data db) = (True, d)" and up: "up k" "up (k + 1)" "up (k + 2)"
      using 2(3) False by (auto simp: Let_def split: if_splits prod.splits bool.splits)
    let ?db1 = "db\<lparr>mg_data := d\<rparr>"
    let ?db2 = "?db1\<lparr>mg_table := Some (applied ?db1 @ [name])\<rparr>"
    have rest: "apply_files script up (k + 3) fs ?db2 = (None, db')"
      using 2(3) False d up by (simp add: Let_def)
    have app: "applied ?db2 = applied db @ [name]" by (simp add: applied_def)
    have "name \<notin> fst ` set fs" using 2(4) by simp
    then have pend: "pending fs ?db2 = pending fs db"
      unfolding pending_def app by (intro filter_cong) force+
    have "mg_data db' = run_scripts script (pending fs ?db2) (mg_data ?db2) \<and>
        mg_table db' = Some (applied ?db2 @ map fst (pending fs ?db2))"
      using 2(2) [OF _ False _ d [symmetric] refl refl _ rest] up 2(4) by simp
    then show ?thesis
      using False d unfolding pend app by (simp add: pending_def run_scripts_def)
  qed
qed (auto simp: pending_def run_scripts_def applied_def)

lemma apply_files_idle:
  "fst ` set fs \<subseteq> set (applied db) \<Longrightarrow> (\<forall>k. up k) \<Longrightarrow> apply_files script up k fs db = (None, db)"
  by (induction script up k fs db rule: apply_files.induct) auto

text \<open>
  C32. When the migrations succeed, the scripts that the table did not name have run, each once and in the order of their names, and the
  table names all of them; opening the store again then runs no script and changes nothing.
\<close>

theorem applyMigrations_once:
  assumes "applyMigrations script up files db = (None, db')" "distinct (map fst files)"
  shows "mg_data db' = run_scripts script (pending (sort_key fst files) db) (mg_data db) \<and>
    mg_table db' = Some (applied db @ map fst (pending (sort_key fst files) db)) \<and>
    fst ` set files \<subseteq> set (applied db') \<and> applyMigrations script (\<lambda>_. True) files db' = (None, db')"
proof -
  let ?db = "db\<lparr>mg_table := Some (applied db)\<rparr>"
  have a: "apply_files script up 1 (sort_key fst files) ?db = (None, db')"
    using assms(1) by (auto simp: applyMigrations_def split: if_splits)
  have "distinct (map fst (sort_key fst files))"
    using assms(2) by (simp add: distinct_map)
  from apply_files_done [OF a this] have d: "mg_data db' = run_scripts script (pending (sort_key fst files) ?db) (mg_data db)"
    "mg_table db' = Some (applied ?db @ map fst (pending (sort_key fst files) ?db))" by simp_all
  have same: "applied ?db = applied db" "pending fs ?db = pending fs db" for fs by (simp_all add: applied_def pending_def)
  have all: "fst ` set files \<subseteq> set (applied db')"
    using d(2) by (force simp: applied_def pending_def image_iff)
  moreover have "db'\<lparr>mg_table := Some (applied db')\<rparr> = db'" using d(2) by (simp add: applied_def)
  ultimately show ?thesis
    using d apply_files_idle [of "sort_key fst files" db' "\<lambda>_. True" script 1] by (simp add: same applyMigrations_def)
qed

theorem applyMigrations_once_witness:
  "mg_data (snd (applyMigrations (\<lambda>c d. (True, d @ [c])) (\<lambda>_. True) [(''002.sql'', ''b''), (''001.sql'', ''a''), (''000.sql'', ''z'')]
      \<lparr>mg_table = Some [''000.sql''], mg_data = [''z'']\<rparr>)) = [''z'', ''a'', ''b'']"
proof -
  let ?script = "\<lambda>c d. (True, d @ [c])" and ?files = "[(''002.sql'', ''b''), (''001.sql'', ''a''), (''000.sql'', ''z'')]"
  let ?db = "\<lparr>mg_table = Some [''000.sql''], mg_data = [''z'']\<rparr>"
  obtain db' where a: "applyMigrations ?script (\<lambda>_. True) ?files ?db = (None, db')"
    by (simp add: applyMigrations_def applied_def Let_def)
  have "sort_key fst ?files = [(''000.sql'', ''z''), (''001.sql'', ''a''), (''002.sql'', ''b'')]" by code_simp
  with applyMigrations_once [OF a] a show ?thesis
    by (simp add: run_scripts_def pending_def applied_def)
qed

text \<open>A script and its record are two statements: when the record fails, the script runs a second time at the next start.\<close>

lemma migration_not_atomic:
  assumes "up 0" "up 1" "up 2" "\<not> up 3" "script content d = (True, d1)"
  shows "applyMigrations script up [(name, content)] \<lparr>mg_table = None, mg_data = d\<rparr> =
     (Some (RecordMigration name), \<lparr>mg_table = Some [], mg_data = d1\<rparr>) \<and>
   mg_data (snd (applyMigrations script (\<lambda>_. True) [(name, content)] \<lparr>mg_table = Some [], mg_data = d1\<rparr>)) = snd (script content d1)"
  using assms by (simp add: applyMigrations_def applied_def Let_def numeral_eq_Suc split: prod.split bool.split)

end
