(* ===== verification/Poller.thy ===== *)
theory Poller
  imports Config Store_Correct
begin

text \<open>
  The poller (\<open>internal/poller/poller.go\<close>). Each watch has a loop of its own; \<open>poll_once\<close> is one pass
  of it behind the wait. The GitHub client is a record of the two calls it uses, the store is the pair
  of methods \<open>isSeen\<close> and \<open>markSeen\<close>, and the channel of jobs is a list with a capacity: a send that
  does not block succeeds when the buffer has room.
\<close>

section \<open>Types\<close>

record poll_job =
  jo_WatchName :: string
  jo_Repo :: string
  jo_Owner :: string
  jo_RepoName :: string
  jo_SHA :: string
  jo_PRNumber :: int
  jo_Branch :: string
  jo_EventType :: string
  jo_WorkflowRefs :: "WorkflowRef list"
  jo_Inputs :: "string gomap"
  jo_RunID :: string

text \<open>
  The errors of the client: the error and those it wraps, outermost first. An \<open>ErrorResponse\<close> may
  have no response.
\<close>

datatype gh_error =
    RateLimitError
  | AbuseRateLimitError
  | ErrorResponse "int option"
  | OtherError

type_synonym gh_errors = "gh_error list"

record gh_client =
  gc_ListCommits :: "string \<Rightarrow> string \<Rightarrow> int \<Rightarrow> int \<Rightarrow> gh_errors + string list"
  gc_GetRef :: "string \<Rightarrow> string \<Rightarrow> string \<Rightarrow> gh_errors + string"

section \<open>Operations\<close>

text \<open>Durations are \<open>int64\<close> nanoseconds, with wrap-around.\<close>

definition wrap64 :: "int \<Rightarrow> int" where
  "wrap64 x = (x + 2 ^ 63) mod 2 ^ 64 - 2 ^ 63"

definition minute_ns :: int where
  "minute_ns = 60 * second_ns"

definition nextBackoff :: "int \<Rightarrow> int \<Rightarrow> int" where
  "nextBackoff initialBackoff current =
     (if current = 0 then initialBackoff
      else (let next = wrap64 (current * 2) in if next > 5 * minute_ns then 5 * minute_ns else next))"

definition is_error_response :: "gh_error \<Rightarrow> bool" where
  "is_error_response e = (case e of ErrorResponse _ \<Rightarrow> True | _ \<Rightarrow> False)"

definition isRateLimitErr :: "gh_errors \<Rightarrow> bool" where
  "isRateLimitErr err =
     (if RateLimitError \<in> set err \<or> AbuseRateLimitError \<in> set err then True
      else (case find is_error_response err of
              Some (ErrorResponse (Some code)) \<Rightarrow> code = 429
            | _ \<Rightarrow> False))"

definition fetchSHA :: "gh_client \<Rightarrow> string \<Rightarrow> string \<Rightarrow> Watch \<Rightarrow> gh_errors + string" where
  "fetchSHA gh owner repo w =
     (if wa_PR w \<noteq> 0 then
        (case gc_ListCommits gh owner repo (wa_PR w) 1 of
           Inl e \<Rightarrow> Inl e
         | Inr commits \<Rightarrow> if commits = [] then Inl [OtherError] else Inr (last commits))
      else gc_GetRef gh owner repo (''heads/'' @ wa_Branch w))"

definition pr_or_branch :: "Watch \<Rightarrow> string" where
  "pr_or_branch w = (if wa_PR w \<noteq> 0 then ''pr/'' @ Itoa (wa_PR w) else wa_Branch w)"

definition watch_job :: "Watch \<Rightarrow> string \<Rightarrow> string \<Rightarrow> string \<Rightarrow> poll_job" where
  "watch_job w owner repoName sha =
     \<lparr>jo_WatchName = wa_Name w, jo_Repo = wa_Repo w, jo_Owner = owner, jo_RepoName = repoName,
      jo_SHA = sha, jo_PRNumber = wa_PR w, jo_Branch = wa_Branch w,
      jo_EventType = (if wa_PR w \<noteq> 0 then ''pull_request'' else ''push''),
      jo_WorkflowRefs = wa_Workflows w, jo_Inputs = [], jo_RunID = []\<rparr>"

text \<open>
  The state of a loop: the backoff, and what all loops share, the store and the channel.
  \<open>ps_sent\<close> records, for the properties below, the jobs that were put into the channel.
\<close>

record 's poll_state =
  ps_backoff :: int
  ps_store :: 's
  ps_chan :: "poll_job list"
  ps_cap :: nat
  ps_sent :: "poll_job list"

definition chan_send :: "poll_job \<Rightarrow> 's poll_state \<Rightarrow> 's poll_state" where
  "chan_send j st =
     (if length (ps_chan st) < ps_cap st then st\<lparr>ps_chan := ps_chan st @ [j], ps_sent := ps_sent st @ [j]\<rparr> else st)"

definition poll_once ::
  "(bool \<Rightarrow> string \<Rightarrow> string \<Rightarrow> string \<Rightarrow> 's \<Rightarrow> 'e + bool) \<Rightarrow> (bool \<Rightarrow> SeenCommit \<Rightarrow> 's \<Rightarrow> 'e option \<times> 's) \<Rightarrow>
   gh_client \<Rightarrow> int \<Rightarrow> bool \<Rightarrow> gtime \<Rightarrow> Watch \<Rightarrow> string \<Rightarrow> string \<Rightarrow> 's poll_state \<Rightarrow> 's poll_state" where
  "poll_once isSeen markSeen gh initialBackoff alive now w owner repoName st =
     (case fetchSHA gh owner repoName w of
        Inl err \<Rightarrow>
          if isRateLimitErr err then st\<lparr>ps_backoff := nextBackoff initialBackoff (ps_backoff st)\<rparr>
          else st\<lparr>ps_backoff := 0\<rparr>
      | Inr sha \<Rightarrow>
          (let st = st\<lparr>ps_backoff := 0\<rparr>
           in case isSeen alive (wa_Repo w) sha (pr_or_branch w) (ps_store st) of
                Inl _ \<Rightarrow> st
              | Inr True \<Rightarrow> st
              | Inr False \<Rightarrow>
                  (case markSeen alive \<lparr>sc_Repo = wa_Repo w, sc_SHA = sha, sc_PrOrBranch = pr_or_branch w,
                                         sc_FirstSeenAt = now\<rparr> (ps_store st) of
                     (Some _, s') \<Rightarrow> st\<lparr>ps_store := s'\<rparr>
                   | (None, s') \<Rightarrow> chan_send (watch_job w owner repoName sha) (st\<lparr>ps_store := s'\<rparr>))))"

text \<open>
  \<open>runWatch\<close>: an invalid repository ends the loop before it starts. Each pass has its own answers of
  the client, its context and clock, and between two passes the consumer may have taken jobs out of
  the channel: an event is a pass, or the removal of the first job.
\<close>

datatype poll_event =
    Poll gh_client bool gtime
  | Receive

definition poll_wait :: "Config \<Rightarrow> int \<Rightarrow> int" where
  "poll_wait cfg backoff =
     (let interval = (if gh_PollInterval (cf_GitHub cfg) = 0 then 30 * second_ns else gh_PollInterval (cf_GitHub cfg))
      in if backoff > 0 then backoff else interval)"

definition split_repo :: "Watch \<Rightarrow> (string \<times> string) option" where
  "split_repo w = (case SplitN (wa_Repo w) (CHR ''/'') 2 of [owner, repoName] \<Rightarrow> Some (owner, repoName) | _ \<Rightarrow> None)"

fun apply_event ::
  "(bool \<Rightarrow> string \<Rightarrow> string \<Rightarrow> string \<Rightarrow> 's \<Rightarrow> 'e + bool) \<Rightarrow> (bool \<Rightarrow> SeenCommit \<Rightarrow> 's \<Rightarrow> 'e option \<times> 's) \<Rightarrow>
   int \<Rightarrow> Watch \<Rightarrow> string \<Rightarrow> string \<Rightarrow> poll_event \<Rightarrow> 's poll_state \<Rightarrow> 's poll_state" where
  "apply_event isSeen markSeen ib w owner repoName (Poll gh alive now) st =
     poll_once isSeen markSeen gh ib alive now w owner repoName st"
| "apply_event isSeen markSeen ib w owner repoName Receive st = st\<lparr>ps_chan := drop 1 (ps_chan st)\<rparr>"

definition runWatch ::
  "(bool \<Rightarrow> string \<Rightarrow> string \<Rightarrow> string \<Rightarrow> 's \<Rightarrow> 'e + bool) \<Rightarrow> (bool \<Rightarrow> SeenCommit \<Rightarrow> 's \<Rightarrow> 'e option \<times> 's) \<Rightarrow>
   int \<Rightarrow> Watch \<Rightarrow> poll_event list \<Rightarrow> 's poll_state \<Rightarrow> 's poll_state" where
  "runWatch isSeen markSeen ib w events st =
     (case split_repo w of
        None \<Rightarrow> st
      | Some (owner, repoName) \<Rightarrow>
          fold (apply_event isSeen markSeen ib w owner repoName) events (st\<lparr>ps_backoff := 0\<rparr>))"

text \<open>\<open>Run\<close>: the watches it starts loops for, from the provider when there is one that succeeds.\<close>

definition run_watches :: "Config \<Rightarrow> ('e + Watch list) option \<Rightarrow> Watch list" where
  "run_watches cfg provider = (case provider of Some (Inr ws) \<Rightarrow> ws | _ \<Rightarrow> cf_Watches cfg)"

section \<open>Backoff\<close>

lemma wrap64_small: "- (2 ^ 63) \<le> x \<Longrightarrow> x < 2 ^ 63 \<Longrightarrow> wrap64 x = x"
  by (simp add: wrap64_def)

lemma nextBackoff_double:
  "0 < current \<Longrightarrow> current \<le> 5 * minute_ns \<Longrightarrow> nextBackoff ib current = min (2 * current) (5 * minute_ns)"
  by (simp add: nextBackoff_def wrap64_small minute_ns_def second_ns_def Let_def min_def)

text \<open>
  C36. Under rate limiting the poller waits exponentially longer, up to five minutes: the
  \<open>n\<close>-th rate limit in a row sets the backoff to the initial one doubled \<open>n - 1\<close> times, at most five
  minutes, so that every wait is positive.
\<close>

theorem nextBackoff_exponential:
  assumes "0 < ib" "ib \<le> 5 * minute_ns"
  shows "(nextBackoff ib ^^ Suc n) 0 = min (ib * 2 ^ n) (5 * minute_ns) \<and>
    0 < (nextBackoff ib ^^ Suc n) 0 \<and> poll_wait cfg ((nextBackoff ib ^^ Suc n) 0) = (nextBackoff ib ^^ Suc n) 0"
proof -
  have pos: "0 < min (ib * 2 ^ n) (5 * minute_ns)" for n
    using assms by (simp add: minute_ns_def second_ns_def)
  have "(nextBackoff ib ^^ Suc n) 0 = min (ib * 2 ^ n) (5 * minute_ns)"
  proof (induction n)
    case 0
    show ?case using assms by (simp add: nextBackoff_def)
  next
    case (Suc n)
    have "(nextBackoff ib ^^ Suc (Suc n)) 0 = nextBackoff ib (min (ib * 2 ^ n) (5 * minute_ns))"
      using Suc by simp
    also have "\<dots> = min (2 * min (ib * 2 ^ n) (5 * minute_ns)) (5 * minute_ns)"
      using pos[of n] by (intro nextBackoff_double) auto
    also have "\<dots> = min (ib * 2 ^ Suc n) (5 * minute_ns)"
      by (auto simp: min_def minute_ns_def second_ns_def)
    finally show ?case .
  qed
  with pos[of n] show ?thesis
    by (simp add: poll_wait_def)
qed

theorem nextBackoff_exponential_witness:
  "(nextBackoff (5 * second_ns) ^^ Suc 2) 0 = 20 * second_ns \<and>
   (nextBackoff (5 * second_ns) ^^ Suc 9) 0 = 5 * minute_ns"
  using nextBackoff_exponential[of "5 * second_ns" 2] nextBackoff_exponential[of "5 * second_ns" 9]
  by (simp add: minute_ns_def second_ns_def del: funpow.simps)

section \<open>One pass\<close>

definition commit_key :: "Watch \<Rightarrow> string \<Rightarrow> string \<times> string \<times> string" where
  "commit_key w sha = (wa_Repo w, sha, pr_or_branch w)"

lemma watch_job_sel [simp]:
  "jo_SHA (watch_job w owner repoName sha) = sha" "jo_Repo (watch_job w owner repoName sha) = wa_Repo w"
  by (simp_all add: watch_job_def)

lemma chan_send_store [simp]: "ps_store (chan_send j st) = ps_store st"
  by (simp add: chan_send_def)

context seen_store
begin

lemma poll_once_new:
  assumes "fetchSHA gh owner repoName w = Inr sha" "commit_key w sha \<notin> seen (ps_store st)"
  obtains s' where
    "poll_once isSeen markSeen gh ib True now w owner repoName st =
       chan_send (watch_job w owner repoName sha) (st\<lparr>ps_backoff := 0, ps_store := s'\<rparr>)"
    "seen s' = insert (commit_key w sha) (seen (ps_store st))"
proof -
  obtain b where b: "isSeen True (wa_Repo w) sha (pr_or_branch w) (ps_store st) = Inr b"
    using isSeen_alive by blast
  then have "\<not> b"
    using isSeen_sound assms(2) by (auto simp: commit_key_def)
  moreover obtain s' where m: "markSeen True \<lparr>sc_Repo = wa_Repo w, sc_SHA = sha, sc_PrOrBranch = pr_or_branch w,
      sc_FirstSeenAt = now\<rparr> (ps_store st) = (None, s')"
    using markSeen_alive by (metis prod.collapse)
  moreover have "seen s' = insert (commit_key w sha) (seen (ps_store st))"
    using markSeen_sound[OF m] by (simp add: commit_key_def seen_key_def)
  ultimately show ?thesis
    using that[of s'] assms(1) b by (simp add: poll_once_def Let_def)
qed

lemma poll_once_seen:
  "seen (ps_store st) \<subseteq> seen (ps_store (poll_once isSeen markSeen gh ib alive now w owner repoName st))"
  unfolding poll_once_def Let_def
  by (auto split: sum.split bool.split prod.split option.split dest: markSeen_sound markSeen_error)

lemma poll_once_sent:
  assumes "j \<in> set (ps_sent (poll_once isSeen markSeen gh ib alive now w owner repoName st))"
  shows "j \<in> set (ps_sent st) \<or>
    (\<exists>sha. j = watch_job w owner repoName sha \<and> commit_key w sha \<notin> seen (ps_store st))"
  using assms unfolding poll_once_def Let_def chan_send_def
  by (auto split: sum.splits bool.splits prod.splits option.splits if_splits
      dest: isSeen_sound simp: commit_key_def)

lemma runWatch_skips_seen:
  assumes "commit_key w sha \<in> seen (ps_store st)"
    and "j \<in> set (ps_sent (runWatch isSeen markSeen ib w events st))" "jo_SHA j = sha"
  shows "j \<in> set (ps_sent st)"
proof (cases "split_repo w")
  case (Some p)
  obtain owner repoName where p: "p = (owner, repoName)" by (cases p)
  have "j \<in> set (ps_sent st')"
    if "j \<in> set (ps_sent (fold (apply_event isSeen markSeen ib w owner repoName) evs st'))"
      "commit_key w sha \<in> seen (ps_store st')" for evs st'
    using that
  proof (induction evs arbitrary: st')
    case (Cons e evs)
    let ?st = "apply_event isSeen markSeen ib w owner repoName e st'"
    have "commit_key w sha \<in> seen (ps_store ?st)"
      using Cons.prems(2) by (cases e) (auto intro: subsetD[OF poll_once_seen])
    then have "j \<in> set (ps_sent ?st)"
      using Cons by simp
    then show ?case
      using Cons.prems(2) assms(3) poll_once_sent by (cases e) fastforce+
  qed simp
  from this[of events "st\<lparr>ps_backoff := 0\<rparr>"] assms(1,2) Some p show ?thesis
    by (simp add: runWatch_def)
qed (use assms(2) in \<open>simp add: runWatch_def\<close>)

end

text \<open>
  A new commit becomes a job: when the client returns a commit that the store has not seen and
  the channel has room, one pass of the loop appends to the channel the job with the fields of the
  watch, resets the backoff, and marks the commit as seen.
\<close>

lemma poll_once_sends_new:
  assumes "fetchSHA gh owner repoName w = Inr sha"
    and "(wa_Repo w, sha, pr_or_branch w) \<notin> seen_keys (ps_store st)" "length (ps_chan st) < ps_cap st"
  shows "\<exists>st'. poll_once IsSeen MarkSeen gh ib True now w owner repoName st = st' \<and>
    ps_chan st' = ps_chan st @ [watch_job w owner repoName sha] \<and> ps_backoff st' = 0 \<and>
    seen_keys (ps_store st') = insert (wa_Repo w, sha, pr_or_branch w) (seen_keys (ps_store st))"
proof -
  obtain s' where "poll_once IsSeen MarkSeen gh ib True now w owner repoName st =
      chan_send (watch_job w owner repoName sha) (st\<lparr>ps_backoff := 0, ps_store := s'\<rparr>)"
    "seen_keys s' = insert (commit_key w sha) (seen_keys (ps_store st))"
    using assms by (metis commit_key_def sqlite.poll_once_new)
  with assms(3) show ?thesis
    by (simp add: chan_send_def commit_key_def)
qed

definition main_watch :: Watch where
  "main_watch =
     \<lparr>wa_Name = ''w'', wa_Repo = ''o/r'', wa_PR = 0, wa_Branch = ''main'', wa_Workflows = [], wa_On = []\<rparr>"

definition head_client :: gh_client where
  "head_client =
     \<lparr>gc_ListCommits = (\<lambda>_ _ _ _. Inl [OtherError]),
      gc_GetRef = (\<lambda>_ _ r. if r = ''heads/main'' then Inr ''abc'' else Inl [ErrorResponse (Some 404)])\<rparr>"

definition idle_poller :: "nat \<Rightarrow> DB poll_state" where
  "idle_poller cap = \<lparr>ps_backoff = 0, ps_store = empty_db True, ps_chan = [], ps_cap = cap, ps_sent = []\<rparr>"

lemma head_client_fetch: "fetchSHA head_client ow nm main_watch = Inr ''abc''"
  by (simp add: fetchSHA_def head_client_def main_watch_def)

lemma idle_poller_unseen: "k \<notin> seen_keys (ps_store (idle_poller cap))"
  by (simp add: idle_poller_def seen_keys_def empty_db_def)

lemma poll_once_sends_new_witness:
  "\<exists>st'. poll_once IsSeen MarkSeen head_client 5 True 0 main_watch ''o'' ''r'' (idle_poller 1) = st' \<and>
     ps_chan st' = [watch_job main_watch ''o'' ''r'' ''abc'']"
  using poll_once_sends_new[of head_client "''o''" "''r''" main_watch "''abc''" "idle_poller 1" 5 0,
      OF head_client_fetch idle_poller_unseen]
  by (simp add: idle_poller_def)

text \<open>
  A commit that does not fit into the channel is lost: with a full channel a new commit is
  marked as seen although its job is dropped, and however the loop goes on, no job for that commit is
  ever sent.
\<close>

lemma full_channel_loses_commit:
  assumes "fetchSHA gh owner repoName w = Inr sha"
    and "(wa_Repo w, sha, pr_or_branch w) \<notin> seen_keys (ps_store st)" "ps_cap st \<le> length (ps_chan st)"
    and "st' = poll_once IsSeen MarkSeen gh ib True now w owner repoName st"
  shows "ps_chan st' = ps_chan st \<and>
    {j \<in> set (ps_sent (runWatch IsSeen MarkSeen ib w events st')). jo_SHA j = sha} \<subseteq> set (ps_sent st)"
proof -
  obtain s' where st': "st' = chan_send (watch_job w owner repoName sha) (st\<lparr>ps_backoff := 0, ps_store := s'\<rparr>)"
    and "seen_keys s' = insert (commit_key w sha) (seen_keys (ps_store st))"
    using assms by (metis commit_key_def sqlite.poll_once_new)
  then have "commit_key w sha \<in> seen_keys (ps_store st')" "ps_chan st' = ps_chan st" "ps_sent st' = ps_sent st"
    using assms(3) by (simp_all add: chan_send_def)
  then show ?thesis
    using sqlite.runWatch_skips_seen[of w sha st' _ ib events] by fastforce
qed

lemma full_channel_loses_commit_witness:
  "\<exists>st'. st' = poll_once IsSeen MarkSeen head_client 5 True 0 main_watch ''o'' ''r'' (idle_poller 0) \<and>
     ps_chan st' = [] \<and>
     {j \<in> set (ps_sent (runWatch IsSeen MarkSeen 5 main_watch [Poll head_client True 1] st')). jo_SHA j = ''abc''} = {}"
  using full_channel_loses_commit[of head_client "''o''" "''r''" main_watch "''abc''" "idle_poller 0" _ 5 0
      "[Poll head_client True 1]", OF head_client_fetch idle_poller_unseen _ refl]
  by (simp add: idle_poller_def)

text \<open>
  Two watches of one branch share the mark: a second watch with the repository and branch of a
  first never sends a job for a commit that the first has taken, so its workflows do not run.
\<close>

lemma second_watch_starves:
  assumes "wa_Repo w2 = wa_Repo w1" "pr_or_branch w2 = pr_or_branch w1"
    and "fetchSHA gh owner repoName w1 = Inr sha"
    and "(wa_Repo w1, sha, pr_or_branch w1) \<notin> seen_keys (ps_store st)"
  shows "{j \<in> set (ps_sent (runWatch IsSeen MarkSeen ib w2 events
            (poll_once IsSeen MarkSeen gh ib True now w1 owner repoName st))). jo_SHA j = sha} \<subseteq>
    insert (watch_job w1 owner repoName sha) (set (ps_sent st))"
proof -
  let ?st = "poll_once IsSeen MarkSeen gh ib True now w1 owner repoName st"
  obtain s' where st': "?st = chan_send (watch_job w1 owner repoName sha) (st\<lparr>ps_backoff := 0, ps_store := s'\<rparr>)"
    and "seen_keys s' = insert (commit_key w1 sha) (seen_keys (ps_store st))"
    using assms by (metis commit_key_def sqlite.poll_once_new)
  then have "commit_key w2 sha \<in> seen_keys (ps_store ?st)"
    using assms(1,2) by (simp add: commit_key_def)
  moreover have "set (ps_sent ?st) \<subseteq> insert (watch_job w1 owner repoName sha) (set (ps_sent st))"
    using st' by (auto simp: chan_send_def)
  ultimately show ?thesis
    using sqlite.runWatch_skips_seen[of w2 sha ?st _ ib events] by fastforce
qed

lemma second_watch_starves_witness:
  "{j \<in> set (ps_sent (runWatch IsSeen MarkSeen 5 (main_watch\<lparr>wa_Name := ''v''\<rparr>) [Poll head_client True 1]
      (poll_once IsSeen MarkSeen head_client 5 True 0 main_watch ''o'' ''r'' (idle_poller 4)))). jo_SHA j = ''abc''} \<subseteq>
   {watch_job main_watch ''o'' ''r'' ''abc''}"
  using second_watch_starves[of "main_watch\<lparr>wa_Name := ''v''\<rparr>" main_watch head_client "''o''" "''r''" "''abc''"
      "idle_poller 4" 5 "[Poll head_client True 1]" 0, OF _ _ head_client_fetch idle_poller_unseen]
  by (simp add: pr_or_branch_def) (simp add: idle_poller_def)

end
