(* ===== verification/Poller_Loops.thy ===== *)
theory Poller_Loops
  imports Poller
begin

text \<open>
  The loops of all watches at once (\<open>Poller.Run\<close> of \<open>internal/poller/poller.go\<close>). \<open>Run\<close> starts one
  goroutine per watch; their calls of the store and of the channel interleave. A step is the part of
  \<open>poll_once\<close> between two such calls: a loop waits, fetches the commit and asks the store, or it has
  found a new commit and marks it and sends the job. \<open>sy_sent\<close> records which loop sent which job.
\<close>

section \<open>Steps\<close>

datatype poll_pc =
    Waiting
  | Marking string

record 's poll_sys =
  sy_store :: 's
  sy_chan :: "poll_job list"
  sy_cap :: nat
  sy_pc :: "nat \<Rightarrow> poll_pc"
  sy_backoff :: "nat \<Rightarrow> int"
  sy_sent :: "(nat \<times> poll_job) list"

definition sys_send :: "nat \<Rightarrow> poll_job \<Rightarrow> 's poll_sys \<Rightarrow> 's poll_sys" where
  "sys_send i j s =
     (if length (sy_chan s) < sy_cap s
      then s\<lparr>sy_chan := sy_chan s @ [j], sy_sent := sy_sent s @ [(i, j)]\<rparr> else s)"

inductive poller_step ::
  "(bool \<Rightarrow> string \<Rightarrow> string \<Rightarrow> string \<Rightarrow> 's \<Rightarrow> 'e + bool) \<Rightarrow> (bool \<Rightarrow> SeenCommit \<Rightarrow> 's \<Rightarrow> 'e option \<times> 's) \<Rightarrow>
   int \<Rightarrow> Watch list \<Rightarrow> 's poll_sys \<Rightarrow> 's poll_sys \<Rightarrow> bool"
  for isSeen markSeen ib ws where
  fetch_failed:
    "i < length ws \<Longrightarrow> sy_pc s i = Waiting \<Longrightarrow> split_repo (ws ! i) = Some (ow, nm) \<Longrightarrow>
     fetchSHA gh ow nm (ws ! i) = Inl err \<Longrightarrow>
     poller_step isSeen markSeen ib ws s
       (s\<lparr>sy_backoff := (sy_backoff s)(i := if isRateLimitErr err then nextBackoff ib (sy_backoff s i) else 0)\<rparr>)"
| checked:
    "i < length ws \<Longrightarrow> sy_pc s i = Waiting \<Longrightarrow> split_repo (ws ! i) = Some (ow, nm) \<Longrightarrow>
     fetchSHA gh ow nm (ws ! i) = Inr sha \<Longrightarrow>
     isSeen alive (wa_Repo (ws ! i)) sha (pr_or_branch (ws ! i)) (sy_store s) = r \<Longrightarrow>
     poller_step isSeen markSeen ib ws s
       (s\<lparr>sy_backoff := (sy_backoff s)(i := 0),
          sy_pc := (sy_pc s)(i := if r = Inr False then Marking sha else Waiting)\<rparr>)"
| marked:
    "i < length ws \<Longrightarrow> sy_pc s i = Marking sha \<Longrightarrow> split_repo (ws ! i) = Some (ow, nm) \<Longrightarrow>
     markSeen alive \<lparr>sc_Repo = wa_Repo (ws ! i), sc_SHA = sha, sc_PrOrBranch = pr_or_branch (ws ! i),
                      sc_FirstSeenAt = now\<rparr> (sy_store s) = (None, st) \<Longrightarrow>
     poller_step isSeen markSeen ib ws s
       (sys_send i (watch_job (ws ! i) ow nm sha) (s\<lparr>sy_store := st, sy_pc := (sy_pc s)(i := Waiting)\<rparr>))"
| mark_failed:
    "i < length ws \<Longrightarrow> sy_pc s i = Marking sha \<Longrightarrow>
     markSeen alive \<lparr>sc_Repo = wa_Repo (ws ! i), sc_SHA = sha, sc_PrOrBranch = pr_or_branch (ws ! i),
                      sc_FirstSeenAt = now\<rparr> (sy_store s) = (Some e, st) \<Longrightarrow>
     poller_step isSeen markSeen ib ws s (s\<lparr>sy_store := st, sy_pc := (sy_pc s)(i := Waiting)\<rparr>)"
| received: "poller_step isSeen markSeen ib ws s (s\<lparr>sy_chan := drop 1 (sy_chan s)\<rparr>)"

definition poller_init :: "'s \<Rightarrow> nat \<Rightarrow> 's poll_sys" where
  "poller_init st cap =
     \<lparr>sy_store = st, sy_chan = [], sy_cap = cap, sy_pc = (\<lambda>_. Waiting), sy_backoff = (\<lambda>_. 0), sy_sent = []\<rparr>"

section \<open>Invariant\<close>

definition sent_key :: "nat \<times> poll_job \<Rightarrow> nat \<times> string" where
  "sent_key p = (fst p, jo_SHA (snd p))"

context seen_store
begin

definition poller_inv :: "Watch list \<Rightarrow> 's poll_sys \<Rightarrow> bool" where
  "poller_inv ws s =
     (distinct (map sent_key (sy_sent s)) \<and>
      (\<forall>(i, j) \<in> set (sy_sent s). commit_key (ws ! i) (jo_SHA j) \<in> seen (sy_store s) \<and>
         (\<exists>ow nm. split_repo (ws ! i) = Some (ow, nm) \<and> j = watch_job (ws ! i) ow nm (jo_SHA j))) \<and>
      (\<forall>i sha. sy_pc s i = Marking sha \<longrightarrow> (i, sha) \<notin> sent_key ` set (sy_sent s)))"

lemma poller_inv_store:
  "poller_inv ws s \<Longrightarrow> seen (sy_store s) \<subseteq> seen st \<Longrightarrow> poller_inv ws (s\<lparr>sy_store := st, sy_pc := (sy_pc s)(i := Waiting)\<rparr>)"
  by (fastforce simp: poller_inv_def)

lemma poller_inv_step:
  "poller_step isSeen markSeen ib ws s s' \<Longrightarrow> poller_inv ws s \<Longrightarrow> poller_inv ws s'"
proof (induction rule: poller_step.induct)
  case (checked i s ow nm gh sha alive r)
  have "(i, sha) \<notin> sent_key ` set (sy_sent s)" if "r = Inr False"
  proof
    assume "(i, sha) \<in> sent_key ` set (sy_sent s)"
    then have "commit_key (ws ! i) sha \<in> seen (sy_store s)"
      using checked.prems by (auto simp: poller_inv_def sent_key_def)
    moreover have "commit_key (ws ! i) sha \<notin> seen (sy_store s)"
      using isSeen_sound checked.hyps(5) that by (auto simp: commit_key_def)
    ultimately show False by blast
  qed
  with checked.prems show ?case
    by (auto simp: poller_inv_def)
next
  case (marked i s sha ow nm alive now st)
  have st: "seen st = insert (commit_key (ws ! i) sha) (seen (sy_store s))"
    using markSeen_sound[OF marked.hyps(4)] by (simp add: commit_key_def seen_key_def)
  have fresh: "(i, sha) \<notin> sent_key ` set (sy_sent s)"
    using marked by (auto simp: poller_inv_def)
  have "poller_inv ws (s\<lparr>sy_store := st, sy_pc := (sy_pc s)(i := Waiting)\<rparr>)"
    using marked.prems st by (intro poller_inv_store) auto
  with fresh st marked.hyps(3) show ?case
    by (auto simp: poller_inv_def sys_send_def sent_key_def)
next
  case (mark_failed i s sha alive now e st)
  then have "st = sy_store s"
    using markSeen_error by blast
  with mark_failed.prems show ?case
    by (intro poller_inv_store) auto
qed (auto simp: poller_inv_def)

lemma poller_inv_reachable:
  "(poller_step isSeen markSeen ib ws)\<^sup>*\<^sup>* (poller_init st cap) s \<Longrightarrow> poller_inv ws s"
proof (induction rule: rtranclp_induct)
  case base
  show ?case by (simp add: poller_inv_def poller_init_def)
qed (rule poller_inv_step)

end

text \<open>
  C10. No watch sends a commit twice, however the loops of the watches interleave: in every
  reachable state the pairs of the watch and the commit of the jobs sent so far are distinct, each
  job has the fields of its watch, and its commit is marked as seen.
\<close>

theorem poller_sends_once:
  assumes "(poller_step IsSeen MarkSeen ib ws)\<^sup>*\<^sup>* (poller_init st cap) s"
  shows "distinct (map sent_key (sy_sent s)) \<and>
    list_all (\<lambda>(i, j). (wa_Repo (ws ! i), jo_SHA j, pr_or_branch (ws ! i)) \<in> seen_keys (sy_store s) \<and>
       (\<exists>ow nm. split_repo (ws ! i) = Some (ow, nm) \<and> j = watch_job (ws ! i) ow nm (jo_SHA j))) (sy_sent s)"
  using sqlite.poller_inv_reachable[OF assms]
  by (auto simp: sqlite.poller_inv_def list_all_iff commit_key_def)

theorem poller_sends_once_witness:
  "\<exists>s. (poller_step IsSeen MarkSeen 5 [main_watch])\<^sup>*\<^sup>* (poller_init (empty_db True) 4) s \<and>
     map sent_key (sy_sent s) = [(0, ''abc'')] \<and> distinct (map sent_key (sy_sent s))"
proof -
  let ?s0 = "poller_init (empty_db True) 4" and ?ws = "[main_watch]"
  let ?s1 = "?s0\<lparr>sy_backoff := (sy_backoff ?s0)(0 := 0), sy_pc := (sy_pc ?s0)(0 := Marking ''abc'')\<rparr>"
  have repo: "split_repo main_watch = Some (''o'', ''r'')"
    by (simp add: split_repo_def main_watch_def numeral_2_eq_2)
  have "IsSeen True (wa_Repo main_watch) ''abc'' (pr_or_branch main_watch) (sy_store ?s0) = Inr False"
    by (simp add: IsSeen_def poller_init_def empty_db_def has_key_def)
  then have 1: "poller_step IsSeen MarkSeen 5 ?ws ?s0 ?s1"
    using poller_step.checked[of 0 ?ws ?s0 "''o''" "''r''" head_client "''abc''" IsSeen True "Inr False"] repo
    by (simp add: head_client_fetch) (simp add: poller_init_def)
  obtain st where "MarkSeen True \<lparr>sc_Repo = wa_Repo main_watch, sc_SHA = ''abc'', sc_PrOrBranch = pr_or_branch main_watch,
      sc_FirstSeenAt = 0\<rparr> (sy_store ?s1) = (None, st)"
    by (simp add: MarkSeen_def exec_def)
  then have 2: "poller_step IsSeen MarkSeen 5 ?ws ?s1
      (sys_send 0 (watch_job main_watch ''o'' ''r'' ''abc'') (?s1\<lparr>sy_store := st, sy_pc := (sy_pc ?s1)(0 := Waiting)\<rparr>))"
    using poller_step.marked[of 0 ?ws ?s1 "''abc''" "''o''" "''r''" MarkSeen True 0 st] repo by simp
  from 1 2 have reach: "(poller_step IsSeen MarkSeen 5 ?ws)\<^sup>*\<^sup>* ?s0
      (sys_send 0 (watch_job main_watch ''o'' ''r'' ''abc'') (?s1\<lparr>sy_store := st, sy_pc := (sy_pc ?s1)(0 := Waiting)\<rparr>))"
    by (meson converse_rtranclp_into_rtranclp r_into_rtranclp)
  show ?thesis
    using reach poller_sends_once[OF reach]
    by (intro exI[of _ "sys_send 0 (watch_job main_watch ''o'' ''r'' ''abc'')
          (?s1\<lparr>sy_store := st, sy_pc := (sy_pc ?s1)(0 := Waiting)\<rparr>)"])
       (auto simp: sys_send_def poller_init_def sent_key_def)
qed

end
