(* ===== verification/Job_Queue.thy ===== *)
theory Job_Queue
  imports Poller
begin

text \<open>
  The bounded job queue (\<open>internal/queue/queue.go\<close>). The operations run under the mutex, so each is a
  function of the queue. \<open>Enqueue\<close> returns \<open>None\<close> where the slice expression \<open>q.jobs[1:]\<close> panics.
  \<open>Dequeue\<close> is split at its condition variable: \<open>dequeue_attempt\<close> is what it does from the lock to the
  unlock or to \<open>cond.Wait\<close>; \<open>Blocks\<close> means that it waits.
\<close>

section \<open>Model\<close>

record job_queue =
  q_jobs :: "poll_job list"
  q_cap :: int
  q_closed :: bool

definition queue_New :: "int \<Rightarrow> job_queue" where
  "queue_New cap = \<lparr>q_jobs = [], q_cap = cap, q_closed = False\<rparr>"

text \<open>The loop over a full queue replaces the first job of the same watch.\<close>

fun replace_first :: "poll_job \<Rightarrow> poll_job list \<Rightarrow> poll_job list option" where
  "replace_first j [] = None"
| "replace_first j (existing # js) =
     (if jo_WatchName existing = jo_WatchName j then Some (j # js)
      else map_option (\<lambda>js'. existing # js') (replace_first j js))"

definition Enqueue :: "poll_job \<Rightarrow> job_queue \<Rightarrow> job_queue option" where
  "Enqueue j q =
     (if int (length (q_jobs q)) < q_cap q then Some (q\<lparr>q_jobs := q_jobs q @ [j]\<rparr>)
      else (case replace_first j (q_jobs q) of
              Some js \<Rightarrow> Some (q\<lparr>q_jobs := js\<rparr>)
            | None \<Rightarrow> (case q_jobs q of [] \<Rightarrow> None | _ # js \<Rightarrow> Some (q\<lparr>q_jobs := js @ [j]\<rparr>))))"

datatype deq_result = Blocks | CtxErr | QueueClosed | Got poll_job

definition dequeue_attempt :: "bool \<Rightarrow> job_queue \<Rightarrow> deq_result \<times> job_queue" where
  "dequeue_attempt ctxDone q =
     (if q_jobs q = [] \<and> \<not> q_closed q then (if ctxDone then (CtxErr, q) else (Blocks, q))
      else if ctxDone then (CtxErr, q)
      else (case q_jobs q of
              [] \<Rightarrow> (QueueClosed, q)
            | j # js \<Rightarrow> (Got j, q\<lparr>q_jobs := js\<rparr>)))"

definition queue_Close :: "job_queue \<Rightarrow> job_queue" where
  "queue_Close q = q\<lparr>q_closed := True\<rparr>"

section \<open>Contract\<close>

text \<open>
  A queue that keeps the newest job per key when it is full: the contract of \<open>Enqueue\<close> and of a
  \<open>Dequeue\<close> that returns a job, over the list of jobs that the queue holds. In a sequence of
  operations \<open>Some j\<close> is an \<open>enq\<close> and \<open>None\<close> a \<open>deq\<close> that takes a job if there is one.
\<close>

fun run_queue ::
  "('j \<Rightarrow> 'q \<Rightarrow> 'q option) \<Rightarrow> ('q \<Rightarrow> ('j \<times> 'q) option) \<Rightarrow> 'j option list \<Rightarrow> 'q \<Rightarrow> 'j list \<Rightarrow>
   ('q \<times> 'j list) option" where
  "run_queue enq deq [] q out = Some (q, out)"
| "run_queue enq deq (Some j # ops) q out =
     (case enq j q of None \<Rightarrow> None | Some q' \<Rightarrow> run_queue enq deq ops q' out)"
| "run_queue enq deq (None # ops) q out =
     (case deq q of
        None \<Rightarrow> run_queue enq deq ops q out
      | Some (j, q') \<Rightarrow> run_queue enq deq ops q' (out @ [j]))"

locale latest_queue =
  fixes enq :: "'j \<Rightarrow> 'q \<Rightarrow> 'q option"
    and deq :: "'q \<Rightarrow> ('j \<times> 'q) option"
    and jobs :: "'q \<Rightarrow> 'j list"
    and cap :: "'q \<Rightarrow> nat"
    and key :: "'j \<Rightarrow> 'k"
    and ok :: "'q \<Rightarrow> bool"
  assumes ok_bound: "ok q \<Longrightarrow> length (jobs q) \<le> cap q"
    and enq_total: "ok q \<Longrightarrow> \<exists>q'. enq j q = Some q'"
    and enq_ok: "ok q \<Longrightarrow> enq j q = Some q' \<Longrightarrow> ok q' \<and> cap q' = cap q"
    and enq_room: "ok q \<Longrightarrow> enq j q = Some q' \<Longrightarrow> length (jobs q) < cap q \<Longrightarrow> jobs q' = jobs q @ [j]"
    and enq_replace: "ok q \<Longrightarrow> enq j q = Some q' \<Longrightarrow> length (jobs q) = cap q \<Longrightarrow> key j \<in> key ` set (jobs q) \<Longrightarrow>
      \<exists>as old bs. jobs q = as @ old # bs \<and> key old = key j \<and> key j \<notin> key ` set as \<and> jobs q' = as @ j # bs"
    and enq_drop: "ok q \<Longrightarrow> enq j q = Some q' \<Longrightarrow> length (jobs q) = cap q \<Longrightarrow> key j \<notin> key ` set (jobs q) \<Longrightarrow>
      jobs q' = tl (jobs q) @ [j]"
    and deq_some: "ok q \<Longrightarrow> deq q = Some (j, q') \<Longrightarrow> jobs q = j # jobs q' \<and> ok q' \<and> cap q' = cap q"
    and deq_none: "ok q \<Longrightarrow> deq q = None \<Longrightarrow> jobs q = []"
begin

lemma enq_holds:
  assumes "ok q" "enq j q = Some q'"
  shows "j \<in> set (jobs q')"
proof (cases "length (jobs q) < cap q")
  case True
  with enq_room[OF assms] show ?thesis by simp
next
  case False
  then have len: "length (jobs q) = cap q"
    using ok_bound[OF assms(1)] by simp
  show ?thesis
  proof (cases "key j \<in> key ` set (jobs q)")
    case True
    with enq_replace[OF assms len] show ?thesis by auto
  next
    case False
    with enq_drop[OF assms len] show ?thesis by simp
  qed
qed

lemma run_queue_ok:
  "ok q \<Longrightarrow> \<exists>q' out'. run_queue enq deq ops q out = Some (q', out') \<and> ok q' \<and> cap q' = cap q"
proof (induction ops arbitrary: q out)
  case (Cons x ops)
  show ?case
  proof (cases x)
    case None
    with Cons deq_some[of q] show ?thesis by (fastforce split: option.splits)
  next
    case (Some j)
    obtain q1 where "enq j q = Some q1" using enq_total[OF Cons.prems] by blast
    with Some Cons enq_ok[of q j q1] show ?thesis by fastforce
  qed
qed simp

lemma run_queue_fifo:
  assumes "ok q" "length (jobs q) + length (filter (\<lambda>x. x \<noteq> None) ops) \<le> cap q"
    and "run_queue enq deq ops q out = Some (q', out')"
  shows "out' @ jobs q' = out @ jobs q @ map the (filter (\<lambda>x. x \<noteq> None) ops)"
  using assms
proof (induction ops arbitrary: q out)
  case (Cons x ops)
  show ?case
  proof (cases x)
    case None
    show ?thesis
    proof (cases "deq q")
      case None
      with \<open>x = None\<close> Cons show ?thesis by auto
    next
      case (Some p)
      with \<open>x = None\<close> Cons deq_some[OF Cons.prems(1), of "fst p" "snd p"] show ?thesis
        by (cases p) auto
    qed
  next
    case (Some j)
    obtain q1 where q1: "enq j q = Some q1"
      using enq_total[OF Cons.prems(1)] by blast
    have "jobs q1 = jobs q @ [j]"
      using enq_room[OF Cons.prems(1) q1] Cons.prems(2) Some by simp
    with Some Cons q1 enq_ok[OF Cons.prems(1) q1] show ?thesis by auto
  qed
qed simp

end

section \<open>The queue implements the contract\<close>

definition queue_ok :: "job_queue \<Rightarrow> bool" where
  "queue_ok q = (0 < q_cap q \<and> int (length (q_jobs q)) \<le> q_cap q)"

definition dequeue_job :: "job_queue \<Rightarrow> (poll_job \<times> job_queue) option" where
  "dequeue_job q = (case dequeue_attempt False q of (Got j, q') \<Rightarrow> Some (j, q') | _ \<Rightarrow> None)"

lemma replace_first_None: "replace_first j js = None \<longleftrightarrow> jo_WatchName j \<notin> jo_WatchName ` set js"
  by (induction js) auto

lemma replace_first_Some:
  "replace_first j js = Some js' \<Longrightarrow>
   \<exists>as old bs. js = as @ old # bs \<and> jo_WatchName old = jo_WatchName j \<and>
     jo_WatchName j \<notin> jo_WatchName ` set as \<and> js' = as @ j # bs"
proof (induction js arbitrary: js')
  case (Cons x js)
  show ?case
  proof (cases "jo_WatchName x = jo_WatchName j")
    case True
    with Cons.prems show ?thesis
      by (intro exI[of _ "[]"]) auto
  next
    case False
    with Cons obtain zs as old bs where "replace_first j js = Some zs" "js' = x # zs" "js = as @ old # bs"
      "jo_WatchName old = jo_WatchName j" "jo_WatchName j \<notin> jo_WatchName ` set as" "zs = as @ j # bs"
      by auto
    with False show ?thesis
      by (intro exI[of _ "x # as"]) auto
  qed
qed simp

lemma replace_first_length: "replace_first j js = Some js' \<Longrightarrow> length js' = length js"
  using replace_first_Some by fastforce

interpretation jobs: latest_queue Enqueue dequeue_job q_jobs "\<lambda>q. nat (q_cap q)" jo_WatchName queue_ok
proof unfold_locales
  fix q j q'
  assume ok: "queue_ok q"
  show "length (q_jobs q) \<le> nat (q_cap q)"
    using ok by (auto simp: queue_ok_def)
  show "\<exists>q'. Enqueue j q = Some q'"
    using ok by (auto simp: Enqueue_def queue_ok_def split: option.splits list.splits)
  assume enq: "Enqueue j q = Some q'"
  show "queue_ok q' \<and> nat (q_cap q') = nat (q_cap q)"
    using ok enq
    by (auto simp: Enqueue_def queue_ok_def split: if_splits option.splits list.splits dest: replace_first_length)
  show "length (q_jobs q) < nat (q_cap q) \<Longrightarrow> q_jobs q' = q_jobs q @ [j]"
    using enq by (auto simp: Enqueue_def split: if_splits)
  assume full: "length (q_jobs q) = nat (q_cap q)"
  then have nolt: "\<not> int (length (q_jobs q)) < q_cap q"
    using ok by (auto simp: queue_ok_def)
  show "jo_WatchName j \<in> jo_WatchName ` set (q_jobs q) \<Longrightarrow>
      \<exists>as old bs. q_jobs q = as @ old # bs \<and> jo_WatchName old = jo_WatchName j \<and>
        jo_WatchName j \<notin> jo_WatchName ` set as \<and> q_jobs q' = as @ j # bs"
    by (rule replace_first_Some)
       (use enq nolt replace_first_None[of j "q_jobs q"] in \<open>auto simp: Enqueue_def split: option.splits\<close>)
  show "jo_WatchName j \<notin> jo_WatchName ` set (q_jobs q) \<Longrightarrow> q_jobs q' = tl (q_jobs q) @ [j]"
    using enq nolt replace_first_None[of j "q_jobs q"]
    by (auto simp: Enqueue_def split: option.splits list.splits)
next
  fix q j q'
  assume "queue_ok q" "dequeue_job q = Some (j, q')"
  then show "q_jobs q = j # q_jobs q' \<and> queue_ok q' \<and> nat (q_cap q') = nat (q_cap q)"
    by (auto simp: dequeue_job_def dequeue_attempt_def queue_ok_def split: if_splits list.splits)
next
  fix q
  assume "queue_ok q" "dequeue_job q = None"
  then show "q_jobs q = []"
    by (auto simp: dequeue_job_def dequeue_attempt_def split: if_splits list.splits)
qed

section \<open>Properties\<close>

lemma queue_New_ok: "0 < cap \<Longrightarrow> queue_ok (queue_New cap)"
  by (simp add: queue_ok_def queue_New_def)

text \<open>
  C13. The queue never panics, never holds more jobs than its capacity, and always holds the job that
  was put in last: for every sequence of operations on a queue of positive capacity.
\<close>

theorem queue_bounded_and_fresh:
  assumes "0 < cap"
  shows "\<exists>q out. run_queue Enqueue dequeue_job ops (queue_New cap) [] = Some (q, out) \<and>
    int (length (q_jobs q)) \<le> cap \<and>
    (\<exists>q'. Enqueue j q = Some q' \<and> j \<in> set (q_jobs q') \<and> int (length (q_jobs q')) \<le> cap)"
proof -
  obtain q out where q: "run_queue Enqueue dequeue_job ops (queue_New cap) [] = Some (q, out)" "queue_ok q"
      "nat (q_cap q) = nat (q_cap (queue_New cap))"
    using jobs.run_queue_ok[OF queue_New_ok[OF assms]] by blast
  then have cap: "q_cap q = cap"
    using assms by (simp add: queue_New_def queue_ok_def)
  obtain q' where q': "Enqueue j q = Some q'"
    using jobs.enq_total[OF q(2)] by blast
  have "queue_ok q'" "q_cap q' = cap"
    using jobs.enq_ok[OF q(2) q'] q(2) cap by (auto simp: queue_ok_def)
  with q q' cap jobs.enq_holds[OF q(2) q'] show ?thesis
    by (auto simp: queue_ok_def)
qed

definition sample_poll_job :: "string \<Rightarrow> string \<Rightarrow> poll_job" where
  "sample_poll_job nm sha = watch_job (main_watch\<lparr>wa_Name := nm\<rparr>) ''o'' ''r'' sha"

theorem queue_bounded_and_fresh_witness:
  "\<exists>q out. run_queue Enqueue dequeue_job [Some (sample_poll_job ''a'' ''1''), Some (sample_poll_job ''b'' ''2'')]
      (queue_New 1) [] = Some (q, out) \<and> int (length (q_jobs q)) \<le> 1"
  using queue_bounded_and_fresh[of 1 "[Some (sample_poll_job ''a'' ''1''), Some (sample_poll_job ''b'' ''2'')]"]
  by fastforce



text \<open>
  A full queue gives up exactly one job: the first job of the same watch, in whose place the new
  one waits, and the oldest job when the watch has none.
\<close>

lemma Enqueue_full:
  assumes "queue_ok q" "int (length (q_jobs q)) = q_cap q" "Enqueue j q = Some q'"
  shows "if jo_WatchName j \<in> jo_WatchName ` set (q_jobs q)
    then \<exists>as old bs. q_jobs q = as @ old # bs \<and> jo_WatchName old = jo_WatchName j \<and>
           jo_WatchName j \<notin> jo_WatchName ` set as \<and> q_jobs q' = as @ j # bs
    else q_jobs q' = tl (q_jobs q) @ [j]"
  using jobs.enq_replace[OF assms(1,3)] jobs.enq_drop[OF assms(1,3)] assms(2) by auto

lemma Enqueue_full_witness:
  "\<exists>q'. Enqueue (sample_poll_job ''a'' ''2'') \<lparr>q_jobs = [sample_poll_job ''b'' ''1''], q_cap = 1, q_closed = False\<rparr> = Some q' \<and>
     q_jobs q' = [sample_poll_job ''a'' ''2'']"
proof -
  let ?q = "\<lparr>q_jobs = [sample_poll_job ''b'' ''1''], q_cap = 1, q_closed = False\<rparr>"
  have ok: "queue_ok ?q" "int (length (q_jobs ?q)) = q_cap ?q"
    by (simp_all add: queue_ok_def)
  obtain q' where q': "Enqueue (sample_poll_job ''a'' ''2'') ?q = Some q'"
    using jobs.enq_total[OF ok(1)] by blast
  from Enqueue_full[OF ok q'] q' show ?thesis
    by (simp add: sample_poll_job_def watch_job_def)
qed

end
