(* ===== verification/Queue_Monitor.thy ===== *)
theory Queue_Monitor
  imports Job_Queue
begin

text \<open>
  The interleavings of one \<open>Dequeue\<close> of \<open>internal/queue/queue.go\<close> with \<open>Enqueue\<close>, \<open>Close\<close> and the
  cancellation of its context. The mutex is held in the states \<open>Testing\<close> and \<open>Parking\<close>; in \<open>Parking\<close>
  the call has found its context not done and is about to register with the condition variable,
  which \<open>cond.Wait\<close> does before it releases the mutex. The function given to \<open>context.AfterFunc\<close> runs
  once behind the cancellation and broadcasts without the mutex.
\<close>

section \<open>Steps\<close>

datatype deq_pc =
    Entering
  | Testing
  | Parking
  | Parked
  | Returned deq_result

record monitor =
  mo_queue :: job_queue
  mo_ctxDone :: bool
  mo_fired :: bool
  mo_pc :: deq_pc

definition wake :: "deq_pc \<Rightarrow> deq_pc" where
  "wake pc = (if pc = Parked then Entering else pc)"

definition mutex_free :: "monitor \<Rightarrow> bool" where
  "mutex_free m = (mo_pc m \<noteq> Testing \<and> mo_pc m \<noteq> Parking)"

text \<open>The steps of the call itself and of its context.\<close>

inductive deq_step :: "monitor \<Rightarrow> monitor \<Rightarrow> bool" where
  lock: "mo_pc m = Entering \<Longrightarrow> deq_step m (m\<lparr>mo_pc := Testing\<rparr>)"
| blocks: "mo_pc m = Testing \<Longrightarrow> dequeue_attempt (mo_ctxDone m) (mo_queue m) = (Blocks, q) \<Longrightarrow>
    deq_step m (m\<lparr>mo_pc := Parking\<rparr>)"
| returns: "mo_pc m = Testing \<Longrightarrow> dequeue_attempt (mo_ctxDone m) (mo_queue m) = (r, q) \<Longrightarrow> r \<noteq> Blocks \<Longrightarrow>
    deq_step m (m\<lparr>mo_pc := Returned r, mo_queue := q\<rparr>)"
| park: "mo_pc m = Parking \<Longrightarrow> deq_step m (m\<lparr>mo_pc := Parked\<rparr>)"
| cancel: "deq_step m (m\<lparr>mo_ctxDone := True\<rparr>)"
| fire: "mo_ctxDone m \<Longrightarrow> \<not> mo_fired m \<Longrightarrow> deq_step m (m\<lparr>mo_fired := True, mo_pc := wake (mo_pc m)\<rparr>)"

text \<open>The steps of other goroutines: \<open>Enqueue\<close> signals when it appends, \<open>Close\<close> broadcasts.\<close>

inductive env_step :: "monitor \<Rightarrow> monitor \<Rightarrow> bool" where
  enqueue_room: "mutex_free m \<Longrightarrow> Enqueue j (mo_queue m) = Some q \<Longrightarrow>
    int (length (q_jobs (mo_queue m))) < q_cap (mo_queue m) \<Longrightarrow>
    env_step m (m\<lparr>mo_queue := q, mo_pc := wake (mo_pc m)\<rparr>)"
| enqueue_full: "mutex_free m \<Longrightarrow> Enqueue j (mo_queue m) = Some q \<Longrightarrow>
    \<not> int (length (q_jobs (mo_queue m))) < q_cap (mo_queue m) \<Longrightarrow> env_step m (m\<lparr>mo_queue := q\<rparr>)"
| close: "mutex_free m \<Longrightarrow> env_step m (m\<lparr>mo_queue := queue_Close (mo_queue m), mo_pc := wake (mo_pc m)\<rparr>)"

definition monitor_step :: "monitor \<Rightarrow> monitor \<Rightarrow> bool" where
  "monitor_step m m' = (deq_step m m' \<or> env_step m m')"

definition monitor_init :: "job_queue \<Rightarrow> monitor" where
  "monitor_init q = \<lparr>mo_queue = q, mo_ctxDone = False, mo_fired = False, mo_pc = Entering\<rparr>"

inductive_cases deq_stepE: "deq_step m m'"

section \<open>No job is missed\<close>

definition monitor_inv :: "monitor \<Rightarrow> bool" where
  "monitor_inv m =
     (0 < q_cap (mo_queue m) \<and>
      (mo_pc m = Parked \<or> mo_pc m = Parking \<longrightarrow> q_jobs (mo_queue m) = [] \<and> \<not> q_closed (mo_queue m)))"

lemma deq_step_inv: "deq_step m m' \<Longrightarrow> monitor_inv m \<Longrightarrow> monitor_inv m'"
  by (induction rule: deq_step.induct)
     (auto simp: monitor_inv_def wake_def dequeue_attempt_def split: if_splits list.splits)

lemma env_step_inv: "env_step m m' \<Longrightarrow> monitor_inv m \<Longrightarrow> monitor_inv m'"
  by (induction rule: env_step.induct)
     (auto simp: monitor_inv_def wake_def mutex_free_def Enqueue_def queue_Close_def
       split: if_splits option.splits list.splits)

lemma monitor_inv_reachable:
  "monitor_step\<^sup>*\<^sup>* (monitor_init q) m \<Longrightarrow> 0 < q_cap q \<Longrightarrow> monitor_inv m"
proof (induction rule: rtranclp_induct)
  case base
  then show ?case by (simp add: monitor_inv_def monitor_init_def)
next
  case (step m m')
  then show ?case
    using deq_step_inv env_step_inv by (auto simp: monitor_step_def)
qed

text \<open>
  C35. \<open>Dequeue\<close> never sleeps beside a job: in every interleaving with \<open>Enqueue\<close>, \<open>Close\<close> and
  cancellation, when the call waits on the condition variable the queue is empty and not closed.
\<close>

theorem Dequeue_no_missed_job:
  assumes "monitor_step\<^sup>*\<^sup>* (monitor_init q) m" "0 < q_cap q" "mo_pc m = Parked"
  shows "q_jobs (mo_queue m) = [] \<and> \<not> q_closed (mo_queue m)"
  using monitor_inv_reachable[OF assms(1,2)] assms(3) by (simp add: monitor_inv_def)

section \<open>The lost wake-up\<close>

lemma deq_step_parked:
  "deq_step m m' \<Longrightarrow> mo_pc m = Parked \<Longrightarrow> mo_fired m \<Longrightarrow> mo_pc m' = Parked \<and> mo_fired m'"
  by (erule deq_stepE) auto

lemma deq_step_stuck:
  assumes "deq_step\<^sup>*\<^sup>* m m'" "mo_pc m = Parked" "mo_fired m"
  shows "mo_pc m' = Parked"
proof -
  from assms have "mo_pc m' = Parked \<and> mo_fired m'"
    by (induction rule: rtranclp_induct) (auto dest: deq_step_parked)
  then show ?thesis ..
qed

definition lost_state :: "job_queue \<Rightarrow> monitor" where
  "lost_state q = \<lparr>mo_queue = q, mo_ctxDone = True, mo_fired = True, mo_pc = Parked\<rparr>"

lemma lost_state_reachable:
  assumes "q_jobs q = []" "\<not> q_closed q"
  shows "deq_step\<^sup>*\<^sup>* (monitor_init q) (lost_state q)"
proof -
  let ?m = "\<lambda>c f pc. \<lparr>mo_queue = q, mo_ctxDone = c, mo_fired = f, mo_pc = pc\<rparr>"
  have "deq_step (?m False False Entering) (?m False False Testing)"
    using deq_step.lock[of "?m False False Entering"] by simp
  moreover have "deq_step (?m False False Testing) (?m False False Parking)"
    using deq_step.blocks[of "?m False False Testing" q] assms by (simp add: dequeue_attempt_def)
  moreover have "deq_step (?m False False Parking) (?m True False Parking)"
    using deq_step.cancel[of "?m False False Parking"] by simp
  moreover have "deq_step (?m True False Parking) (?m True True Parking)"
    using deq_step.fire[of "?m True False Parking"] by (simp add: wake_def)
  moreover have "deq_step (?m True True Parking) (?m True True Parked)"
    using deq_step.park[of "?m True True Parking"] by simp
  ultimately show ?thesis
    unfolding monitor_init_def lost_state_def
    by (meson converse_rtranclp_into_rtranclp r_into_rtranclp)
qed

text \<open>
  A cancelled \<open>Dequeue\<close> may wait forever, although it is documented to return when its context is
  done: the broadcast can run between the test of the context and the registration with the
  condition variable. On an empty queue there is a reachable state in which the context is done and
  the broadcast is over, and from which the call never returns unless another goroutine enqueues a
  job or closes the queue.
\<close>

lemma Dequeue_lost_wakeup:
  assumes "q_jobs q = []" "\<not> q_closed q"
  shows "\<exists>m. deq_step\<^sup>*\<^sup>* (monitor_init q) m \<and> mo_ctxDone m \<and> mo_fired m \<and>
    (\<forall>m'. deq_step\<^sup>*\<^sup>* m m' \<longrightarrow> mo_pc m' = Parked)"
  using lost_state_reachable[OF assms] deq_step_stuck[of "lost_state q"]
  by (intro exI[of _ "lost_state q"]) (auto simp: lost_state_def)

lemma Dequeue_lost_wakeup_witness:
  "\<exists>m. deq_step\<^sup>*\<^sup>* (monitor_init (queue_New 8)) m \<and> mo_ctxDone m \<and> mo_fired m \<and>
    (\<forall>m'. deq_step\<^sup>*\<^sup>* m m' \<longrightarrow> mo_pc m' = Parked)"
  using Dequeue_lost_wakeup[of "queue_New 8"] by (simp add: queue_New_def)

theorem Dequeue_no_missed_job_witness:
  "\<exists>m. monitor_step\<^sup>*\<^sup>* (monitor_init (queue_New 8)) m \<and> mo_pc m = Parked \<and> q_jobs (mo_queue m) = []"
proof -
  have "deq_step\<^sup>*\<^sup>* (monitor_init (queue_New 8)) (lost_state (queue_New 8))"
    by (rule lost_state_reachable) (simp_all add: queue_New_def)
  then have "monitor_step\<^sup>*\<^sup>* (monitor_init (queue_New 8)) (lost_state (queue_New 8))"
    by (rule rtranclp_mono[THEN predicate2D, rotated]) (auto simp: monitor_step_def)
  with Dequeue_no_missed_job[OF this] show ?thesis
    by (auto simp: queue_New_def lost_state_def)
qed

end
