(* ===== verification/Reporter.thy ===== *)
theory Reporter
  imports Go_Prelude
begin

text \<open>
  The reporter of commit statuses (\<open>internal/reporter/reporter.go\<close>). The GitHub client is a function of
  the number of the attempt: \<open>None\<close> is success, \<open>Some (Some code)\<close> an error with a response of that
  status, \<open>Some None\<close> an error without a response. \<open>ctxDone k\<close> says that the context ends while the
  loop waits before attempt \<open>k\<close>. The loop returns its result and the attempts it made.
\<close>

section \<open>Model\<close>

definition StatusPending :: string where "StatusPending = ''pending''"
definition StatusSuccess :: string where "StatusSuccess = ''success''"
definition StatusFailure :: string where "StatusFailure = ''failure''"
definition StatusError :: string where "StatusError = ''error''"

record ReportRequest =
  rq_Owner :: string
  rq_Repo :: string
  rq_SHA :: string
  rq_WorkflowName :: string
  rq_Status :: string
  rq_Description :: string
  rq_TargetURL :: string

record RepoStatus =
  rs_State :: string
  rs_Description :: string
  rs_Context :: string
  rs_TargetURL :: "string option"

datatype report_error =
    ReportContext
  | Report4xx int
  | ReportRetries

definition repo_status :: "ReportRequest \<Rightarrow> RepoStatus" where
  "repo_status r =
     \<lparr>rs_State = rq_Status r,
      rs_Description = (if length (rq_Description r) > 140 then take 140 (rq_Description r) else rq_Description r),
      rs_Context = ''ghenkins/'' @ rq_WorkflowName r,
      rs_TargetURL = (if rq_TargetURL r \<noteq> [] then Some (rq_TargetURL r) else None)\<rparr>"

definition backoffs :: "int list" where
  "backoffs = [1, 2, 4]"

function report_loop ::
  "(nat \<Rightarrow> bool) \<Rightarrow> (nat \<Rightarrow> RepoStatus \<Rightarrow> int option option) \<Rightarrow> RepoStatus \<Rightarrow> nat \<Rightarrow> report_error option \<times> nat list" where
  "report_loop ctxDone create status attempt =
     (if attempt \<le> length backoffs then
        if 0 < attempt \<and> ctxDone attempt then (Some ReportContext, [])
        else (case create attempt status of
                None \<Rightarrow> (None, [attempt])
              | Some resp \<Rightarrow>
                  (case resp of
                     Some code \<Rightarrow>
                       if 400 \<le> code \<and> code < 500 then (Some (Report4xx code), [attempt])
                       else (let (r, as) = report_loop ctxDone create status (Suc attempt) in (r, attempt # as))
                   | None \<Rightarrow>
                       (let (r, as) = report_loop ctxDone create status (Suc attempt) in (r, attempt # as))))
      else (Some ReportRetries, []))"
  by pat_completeness auto
termination
  by (relation "measure (\<lambda>(_, _, _, a). Suc (length backoffs) - a)") auto

declare report_loop.simps [simp del]

definition Report ::
  "(nat \<Rightarrow> bool) \<Rightarrow> (nat \<Rightarrow> RepoStatus \<Rightarrow> int option option) \<Rightarrow> ReportRequest \<Rightarrow> report_error option \<times> nat list" where
  "Report ctxDone create r = report_loop ctxDone create (repo_status r) 0"

section \<open>Properties\<close>

definition retryable :: "int option option \<Rightarrow> bool" where
  "retryable res = (case res of None \<Rightarrow> False | Some None \<Rightarrow> True | Some (Some code) \<Rightarrow> \<not> (400 \<le> code \<and> code < 500))"

definition client_error :: "int option option \<Rightarrow> bool" where
  "client_error res = (case res of Some (Some code) \<Rightarrow> 400 \<le> code \<and> code < 500 | _ \<Rightarrow> False)"

text \<open>Attempt \<open>k\<close> is reached when all attempts before it can be retried and no wait was cut off.\<close>

definition reached_from ::
  "(nat \<Rightarrow> bool) \<Rightarrow> (nat \<Rightarrow> RepoStatus \<Rightarrow> int option option) \<Rightarrow> RepoStatus \<Rightarrow> nat \<Rightarrow> nat \<Rightarrow> bool" where
  "reached_from ctxDone create status a k =
     (a \<le> k \<and> k \<le> 3 \<and> (\<forall>i \<in> {a..<k}. retryable (create i status)) \<and> (\<forall>i \<in> {a..k}. 0 < i \<longrightarrow> \<not> ctxDone i))"

definition reached :: "(nat \<Rightarrow> bool) \<Rightarrow> (nat \<Rightarrow> RepoStatus \<Rightarrow> int option option) \<Rightarrow> RepoStatus \<Rightarrow> nat \<Rightarrow> bool" where
  "reached ctxDone create status k = reached_from ctxDone create status 0 k"

lemma report_loop_step:
  "a \<le> 3 \<Longrightarrow> report_loop ctxDone create status a =
     (if 0 < a \<and> ctxDone a then (Some ReportContext, [])
      else if create a status = None then (None, [a])
      else if client_error (create a status) then (Some (Report4xx (the (the (create a status)))), [a])
      else (fst (report_loop ctxDone create status (Suc a)), a # snd (report_loop ctxDone create status (Suc a))))"
  by (subst report_loop.simps) (auto simp: backoffs_def client_error_def split: option.split prod.split)

lemma report_loop_end: "report_loop ctxDone create status 4 = (Some ReportRetries, [])"
  by (subst report_loop.simps) (simp add: backoffs_def)

lemma retryable_iff: "retryable res \<longleftrightarrow> res \<noteq> None \<and> \<not> client_error res"
  by (auto simp: retryable_def client_error_def split: option.split)

lemma reached_from_step:
  "a \<le> 3 \<Longrightarrow> reached_from ctxDone create status a k \<longleftrightarrow>
     (0 < a \<longrightarrow> \<not> ctxDone a) \<and>
     (k = a \<or> retryable (create a status) \<and> reached_from ctxDone create status (Suc a) k)"
proof (cases "k = a")
  case False
  have "a \<le> k \<Longrightarrow> {a..k} = insert a {Suc a..k}" by auto
  moreover have "a < k \<Longrightarrow> {a..<k} = insert a {Suc a..<k}" by auto
  ultimately show ?thesis
    using False by (auto simp: reached_from_def)
qed (auto simp: reached_from_def)

lemma report_loop_from:
  assumes "a \<le> 4"
  shows "(fst (report_loop ctxDone create status a) = None \<longleftrightarrow>
      (\<exists>k. reached_from ctxDone create status a k \<and> create k status = None)) \<and>
    (\<exists>n. a \<le> n \<and> n \<le> 4 \<and> snd (report_loop ctxDone create status a) = [a..<n])"
  using assms
proof (induction rule: inc_induct)
  case base
  show ?case by (auto simp: report_loop_end reached_from_def intro: exI[of _ 4])
next
  case (step a)
  then obtain n where n: "Suc a \<le> n" "n \<le> 4" "snd (report_loop ctxDone create status (Suc a)) = [Suc a..<n]"
    by blast
  then have calls: "a # [Suc a..<n] = [a..<n]" "[a] = [a..<Suc a]" "Suc a \<le> 4" "([] :: nat list) = [a..<a]"
    by (simp_all add: upt_conv_Cons)
  have ex: "(\<exists>k. reached_from ctxDone create status a k \<and> create k status = None) \<longleftrightarrow>
      (0 < a \<longrightarrow> \<not> ctxDone a) \<and> (create a status = None \<or> retryable (create a status) \<and>
        (\<exists>k. reached_from ctxDone create status (Suc a) k \<and> create k status = None))"
    using reached_from_step[of a ctxDone create status] step.hyps by auto
  have a: "a \<le> 3" using step.hyps by simp
  consider "0 < a \<and> ctxDone a" | "\<not> (0 < a \<and> ctxDone a)" "create a status = None"
    | "\<not> (0 < a \<and> ctxDone a)" "client_error (create a status)"
    | "\<not> (0 < a \<and> ctxDone a)" "create a status \<noteq> None" "\<not> client_error (create a status)"
    by blast
  then show ?case
  proof cases
    case 1
    then show ?thesis
      unfolding ex report_loop_step[OF a] using step.hyps by (auto intro: exI[of _ a])
  next
    case 2
    then show ?thesis
      unfolding ex report_loop_step[OF a] using step.hyps by (auto intro: exI[of _ "Suc a"])
  next
    case 3
    then show ?thesis
      unfolding ex report_loop_step[OF a] using step.hyps
      by (auto simp: retryable_iff client_error_def intro: exI[of _ "Suc a"])
  next
    case 4
    then show ?thesis
      unfolding ex report_loop_step[OF a] using step.IH n calls(1)
      by (auto simp: retryable_iff intro: exI[of _ n])
  qed
qed

text \<open>
  C37. A status is reported with at most four calls, and reported successfully exactly when a call
  that is reached succeeds: every call before it failed without a client error, and no wait was cut
  off. The description that is sent has at most 140 bytes and is a prefix of the one given.
\<close>

theorem Report_succeeds_iff:
  "(fst (Report ctxDone create r) = None \<longleftrightarrow>
      (\<exists>k. reached ctxDone create (repo_status r) k \<and> create k (repo_status r) = None)) \<and>
   (\<exists>n. n \<le> 4 \<and> snd (Report ctxDone create r) = [0..<n]) \<and>
   length (rs_Description (repo_status r)) \<le> 140 \<and>
   HasPrefix (rq_Description r) (rs_Description (repo_status r))"
  using report_loop_from[of 0 ctxDone create "repo_status r"]
  by (auto simp: Report_def reached_def repo_status_def HasPrefix_def)

end
