(* ===== verification/Action.thy ===== *)
theory Action
  imports Workflow Step_Env
begin

text \<open>
  The resolution of \<open>uses:\<close> references (\<open>internal/runner/action.go\<close>, up to \<open>copyDir\<close>). What the code
  reaches outside the program is the record \<open>host\<close>: HTTP requests with the status and body of the
  response, \<open>git clone\<close> with the files of the checkout, the YAML parser behind \<open>ParseActionDef\<close>, and
  the paths that can be written. Directories exist as prefixes of the paths of files.
\<close>

section \<open>Types\<close>

datatype ActionType =
    ActionTypeComposite
  | ActionTypeJS
  | ActionTypeDocker
  | ActionTypeDockerfile
  | ActionTypeLocal

record ResolvedAction =
  rv_Type :: ActionType
  rv_Def :: "ActionDef option"
  rv_SourceDir :: string
  rv_Image :: string
  rv_Uses :: string

record host =
  ho_get :: "string \<Rightarrow> (int \<times> string) option"
  ho_clone :: "string \<Rightarrow> string \<Rightarrow> string gomap option"
  ho_parse :: "string \<Rightarrow> ActionDef option"
  ho_writable :: "string \<Rightarrow> bool"

datatype action_error =
    NoActionFile
  | BadActionDef
  | MissingRef
  | MissingRepo
  | FetchFailed
  | CacheFailed
  | CloneFailed

section \<open>Helpers\<close>

definition TrimPrefix :: "string \<Rightarrow> string \<Rightarrow> string" where
  "TrimPrefix s p = (if HasPrefix s p then drop (length p) s else s)"

definition isJSUsing :: "string \<Rightarrow> bool" where
  "isJSUsing usg = (usg \<in> {''node12'', ''node16'', ''node20'', ''node24''})"

definition githubRawBaseURL :: string where
  "githubRawBaseURL = ''https://raw.githubusercontent.com''"

definition fetchRaw :: "host \<Rightarrow> string \<Rightarrow> string \<Rightarrow> string \<Rightarrow> string \<Rightarrow> string option" where
  "fetchRaw h owner repo ref filename =
     (case ho_get h (githubRawBaseURL @ ''/'' @ owner @ ''/'' @ repo @ ''/'' @ ref @ ''/'' @ filename) of
        None \<Rightarrow> None
      | Some (code, body) \<Rightarrow> if code = 404 then None else if code \<noteq> 200 then None else Some body)"

definition readActionYAML :: "file_system \<Rightarrow> string \<Rightarrow> string option" where
  "readActionYAML fs dir =
     (case map_of fs (path_join [dir, ''action.yml'']) of
        Some data \<Rightarrow> Some data
      | None \<Rightarrow> map_of fs (path_join [dir, ''action.yaml'']))"

definition path_exists :: "file_system \<Rightarrow> string \<Rightarrow> bool" where
  "path_exists fs p = list_ex (\<lambda>(q, _). q = p \<or> HasPrefix q (p @ ''/'')) fs"

definition dir_entries :: "file_system \<Rightarrow> string \<Rightarrow> string list" where
  "dir_entries fs dir =
     remdups (map (\<lambda>(q, _). takeWhile (\<lambda>c. c \<noteq> CHR ''/'') (drop (length dir + 1) q))
       (filter (\<lambda>(q, _). HasPrefix q (dir @ ''/'')) fs))"

definition needsClone :: "file_system \<Rightarrow> string \<Rightarrow> bool" where
  "needsClone fs dir =
     (if path_exists fs (path_join [dir, ''.git'']) then False else length (dir_entries fs dir) \<le> 1)"

text \<open>\<open>copyDir\<close> stops at the first file that cannot be written and leaves the ones before it.\<close>

fun copyDir :: "host \<Rightarrow> string gomap \<Rightarrow> string \<Rightarrow> file_system \<Rightarrow> bool \<times> file_system" where
  "copyDir h [] dst fs = (True, fs)"
| "copyDir h ((rel, data) # files) dst fs =
     (let p = path_join [dst, rel]
      in if ho_writable h p then copyDir h files dst (mput p data fs) else (False, fs))"

definition cloneActionRepo ::
  "host \<Rightarrow> string \<Rightarrow> string \<Rightarrow> string \<Rightarrow> string \<Rightarrow> file_system \<Rightarrow> bool \<times> file_system" where
  "cloneActionRepo h owner repo ref destDir fs =
     (case ho_clone h (''https://github.com/'' @ owner @ ''/'' @ repo) ref of
        None \<Rightarrow> (False, fs)
      | Some files \<Rightarrow> copyDir h files destDir fs)"

definition sanitizeUses :: "string \<Rightarrow> string" where
  "sanitizeUses uses =
     map (\<lambda>c. if c = CHR ''/'' \<or> c = CHR ''@'' \<or> c = CHR '':'' then CHR ''_''
              else if c = CHR ''.'' then CHR ''-'' else c) uses"

section \<open>Resolution\<close>

definition local_type :: "string \<Rightarrow> ActionType" where
  "local_type usg =
     (if usg = ''composite'' then ActionTypeLocal
      else if isJSUsing usg then ActionTypeJS
      else if usg = ''docker'' then ActionTypeDockerfile
      else ActionTypeJS)"

definition resolveLocalAction ::
  "host \<Rightarrow> string \<Rightarrow> string \<Rightarrow> file_system \<Rightarrow> action_error + ResolvedAction" where
  "resolveLocalAction h uses workspacePath fs =
     (let absPath = path_join [workspacePath, drop 2 uses]
      in case readActionYAML fs absPath of
           None \<Rightarrow> Inl NoActionFile
         | Some data \<Rightarrow>
             (case ho_parse h data of
                None \<Rightarrow> Inl BadActionDef
              | Some def \<Rightarrow>
                  Inr \<lparr>rv_Type = local_type (ar_Using (ad_Runs def)), rv_Def = Some def,
                       rv_SourceDir = absPath, rv_Image = [], rv_Uses = uses\<rparr>))"

text \<open>The parts of \<open>owner/repo@ref\<close>: at the last at-sign and the first slash before it.\<close>

definition split_uses :: "string \<Rightarrow> action_error + string \<times> string \<times> string" where
  "split_uses uses =
     (case LastIndexByte uses (CHR ''@'') of
        None \<Rightarrow> Inl MissingRef
      | Some at \<Rightarrow>
          (let ownerRepo = take at uses; ref = drop (at + 1) uses
           in case Index ownerRepo ''/'' of
                None \<Rightarrow> Inl MissingRepo
              | Some slash \<Rightarrow> Inr (take slash ownerRepo, drop (slash + 1) ownerRepo, ref)))"

definition remote_action :: "string \<Rightarrow> string \<Rightarrow> ActionDef \<Rightarrow> ResolvedAction" where
  "remote_action uses cacheKey def =
     (let usg = ar_Using (ad_Runs def); img = ar_Image (ad_Runs def);
          ra = \<lparr>rv_Type = ActionTypeJS, rv_Def = Some def, rv_SourceDir = [], rv_Image = [], rv_Uses = uses\<rparr>
      in if usg = ''composite'' then ra\<lparr>rv_Type := ActionTypeComposite, rv_SourceDir := cacheKey\<rparr>
         else if isJSUsing usg then ra
         else if usg = ''docker'' then
           (if img = ''Dockerfile'' \<or> img = [] \<or> \<not> HasPrefix img ''docker://''
            then ra\<lparr>rv_Type := ActionTypeDockerfile\<rparr>
            else ra\<lparr>rv_Type := ActionTypeDocker, rv_Image := TrimPrefix img ''docker://''\<rparr>)
         else ra)"

definition fetch_action :: "host \<Rightarrow> string \<Rightarrow> string \<Rightarrow> string \<Rightarrow> string option" where
  "fetch_action h owner repo ref =
     (case fetchRaw h owner repo ref ''action.yml'' of
        Some data \<Rightarrow> Some data
      | None \<Rightarrow> fetchRaw h owner repo ref ''action.yaml'')"

definition parse_remote :: "host \<Rightarrow> string \<Rightarrow> string \<Rightarrow> string \<Rightarrow> action_error + ResolvedAction" where
  "parse_remote h uses cacheKey data =
     (case ho_parse h data of None \<Rightarrow> Inl BadActionDef | Some def \<Rightarrow> Inr (remote_action uses cacheKey def))"

definition resolveRemoteAction ::
  "host \<Rightarrow> string \<Rightarrow> string \<Rightarrow> file_system \<Rightarrow> (action_error + ResolvedAction) \<times> file_system" where
  "resolveRemoteAction h uses cacheDir fs =
     (case split_uses uses of
        Inl e \<Rightarrow> (Inl e, fs)
      | Inr (owner, repo, ref) \<Rightarrow>
          (let cacheKey = path_join [cacheDir, owner, repo, ref];
               cachedFile = path_join [cacheKey, ''action.yml'']
           in case map_of fs cachedFile of
                Some data \<Rightarrow> (parse_remote h uses cacheKey data, fs)
              | None \<Rightarrow>
                  (case fetch_action h owner repo ref of
                     None \<Rightarrow> (Inl FetchFailed, fs)
                   | Some data \<Rightarrow>
                       if ho_writable h cachedFile
                       then (parse_remote h uses cacheKey data, mput cachedFile data fs)
                       else (Inl CacheFailed, fs))))"

definition ResolveAction ::
  "host \<Rightarrow> string \<Rightarrow> string \<Rightarrow> string \<Rightarrow> file_system \<Rightarrow> (action_error + ResolvedAction) \<times> file_system" where
  "ResolveAction h uses workspacePath cacheDir fs =
     (if HasPrefix uses ''docker://'' then
        (Inr \<lparr>rv_Type = ActionTypeDocker, rv_Def = None, rv_SourceDir = [],
              rv_Image = TrimPrefix uses ''docker://'', rv_Uses = uses\<rparr>, fs)
      else if HasPrefix uses ''./'' then (resolveLocalAction h uses workspacePath fs, fs)
      else resolveRemoteAction h uses cacheDir fs)"

text \<open>The clone on demand of \<open>execCompositeAction\<close> and \<open>resolveExtraBinds\<close>.\<close>

definition clone_if_needed :: "host \<Rightarrow> ResolvedAction \<Rightarrow> file_system \<Rightarrow> bool \<times> file_system" where
  "clone_if_needed h ra fs =
     (if needsClone fs (rv_SourceDir ra) then
        (case split_uses (rv_Uses ra) of
           Inr (owner, repo, ref) \<Rightarrow> cloneActionRepo h owner repo ref (rv_SourceDir ra) fs
         | Inl _ \<Rightarrow> (True, fs))
      else (True, fs))"

section \<open>Properties\<close>

lemma LastIndexByte_append: "c \<notin> set t \<Longrightarrow> LastIndexByte (s @ c # t) c = Some (length s)"
proof -
  assume "c \<notin> set t"
  then have "LastIndexByte t c = None" by (induction t) auto
  then show ?thesis by (induction s) auto
qed

lemma split_uses_parts:
  assumes "CHR ''/'' \<notin> set owner" "CHR ''@'' \<notin> set ref"
  shows "split_uses (owner @ ''/'' @ repo @ ''@'' @ ref) = Inr (owner, repo, ref)"
proof -
  have "LastIndexByte ((owner @ ''/'' @ repo) @ CHR ''@'' # ref) (CHR ''@'') = Some (length (owner @ ''/'' @ repo))"
    by (rule LastIndexByte_append[OF assms(2)])
  moreover have "Index (owner @ CHR ''/'' # repo) ''/'' = Some (length owner)"
    by (rule Index_char[OF assms(1)])
  ultimately show ?thesis
    by (simp add: split_uses_def Let_def)
qed

text \<open>
  C30. A reference \<open>owner/repo@ref\<close> is resolved once over the network: when the first resolution
  fetches and caches the action, every later one gives the same result from the cache, without the
  network and without a change of the files.
\<close>

theorem ResolveAction_cached:
  assumes "CHR ''/'' \<notin> set owner" "CHR ''@'' \<notin> set ref"
    and "uses = owner @ ''/'' @ repo @ ''@'' @ ref" "\<not> HasPrefix uses ''docker://''" "\<not> HasPrefix uses ''./''"
    and "ResolveAction h uses wsp cacheDir fs = (Inr ra, fs')"
  shows "ResolveAction (h\<lparr>ho_get := \<lambda>_. None\<rparr>) uses wsp cacheDir fs' = (Inr ra, fs') \<and>
    map_of fs' (path_join [path_join [cacheDir, owner, repo, ref], ''action.yml'']) \<noteq> None"
  using assms split_uses_parts[OF assms(1,2), of repo]
  by (auto simp: ResolveAction_def resolveRemoteAction_def parse_remote_def map_of_mput Let_def
      simp del: path_join.simps split: option.splits if_splits)

definition public_host :: host where
  "public_host =
     \<lparr>ho_get = \<lambda>_. Some (200, ''x''), ho_clone = \<lambda>_ _. None,
      ho_parse = \<lambda>_. Some \<lparr>ad_Name = [], ad_Description = [], ad_Inputs = [], ad_Outputs = [],
         ad_Runs = \<lparr>ar_Using = ''composite'', ar_Steps = [], ar_Main = [], ar_Image = []\<rparr>\<rparr>,
      ho_writable = \<lambda>_. True\<rparr>"

theorem ResolveAction_cached_witness:
  "\<exists>ra. ResolveAction public_host ''o/r@v1'' ''/w'' ''/c'' [] = (Inr ra, [(''/c/o/r/v1/action.yml'', ''x'')]) \<and>
     ResolveAction (public_host\<lparr>ho_get := \<lambda>_. None\<rparr>) ''o/r@v1'' ''/w'' ''/c'' [(''/c/o/r/v1/action.yml'', ''x'')] =
       (Inr ra, [(''/c/o/r/v1/action.yml'', ''x'')])"
proof -
  obtain ra where ra: "ResolveAction public_host ''o/r@v1'' ''/w'' ''/c'' [] = (Inr ra, [(''/c/o/r/v1/action.yml'', ''x'')])"
  proof
    show "ResolveAction public_host ''o/r@v1'' ''/w'' ''/c'' [] =
        (Inr (remote_action ''o/r@v1'' ''/c/o/r/v1'' (the (ho_parse public_host ''x''))), [(''/c/o/r/v1/action.yml'', ''x'')])"
      by code_simp
  qed
  have "CHR ''/'' \<notin> set ''o''" "CHR ''@'' \<notin> set ''v1''" "''o/r@v1'' = ''o'' @ ''/'' @ ''r'' @ ''@'' @ ''v1''"
    "\<not> HasPrefix ''o/r@v1'' ''docker://''" "\<not> HasPrefix ''o/r@v1'' ''./''"
    by simp_all
  from ResolveAction_cached[OF this ra] ra show ?thesis by blast
qed

lemma local_type_cases:
  "local_type u = (if u = ''composite'' then ActionTypeLocal else if u = ''docker'' then ActionTypeDockerfile
     else ActionTypeJS)"
  by (auto simp: local_type_def isJSUsing_def)

lemma ResolveAction_local:
  assumes "HasPrefix uses ''./''" "ResolveAction h uses wsp cacheDir fs = (Inr ra, fs')"
  obtains data def where "fs' = fs" "rv_SourceDir ra = path_join [wsp, drop 2 uses]"
    "readActionYAML fs (rv_SourceDir ra) = Some data" "ho_parse h data = Some def" "rv_Def ra = Some def"
    "rv_Type ra = local_type (ar_Using (ad_Runs def))"
proof -
  have "\<not> HasPrefix uses ''docker://''"
    using assms(1) by (cases uses) auto
  with assms that show ?thesis
    by (auto simp: ResolveAction_def resolveLocalAction_def Let_def
        simp del: path_join.simps split: option.splits if_splits)
qed

end
