(* ===== verification/Container.thy ===== *)
theory Container
  imports Step_Env
begin

text \<open>
  The containers of jobs (\<open>internal/runner/container.go\<close>). The Podman bindings are the record \<open>podman\<close>:
  whether an image can be pulled, the identifier of a container that is created from a specification beside those that exist,
  whether it can be started and removed, and what a command in it does. A command may change the files, which is how steps write their variables and
  outputs. The methods pass the connection, never the context of their caller, to the bindings.
\<close>

section \<open>Types\<close>

record BindMount =
  bm_HostPath :: string
  bm_ContainerPath :: string
  bm_ReadOnly :: bool

record NamedVolumeMount =
  nv_Name :: string
  nv_ContainerPath :: string
  nv_Copy :: bool

record ContainerConfig =
  cc_Image :: string
  cc_Name :: string
  cc_Env :: "string gomap"
  cc_WorkspaceHost :: string
  cc_RunnerDirHost :: string
  cc_ExtraBinds :: "BindMount list"
  cc_NamedVolumes :: "NamedVolumeMount list"
  cc_NetworkMode :: string

text \<open>The parts of the bindings' types that the code sets.\<close>

record spec_mount =
  sm_Type :: string
  sm_Source :: string
  sm_Destination :: string
  sm_Options :: "string list"

record spec_volume =
  sv_Name :: string
  sv_Dest :: string
  sv_Options :: "string list"

datatype ns_mode = Bridge | Host

record spec_generator =
  sp_Image :: string
  sp_Name :: string
  sp_Entrypoint :: "string list"
  sp_Command :: "string list"
  sp_Env :: "string gomap"
  sp_WorkDir :: string
  sp_Mounts :: "spec_mount list"
  sp_Volumes :: "spec_volume list"
  sp_NetNS :: ns_mode

record exec_config =
  xc_Cmd :: "string list"
  xc_Env :: "string list"
  xc_WorkingDir :: string

datatype docker_result = DockerOK | DockerExit int | DockerFailed

text \<open>The containers that exist, by their identifiers.\<close>

type_synonym containers = "string list"

text \<open>
  \<open>pd_execStart\<close> runs a command to its end, or fails, and gives the files behind it; \<open>pd_execInspect\<close> is the exit code
  of a command that was started with given files. \<open>pd_run\<close> is the command \<open>podman\<close> with its arguments.
\<close>

record podman =
  pd_pull :: "string \<Rightarrow> bool"
  pd_createWithSpec :: "spec_generator \<Rightarrow> containers \<Rightarrow> string option"
  pd_start :: "string \<Rightarrow> bool"
  pd_remove :: "string \<Rightarrow> bool"
  pd_execCreate :: "exec_config \<Rightarrow> bool"
  pd_execStart :: "exec_config \<Rightarrow> file_system \<Rightarrow> bool \<times> file_system"
  pd_execInspect :: "exec_config \<Rightarrow> file_system \<Rightarrow> int option"
  pd_run :: "string list \<Rightarrow> file_system \<Rightarrow> docker_result \<times> file_system"
  pd_mkdirTemp :: "string \<Rightarrow> string option"

section \<open>Operations\<close>

text \<open>
  \<open>newConnection\<close> says whether the bindings can connect to a socket; the arguments are the variable \<open>XDG_RUNTIME_DIR\<close> and the number
  of the user.
\<close>

definition Connect :: "(string \<Rightarrow> bool) \<Rightarrow> string \<Rightarrow> int \<Rightarrow> bool" where
  "Connect newConnection runtimeDir uid =
     (let sockDir = (if runtimeDir = [] then ''/run/user/'' @ Itoa uid else runtimeDir)
      in newConnection (''unix://'' @ sockDir @ ''/podman/podman.sock''))"

definition PullImage :: "podman \<Rightarrow> string \<Rightarrow> bool" where
  "PullImage pd img = pd_pull pd img"

definition bind_spec :: "BindMount \<Rightarrow> spec_mount" where
  "bind_spec b =
     \<lparr>sm_Type = ''bind'', sm_Source = bm_HostPath b, sm_Destination = bm_ContainerPath b,
      sm_Options = (if bm_ReadOnly b then [''ro''] else [''rw''])\<rparr>"

definition volume_spec :: "NamedVolumeMount \<Rightarrow> spec_volume" where
  "volume_spec v =
     \<lparr>sv_Name = nv_Name v, sv_Dest = nv_ContainerPath v, sv_Options = (if nv_Copy v then [''copy''] else [])\<rparr>"

definition container_spec :: "ContainerConfig \<Rightarrow> spec_generator" where
  "container_spec cfg =
     \<lparr>sp_Image = cc_Image cfg, sp_Name = cc_Name cfg, sp_Entrypoint = [''/bin/sh''],
      sp_Command = [''-c'', ''while true; do sleep 86400; done''], sp_Env = cc_Env cfg, sp_WorkDir = ''/workspace'',
      sp_Mounts =
        [\<lparr>sm_Type = ''bind'', sm_Source = cc_WorkspaceHost cfg, sm_Destination = ''/workspace'', sm_Options = [''rw'']\<rparr>,
         \<lparr>sm_Type = ''bind'', sm_Source = cc_RunnerDirHost cfg, sm_Destination = ''/runner'', sm_Options = [''rw'']\<rparr>] @
        map bind_spec (cc_ExtraBinds cfg),
      sp_Volumes = map volume_spec (cc_NamedVolumes cfg),
      sp_NetNS = (if cc_NetworkMode cfg = ''host'' then Host else Bridge)\<rparr>"

definition CreateContainer :: "podman \<Rightarrow> ContainerConfig \<Rightarrow> containers \<Rightarrow> (string \<times> containers) option" where
  "CreateContainer pd cfg cs =
     (if cc_Image cfg = [] then None else map_option (\<lambda>cid. (cid, cid # cs)) (pd_createWithSpec pd (container_spec cfg) cs))"

definition Start :: "podman \<Rightarrow> string \<Rightarrow> bool" where
  "Start pd cid = pd_start pd cid"

definition Exec :: "podman \<Rightarrow> string list \<Rightarrow> string list \<Rightarrow> string \<Rightarrow> file_system \<Rightarrow> int option \<times> file_system" where
  "Exec pd cmd env workdir fs =
     (let config = \<lparr>xc_Cmd = cmd, xc_Env = env, xc_WorkingDir = workdir\<rparr>
      in if \<not> pd_execCreate pd config then (None, fs)
         else (case pd_execStart pd config fs of
                 (False, fs') \<Rightarrow> (None, fs')
               | (True, fs') \<Rightarrow> (pd_execInspect pd config fs, fs')))"

text \<open>\<open>Remove\<close>: the errors of the stop are ignored, the forced removal stops the container anyway.\<close>

definition Remove :: "podman \<Rightarrow> string \<Rightarrow> containers \<Rightarrow> bool \<times> containers" where
  "Remove pd cid cs = (if pd_remove pd cid then (True, removeAll cid cs) else (False, cs))"

end
