(* ===== verification/Executor.thy ===== *)
theory Executor
  imports Action Container Expr_Parser Store
begin

text \<open>
  The execution of a job (\<open>internal/runner/executor.go\<close> and the second half of
  \<open>internal/runner/action.go\<close>). Log output is left out.

  \<open>RunStep\<close>, \<open>runUsesStep\<close> and \<open>execCompositeAction\<close> call each other, without a bound when an action uses
  itself: they take fuel, and \<open>None\<close> means that it ran out.
\<close>

section \<open>Types\<close>

record ExecutionContext =
  ex_StepResults :: "StepResult gomap"
  ex_LiveEnv :: "string gomap"
  ex_LivePath :: "string list"
  ex_JobStatus :: JobStatus
  ex_Cancelled :: bool
  ex_Secrets :: "string gomap"
  ex_Inputs :: "string gomap"
  ex_DefaultShell :: string
  ex_DefaultWorkdir :: string

record JobResult =
  jr_JobID :: string
  jr_Status :: JobStatus
  jr_Steps :: "StepResult gomap"

record job_runner =
  jx_WorkspaceDir :: string
  jx_workspaceDir :: string
  jx_cacheDir :: string

datatype step_error =
    ExecError
  | ResolveError action_error
  | NoDefinition
  | CloneError
  | Unsupported string
  | DockerError

datatype job_error =
    JobIf
  | MkdirTemp
  | EnvFilesError env_error
  | WriteEvent
  | PullError
  | CreateContainerError
  | StartContainer

type_synonym step_out = "(StepResult \<times> step_error option) \<times> file_system"

definition step_success :: StepResult where
  "step_success = \<lparr>sr_Outcome = ''success'', sr_Conclusion = ''success'', sr_Outputs = []\<rparr>"

definition step_failure :: StepResult where
  "step_failure = \<lparr>sr_Outcome = ''failure'', sr_Conclusion = ''failure'', sr_Outputs = []\<rparr>"

definition step_failure_open :: StepResult where
  "step_failure_open = \<lparr>sr_Outcome = ''failure'', sr_Conclusion = [], sr_Outputs = []\<rparr>"

definition step_skipped :: StepResult where
  "step_skipped = \<lparr>sr_Outcome = ''skipped'', sr_Conclusion = ''skipped'', sr_Outputs = []\<rparr>"

section \<open>Environment and contexts\<close>

definition isCheckoutAction :: "golib \<Rightarrow> string \<Rightarrow> bool" where
  "isCheckoutAction lib uses = HasPrefix (ToLower lib uses) ''actions/checkout@''"

definition buildShellCmd :: "string \<Rightarrow> string \<Rightarrow> string list" where
  "buildShellCmd shell script =
     (if shell = ''bash'' \<or> shell = [] then
        [''/bin/bash'', ''--noprofile'', ''--norc'', ''-eo'', ''pipefail'', ''-c'', script]
      else if shell = ''sh'' then [''/bin/sh'', ''-e'', ''-c'', script]
      else [shell, ''-c'', script])"

text \<open>The variables that \<open>buildInitialEnv\<close> sets behind the ones of the workflow and the job.\<close>

definition standard_env :: "Workflow \<Rightarrow> string \<Rightarrow> JobInfo \<Rightarrow> string gomap" where
  "standard_env w jobID info =
     [(''CI'', ''true''), (''GITHUB_ACTIONS'', ''true''), (''GITHUB_SHA'', ji_SHA info),
      (''GITHUB_REF'', ji_Ref info), (''GITHUB_REF_NAME'', ji_RefName info), (''GITHUB_REF_TYPE'', ''branch''),
      (''GITHUB_REPOSITORY'', ji_Repo info), (''GITHUB_REPOSITORY_OWNER'', ji_Owner info),
      (''GITHUB_EVENT_NAME'', ji_EventName info), (''GITHUB_EVENT_PATH'', ''/runner/_event.json''),
      (''GITHUB_WORKSPACE'', ''/workspace''), (''GITHUB_ENV'', ''/runner/_env''),
      (''GITHUB_OUTPUT'', ''/runner/_output''), (''GITHUB_PATH'', ''/runner/_path''),
      (''GITHUB_STEP_SUMMARY'', ''/runner/_summary''), (''GITHUB_RUN_ID'', ji_RunID info),
      (''GITHUB_RUN_NUMBER'', Itoa (ji_RunNumber info)), (''GITHUB_SERVER_URL'', ''https://github.com''),
      (''GITHUB_API_URL'', ''https://api.github.com''), (''GITHUB_GRAPHQL_URL'', ''https://api.github.com/graphql''),
      (''GITHUB_ACTOR'', if ji_Actor info = [] then ''ghenkins'' else ji_Actor info),
      (''GITHUB_JOB'', jobID), (''GITHUB_WORKFLOW'', wf_Name w), (''RUNNER_OS'', ''Linux''),
      (''RUNNER_ARCH'', ''X64''), (''RUNNER_NAME'', ''ghenkins''), (''RUNNER_TEMP'', ''/runner/_temp''),
      (''RUNNER_TOOL_CACHE'', ''/runner/_tools'')]"

definition input_key :: "golib \<Rightarrow> string \<Rightarrow> string" where
  "input_key lib name = ''INPUT_'' @ ToUpper lib (ReplaceAll name ''-'' ''_'')"

definition buildInitialEnv :: "golib \<Rightarrow> Workflow \<Rightarrow> string \<Rightarrow> Job \<Rightarrow> JobInfo \<Rightarrow> string gomap" where
  "buildInitialEnv lib w jobID job info =
     (let env = mput_all (mput_all (mput_all [] (wf_Env w)) (jb_Env job)) (standard_env w jobID info);
          env = (if ji_EventName info = ''pull_request''
                 then mput ''GITHUB_BASE_REF'' (ji_BaseRef info) (mput ''GITHUB_HEAD_REF'' (ji_HeadRef info) env)
                 else env)
      in mput_all env (map (\<lambda>(name, val). (input_key lib name, val)) (ji_Inputs info)))"

definition buildStepEvalCtx :: "ExecutionContext \<Rightarrow> Step \<Rightarrow> JobInfo \<Rightarrow> EvalContext" where
  "buildStepEvalCtx ex step info =
     \<lparr>ec_Github = github_ctx info,
      ec_Env = mput_all (mput_all [] (ex_LiveEnv ex)) (st_Env step),
      ec_Job = [(''status'', VString (jobStatusString (ex_JobStatus ex)))],
      ec_Steps = ex_StepResults ex, ec_Runner = runner_ctx, ec_Secrets = ex_Secrets ex,
      ec_Inputs = ex_Inputs ex, ec_JobStatus = ex_JobStatus ex, ec_Cancelled = ex_Cancelled ex\<rparr>"

text \<open>\<open>sanitizeName\<close> works on the characters of the string; one outside ASCII becomes one dash.\<close>

definition name_char :: "char \<Rightarrow> bool" where
  "name_char c = (isIdentCont c)"

definition sanitizeName :: "string \<Rightarrow> string" where
  "sanitizeName s =
     map (\<lambda>c. if name_char c then c else CHR ''-'') (filter (\<lambda>c. \<not> (CHR 0x80 \<le> c \<and> c \<le> CHR 0xBF)) s)"

section \<open>Steps\<close>

definition default_path :: string where
  "default_path = ''/usr/local/sbin:/usr/local/bin:/usr/sbin:/usr/bin:/sbin:/bin''"

definition shell_env :: "golib \<Rightarrow> Step \<Rightarrow> ExecutionContext \<Rightarrow> EvalContext \<Rightarrow> string gomap" where
  "shell_env lib step ex ec =
     (let envMap = mput_all (mput_all [] (ex_LiveEnv ex)) (map (\<lambda>(k, v). (k, Interpolate lib ec v)) (st_Env step))
      in if ex_LivePath ex \<noteq> [] then
           (let base = mget_str envMap ''PATH'';
                base = (if base = [] then default_path else base)
            in mput ''PATH'' (Join (ex_LivePath ex) '':'' @ '':'' @ base) envMap)
         else envMap)"

definition shell_workdir :: "golib \<Rightarrow> Step \<Rightarrow> ExecutionContext \<Rightarrow> EvalContext \<Rightarrow> string" where
  "shell_workdir lib step ex ec =
     (let workdir = (if st_WorkingDirectory step = [] then ex_DefaultWorkdir ex else st_WorkingDirectory step);
          workdir = (if workdir \<noteq> [] then Interpolate lib ec workdir else workdir)
      in if workdir = [] then ''/workspace'' else workdir)"

definition runShellStep ::
  "golib \<Rightarrow> podman \<Rightarrow> Step \<Rightarrow> ExecutionContext \<Rightarrow> EvalContext \<Rightarrow> file_system \<Rightarrow> step_out" where
  "runShellStep lib pd step ex ec fs =
     (let shell = (if st_Shell step = [] then ex_DefaultShell ex else st_Shell step);
          shell = (if shell = [] then ''bash'' else shell);
          cmd = buildShellCmd shell (Interpolate lib ec (st_Run step));
          envSlice = map (\<lambda>(k, v). k @ ''='' @ v) (shell_env lib step ex ec)
      in case Exec pd cmd envSlice (shell_workdir lib step ex ec) fs of
           (None, fs') \<Rightarrow> ((step_failure, Some ExecError), fs')
         | (Some exitCode, fs') \<Rightarrow> ((if exitCode \<noteq> 0 then step_failure else step_success, None), fs'))"

definition docker_args :: "golib \<Rightarrow> job_runner \<Rightarrow> Step \<Rightarrow> ResolvedAction \<Rightarrow> ExecutionContext \<Rightarrow> string list" where
  "docker_args lib jx step resolved ex =
     [''run'', ''--rm''] @ concat (map (\<lambda>(k, v). [''-e'', k @ ''='' @ v]) (ex_LiveEnv ex)) @
     concat (map (\<lambda>(k, v). [''-e'', input_key lib k @ ''='' @ v]) (st_With step)) @
     (if jx_WorkspaceDir jx \<noteq> []
      then [''-v'', jx_WorkspaceDir jx @ '':/github/workspace:rw'', ''-w'', ''/github/workspace''] else []) @
     [rv_Image resolved]"

definition execDockerAction ::
  "golib \<Rightarrow> podman \<Rightarrow> job_runner \<Rightarrow> Step \<Rightarrow> ResolvedAction \<Rightarrow> ExecutionContext \<Rightarrow> file_system \<Rightarrow> step_out" where
  "execDockerAction lib pd jx step resolved ex fs =
     (case pd_run pd (docker_args lib jx step resolved ex) fs of
        (DockerOK, fs') \<Rightarrow> ((step_success, None), fs')
      | (DockerExit code, fs') \<Rightarrow>
          if code \<noteq> 0 then ((step_failure, None), fs') else ((step_failure_open, Some DockerError), fs')
      | (DockerFailed, fs') \<Rightarrow> ((step_failure_open, Some DockerError), fs'))"

text \<open>The inputs of a composite action: interpolated \<open>with\<close> values, then defaults of missing inputs.\<close>

definition composite_inputs :: "golib \<Rightarrow> Step \<Rightarrow> ActionDef \<Rightarrow> EvalContext \<Rightarrow> string gomap" where
  "composite_inputs lib step def ec =
     foldl (\<lambda>m (name, inp). if map_of m name = None \<and> ai_Default inp \<noteq> [] then mput name (ai_Default inp) m else m)
       (mput_all [] (map (\<lambda>(k, v). (k, Interpolate lib ec v)) (st_With step))) (ad_Inputs def)"

definition nested_context :: "ExecutionContext \<Rightarrow> string gomap \<Rightarrow> ExecutionContext" where
  "nested_context ex inputs =
     ex\<lparr>ex_StepResults := [], ex_JobStatus := JobStatusPending, ex_Inputs := inputs\<rparr>"

text \<open>The loop over the steps of a composite action, with \<open>runStep\<close> for the recursive call.\<close>

fun composite_steps ::
  "(Step \<Rightarrow> ExecutionContext \<Rightarrow> file_system \<Rightarrow> step_out option) \<Rightarrow> Step list \<Rightarrow> ExecutionContext \<Rightarrow> file_system \<Rightarrow>
   (ExecutionContext \<times> file_system) option" where
  "composite_steps runStep [] nested fs = Some (nested, fs)"
| "composite_steps runStep (compStep # steps) nested fs =
     (case runStep compStep nested fs of
        None \<Rightarrow> None
      | Some ((result, err), fs') \<Rightarrow>
          (let nested = (if st_ID compStep \<noteq> []
                         then nested\<lparr>ex_StepResults := mput (st_ID compStep) result (ex_StepResults nested)\<rparr> else nested)
           in if (err \<noteq> None \<or> sr_Outcome result = ''failure'') \<and> \<not> st_ContinueOnError compStep
              then Some (nested\<lparr>ex_JobStatus := JobStatusFailure\<rparr>, fs')
              else composite_steps runStep steps nested fs'))"

definition composite_outputs ::
  "golib \<Rightarrow> ActionDef \<Rightarrow> ExecutionContext \<Rightarrow> Step \<Rightarrow> JobInfo \<Rightarrow> string gomap" where
  "composite_outputs lib def nested step info =
     mput_all [] (map (\<lambda>(name, outDef). (name, Interpolate lib (buildStepEvalCtx nested step info) (ao_Value outDef)))
       (filter (\<lambda>(name, outDef). ao_Value outDef \<noteq> []) (ad_Outputs def)))"

definition execCompositeAction ::
  "golib \<Rightarrow> host \<Rightarrow> (Step \<Rightarrow> ExecutionContext \<Rightarrow> file_system \<Rightarrow> step_out option) \<Rightarrow> JobInfo \<Rightarrow> Step \<Rightarrow> ResolvedAction \<Rightarrow>
   ExecutionContext \<Rightarrow> file_system \<Rightarrow> step_out option" where
  "execCompositeAction lib h runStep info step resolved ex fs =
     (case rv_Def resolved of
        None \<Rightarrow> Some ((step_failure_open, Some NoDefinition), fs)
      | Some def \<Rightarrow>
          (let (cloned, fs1) = (if rv_Type resolved = ActionTypeComposite \<and> rv_SourceDir resolved \<noteq> []
                                then clone_if_needed h resolved fs else (True, fs))
           in if \<not> cloned then Some ((step_failure_open, Some CloneError), fs1)
              else (let inputs = composite_inputs lib step def (buildStepEvalCtx ex step info)
                    in case composite_steps runStep (ar_Steps (ad_Runs def)) (nested_context ex inputs) fs1 of
                         None \<Rightarrow> None
                       | Some (nested, fs2) \<Rightarrow>
                           (let outcome = (if ex_JobStatus nested = JobStatusFailure then ''failure'' else ''success'')
                            in Some ((\<lparr>sr_Outcome = outcome, sr_Conclusion = outcome,
                                      sr_Outputs = composite_outputs lib def nested step info\<rparr>, None), fs2)))))"

definition ExecActionStep ::
  "golib \<Rightarrow> host \<Rightarrow> podman \<Rightarrow> job_runner \<Rightarrow> (Step \<Rightarrow> ExecutionContext \<Rightarrow> file_system \<Rightarrow> step_out option) \<Rightarrow> JobInfo \<Rightarrow>
   Step \<Rightarrow> ResolvedAction \<Rightarrow> ExecutionContext \<Rightarrow> file_system \<Rightarrow> step_out option" where
  "ExecActionStep lib h pd jx runStep info step resolved ex fs =
     (case rv_Type resolved of
        ActionTypeComposite \<Rightarrow> execCompositeAction lib h runStep info step resolved ex fs
      | ActionTypeLocal \<Rightarrow> execCompositeAction lib h runStep info step resolved ex fs
      | ActionTypeDocker \<Rightarrow> Some (execDockerAction lib pd jx step resolved ex fs)
      | _ \<Rightarrow> Some ((step_failure_open, Some (Unsupported (st_Uses step))), fs))"

definition runUsesStep ::
  "golib \<Rightarrow> host \<Rightarrow> podman \<Rightarrow> job_runner \<Rightarrow> (Step \<Rightarrow> ExecutionContext \<Rightarrow> file_system \<Rightarrow> step_out option) \<Rightarrow> JobInfo \<Rightarrow>
   Step \<Rightarrow> ExecutionContext \<Rightarrow> file_system \<Rightarrow> step_out option" where
  "runUsesStep lib h pd jx runStep info step ex fs =
     (let uses = Interpolate lib (buildStepEvalCtx ex step info) (st_Uses step)
      in if isCheckoutAction lib uses then Some ((step_success, None), fs)
         else (case ResolveAction h uses (jx_WorkspaceDir jx) (path_join [jx_cacheDir jx, ''actions'']) fs of
                 (Inl e, fs') \<Rightarrow> Some ((step_failure, Some (ResolveError e)), fs')
               | (Inr resolved, fs') \<Rightarrow> ExecActionStep lib h pd jx runStep info step resolved ex fs'))"

fun RunStep ::
  "golib \<Rightarrow> host \<Rightarrow> podman \<Rightarrow> job_runner \<Rightarrow> JobInfo \<Rightarrow> nat \<Rightarrow> Step \<Rightarrow> ExecutionContext \<Rightarrow> file_system \<Rightarrow> step_out option" where
  "RunStep lib h pd jx info 0 step ex fs = None"
| "RunStep lib h pd jx info (Suc n) step ex fs =
     (if st_Run step \<noteq> [] then Some (runShellStep lib pd step ex (buildStepEvalCtx ex step info) fs)
      else if st_Uses step \<noteq> [] then runUsesStep lib h pd jx (RunStep lib h pd jx info n) info step ex fs
      else Some ((step_success, None), fs))"

end
