(* ===== verification/Job_Run.thy ===== *)
theory Job_Run
  imports Executor
begin

text \<open>
  The run of one job (\<open>RunJob\<close> of \<open>internal/runner/executor.go\<close>): the condition of the job, the image, the
  files of the runner directory, the mounts, the container, the loop over the steps and the collection
  of artifacts.

  The clock, random identifiers and the hash of a file are the record \<open>run_env\<close>. Directories without files are not
  represented, so \<open>os.MkdirAll\<close> leaves the files as they are. The timeout of the job ends the context
  of the calls, which neither \<open>Container.Start\<close> nor \<open>Container.Exec\<close> looks at; its effect on requests
  and clones is part of \<open>host\<close>. All entries of a list of steps are present (YAML \<open>null\<close> is not).
\<close>

section \<open>Mounts\<close>

record run_env =
  re_nano :: int
  re_uuid :: "string \<Rightarrow> string"
  re_sha256 :: "string \<Rightarrow> string"

text \<open>The step with the zero values of its fields, \<open>&Step{}\<close>.\<close>

definition empty_step :: Step where
  "empty_step =
     \<lparr>st_ID = [], st_Name = [], st_Uses = [], st_Run = [], st_Shell = [], st_WorkingDirectory = [], st_With = [],
      st_Env = [], st_If = [], st_ContinueOnError = False, st_TimeoutMinutes = 0\<rparr>"

text \<open>The loop of \<open>resolveExtraBinds\<close>: \<open>seen\<close> are the source directories mounted so far.\<close>

fun extra_binds ::
  "golib \<Rightarrow> host \<Rightarrow> job_runner \<Rightarrow> EvalContext \<Rightarrow> string \<Rightarrow> string list \<Rightarrow> Step list \<Rightarrow> file_system \<Rightarrow>
   BindMount list \<times> file_system" where
  "extra_binds lib h jx ec actionCacheDir seen [] fs = ([], fs)"
| "extra_binds lib h jx ec actionCacheDir seen (step # steps) fs =
     (if st_Uses step = [] then extra_binds lib h jx ec actionCacheDir seen steps fs
      else
        (let uses = Interpolate lib ec (st_Uses step)
         in if isCheckoutAction lib uses \<or> HasPrefix uses ''docker://'' \<or> HasPrefix uses ''./''
            then extra_binds lib h jx ec actionCacheDir seen steps fs
            else
              (case ResolveAction h uses (jx_WorkspaceDir jx) actionCacheDir fs of
                 (Inl _, fs1) \<Rightarrow> extra_binds lib h jx ec actionCacheDir seen steps fs1
               | (Inr resolved, fs1) \<Rightarrow>
                   if rv_Type resolved \<noteq> ActionTypeComposite \<or> rv_SourceDir resolved = [] \<or> rv_SourceDir resolved \<in> set seen
                   then extra_binds lib h jx ec actionCacheDir seen steps fs1
                   else
                     (let (cloned, fs2) = clone_if_needed h resolved fs1;
                          (binds, fs3) = extra_binds lib h jx ec actionCacheDir (rv_SourceDir resolved # seen) steps fs2
                      in (if cloned
                          then \<lparr>bm_HostPath = rv_SourceDir resolved, bm_ContainerPath = ''/actions/'' @ sanitizeUses uses,
                                bm_ReadOnly = True\<rparr> # binds
                          else binds, fs3)))))"

definition resolveExtraBinds ::
  "golib \<Rightarrow> host \<Rightarrow> job_runner \<Rightarrow> Step list \<Rightarrow> ExecutionContext \<Rightarrow> JobInfo \<Rightarrow> string \<Rightarrow> file_system \<Rightarrow>
   BindMount list \<times> file_system" where
  "resolveExtraBinds lib h jx steps ex info actionCacheDir fs =
     extra_binds lib h jx (buildStepEvalCtx ex empty_step info) actionCacheDir [] steps fs"

definition cache_binds :: "string \<Rightarrow> BindMount list" where
  "cache_binds cacheDir =
     [\<lparr>bm_HostPath = path_join [cacheDir, ''go'', ''pkg'', ''mod''], bm_ContainerPath = ''/root/go/pkg/mod'', bm_ReadOnly = False\<rparr>,
      \<lparr>bm_HostPath = path_join [cacheDir, ''go'', ''build-cache''], bm_ContainerPath = ''/root/.cache/go/build'', bm_ReadOnly = False\<rparr>,
      \<lparr>bm_HostPath = path_join [cacheDir, ''apt'', ''archives''], bm_ContainerPath = ''/var/cache/apt/archives'', bm_ReadOnly = False\<rparr>,
      \<lparr>bm_HostPath = path_join [cacheDir, ''apt'', ''lists''], bm_ContainerPath = ''/var/lib/apt/lists'', bm_ReadOnly = False\<rparr>]"

definition job_binds :: "Job \<Rightarrow> BindMount list" where
  "job_binds job =
     map (\<lambda>b. \<lparr>bm_HostPath = jb_Host b, bm_ContainerPath = jb_Container b, bm_ReadOnly = jb_ReadOnly b\<rparr>) (jb_ExtraBinds job)"

text \<open>The bare clone that the \<open>.git\<close> file of the worktree refers to.\<close>

definition git_binds :: "job_runner \<Rightarrow> file_system \<Rightarrow> BindMount list" where
  "git_binds jx fs =
     (case map_of fs (path_join [jx_WorkspaceDir jx, ''.git'']) of
        None \<Rightarrow> []
      | Some gitFileData \<Rightarrow>
          (let line = TrimSpace gitFileData
           in if HasPrefix line ''gitdir:'' then
                (let bareCloneDir = path_dir (path_dir (TrimSpace (drop (length ''gitdir:'') line)))
                 in if path_exists fs bareCloneDir
                    then [\<lparr>bm_HostPath = bareCloneDir, bm_ContainerPath = bareCloneDir, bm_ReadOnly = True\<rparr>] else [])
              else []))"

text \<open>The host directory of the artifacts and the mount that the runner adds for it.\<close>

definition artifact_mount :: "job_runner \<Rightarrow> Job \<Rightarrow> JobInfo \<Rightarrow> string \<times> BindMount list" where
  "artifact_mount jx job info =
     (let artifactDir = path_join [jx_cacheDir jx, ''artifacts'', ji_RunID info]
      in case find (\<lambda>b. jb_Container b = ''/artifacts'') (jb_ExtraBinds job) of
           Some b \<Rightarrow> (jb_Host b, [])
         | None \<Rightarrow> (artifactDir, [\<lparr>bm_HostPath = artifactDir, bm_ContainerPath = ''/artifacts'', bm_ReadOnly = False\<rparr>]))"

definition named_volumes :: "Job \<Rightarrow> NamedVolumeMount list" where
  "named_volumes job =
     map (\<lambda>v. \<lparr>nv_Name = jv_Name v, nv_ContainerPath = jv_Container v, nv_Copy = jv_Copy v\<rparr>) (jb_Volumes job)"

section \<open>Steps\<close>

text \<open>The evaluator always returns (\<open>Eval\<close> has enough fuel), so its result is never \<open>None\<close>.\<close>

definition should_run ::
  "golib \<Rightarrow> Workflow \<Rightarrow> string \<Rightarrow> Job \<Rightarrow> JobInfo \<Rightarrow> Step \<Rightarrow> ExecutionContext \<Rightarrow> bool" where
  "should_run lib w jobID job info step ex =
     (if st_If step \<noteq> [] then
        (case EvalBool lib (BuildEvalContext lib w jobID job (Some step) (ex_StepResults ex) (ex_LiveEnv ex) info
                              (ex_Secrets ex) (ex_JobStatus ex) (ex_Cancelled ex)) (st_If step) of
           Some (Inr ok) \<Rightarrow> ok
         | _ \<Rightarrow> False)
      else ex_JobStatus ex = JobStatusSuccess \<or> ex_JobStatus ex = JobStatusPending)"

text \<open>What follows \<open>RunStep\<close>: the increments of the files, the result and the status of the job.\<close>

definition merge_delta ::
  "env_error + delta \<Rightarrow> StepResult \<times> ExecutionContext \<Rightarrow> StepResult \<times> ExecutionContext" where
  "merge_delta d re =
     (case d of
        Inl _ \<Rightarrow> re
      | Inr (newEnv, newOutputs, newPaths) \<Rightarrow>
          ((fst re)\<lparr>sr_Outputs := mput_all (sr_Outputs (fst re)) newOutputs\<rparr>,
           (snd re)\<lparr>ex_LiveEnv := mput_all (ex_LiveEnv (snd re)) newEnv, ex_LivePath := ex_LivePath (snd re) @ newPaths\<rparr>))"

definition record_step :: "string \<Rightarrow> Step \<Rightarrow> StepResult \<times> ExecutionContext \<Rightarrow> ExecutionContext" where
  "record_step stepID step re =
     (let ex = (snd re)\<lparr>ex_StepResults := mput stepID (fst re) (ex_StepResults (snd re))\<rparr>
      in if sr_Outcome (fst re) = ''failure'' \<and> \<not> st_ContinueOnError step then ex\<lparr>ex_JobStatus := JobStatusFailure\<rparr> else ex)"

definition step_id :: "nat \<Rightarrow> Step \<Rightarrow> string" where
  "step_id i step = (if st_ID step = [] then ''__step_'' @ Itoa (int i) else st_ID step)"

definition job_step ::
  "golib \<Rightarrow> host \<Rightarrow> podman \<Rightarrow> job_runner \<Rightarrow> nat \<Rightarrow> Workflow \<Rightarrow> string \<Rightarrow> Job \<Rightarrow> JobInfo \<Rightarrow> nat \<Rightarrow> Step \<Rightarrow>
   ExecutionContext \<times> EnvFiles \<times> file_system \<Rightarrow> (ExecutionContext \<times> EnvFiles \<times> file_system) option" where
  "job_step lib h pd jx fuel w jobID job info i step0 st =
     (let (ex, files, fs) = st; stepID = step_id i step0; step = step0\<lparr>st_ID := stepID\<rparr>
      in if \<not> should_run lib w jobID job info step ex
         then Some (ex\<lparr>ex_StepResults := mput stepID step_skipped (ex_StepResults ex)\<rparr>, files, fs)
         else
           (case RunStep lib h pd jx info fuel step ex fs of
              None \<Rightarrow> None
            | Some ((result0, stepErr), fs') \<Rightarrow>
                (let result = (if stepErr \<noteq> None then step_failure else result0); (d, files') = ReadDelta fs' files
                 in Some (record_step stepID step (merge_delta d (result, ex)), files', fs'))))"

fun job_steps ::
  "golib \<Rightarrow> host \<Rightarrow> podman \<Rightarrow> job_runner \<Rightarrow> nat \<Rightarrow> Workflow \<Rightarrow> string \<Rightarrow> Job \<Rightarrow> JobInfo \<Rightarrow> nat \<Rightarrow> Step list \<Rightarrow>
   ExecutionContext \<times> EnvFiles \<times> file_system \<Rightarrow> (ExecutionContext \<times> EnvFiles \<times> file_system) option" where
  "job_steps lib h pd jx fuel w jobID job info i [] st = Some st"
| "job_steps lib h pd jx fuel w jobID job info i (step # steps) st =
     (case job_step lib h pd jx fuel w jobID job info i step st of
        None \<Rightarrow> None
      | Some st' \<Rightarrow> job_steps lib h pd jx fuel w jobID job info (Suc i) steps st')"

section \<open>Artifacts\<close>

definition collect_artifact :: "run_env \<Rightarrow> string \<Rightarrow> JobInfo \<Rightarrow> file_system \<Rightarrow> DB \<Rightarrow> string \<Rightarrow> DB" where
  "collect_artifact re artifactDir info fs db relPath =
     (case map_of fs (path_join [artifactDir, relPath]) of
        None \<Rightarrow> db
      | Some contents \<Rightarrow>
          snd (UpsertArtifact True []
            \<lparr>ra_ID = re_uuid re relPath, ra_RunID = ji_RunID info, ra_Filename = relPath, ra_Size = int (length contents),
             ra_SHA256 = re_sha256 re contents, ra_CreatedAt = zero_time\<rparr> db))"

definition collect_artifacts :: "run_env \<Rightarrow> Job \<Rightarrow> string \<Rightarrow> JobInfo \<Rightarrow> file_system \<Rightarrow> DB \<Rightarrow> DB" where
  "collect_artifacts re job artifactDir info fs db =
     foldl (collect_artifact re artifactDir info fs) db
       (if jb_ArtifactPaths job \<noteq> [] then jb_ArtifactPaths job else dir_files fs artifactDir)"

section \<open>The job\<close>

definition initial_context :: "Workflow \<Rightarrow> Job \<Rightarrow> string gomap \<Rightarrow> ExecutionContext" where
  "initial_context w job secrets =
     (let dflt = (\<lambda>sel. let own = (case jb_Defaults job of None \<Rightarrow> [] | Some d \<Rightarrow> sel d)
                        in if own = [] then (case wf_Defaults w of None \<Rightarrow> [] | Some d \<Rightarrow> sel d) else own)
      in \<lparr>ex_StepResults = [], ex_LiveEnv = [], ex_LivePath = [], ex_JobStatus = JobStatusPending, ex_Cancelled = False,
          ex_Secrets = secrets, ex_Inputs = [], ex_DefaultShell = dflt rd_Shell, ex_DefaultWorkdir = dflt rd_WorkingDirectory\<rparr>)"

definition job_image :: "string \<Rightarrow> Job \<Rightarrow> string" where
  "job_image defaultImage job =
     (let img = (if defaultImage = [] then RunsOnImage job else defaultImage)
      in if img = [] then ''ubuntu:22.04'' else img)"

definition job_failed :: "string \<Rightarrow> StepResult gomap \<Rightarrow> JobResult" where
  "job_failed jobID steps = \<lparr>jr_JobID = jobID, jr_Status = JobStatusFailure, jr_Steps = steps\<rparr>"

definition final_status :: "JobStatus \<Rightarrow> JobStatus" where
  "final_status s = (if s = JobStatusPending then JobStatusSuccess else s)"

text \<open>The part of \<open>RunJob\<close> that uses the runner directory. The deferred \<open>Remove\<close> follows every path behind the creation.\<close>

definition run_in_container ::
  "golib \<Rightarrow> host \<Rightarrow> podman \<Rightarrow> run_env \<Rightarrow> job_runner \<Rightarrow> bool \<Rightarrow> nat \<Rightarrow> string \<Rightarrow> Job \<Rightarrow> Workflow \<Rightarrow> JobInfo \<Rightarrow> string \<Rightarrow>
   string \<Rightarrow> ExecutionContext \<Rightarrow> file_system \<Rightarrow> DB \<Rightarrow> containers \<Rightarrow>
   ((JobResult \<times> job_error option) \<times> file_system \<times> DB \<times> containers) option" where
  "run_in_container lib h pd re jx stored fuel jobID job w info img runnerDir ex0 fs db cs =
     (case NewEnvFiles (ho_writable h) runnerDir fs of
        Inl e \<Rightarrow> Some ((job_failed jobID [], Some (EnvFilesError e)), fs, db, cs)
      | Inr (files, fs1) \<Rightarrow>
          (let payload = (if ji_EventPayload info = [] then ''{}'' else ji_EventPayload info)
           in if \<not> ho_writable h (runnerDir @ ''/_event.json'') then Some ((job_failed jobID [], Some WriteEvent), fs1, db, cs)
              else
                (let fs2 = mput (runnerDir @ ''/_event.json'') payload fs1;
                     ex = ex0\<lparr>ex_LiveEnv := buildInitialEnv lib w jobID job info\<rparr>
                 in if \<not> PullImage pd img then Some ((job_failed jobID [], Some PullError), fs2, db, cs)
                    else
                      (let (binds, fs3) = resolveExtraBinds lib h jx (jb_Steps job) ex info
                                            (path_join [jx_cacheDir jx, ''actions'']) fs2;
                           (artifactDir, artifactBinds) = artifact_mount jx job info;
                           cfg = \<lparr>cc_Image = img, cc_Name = ''ghenkins-'' @ sanitizeName jobID @ ''-'' @ Itoa (re_nano re),
                                  cc_Env = ex_LiveEnv ex, cc_WorkspaceHost = jx_WorkspaceDir jx, cc_RunnerDirHost = runnerDir,
                                  cc_ExtraBinds = binds @ cache_binds (jx_cacheDir jx) @ job_binds job @ git_binds jx fs3 @ artifactBinds,
                                  cc_NamedVolumes = named_volumes job, cc_NetworkMode = []\<rparr>
                       in case CreateContainer pd cfg cs of
                            None \<Rightarrow> Some ((job_failed jobID [], Some CreateContainerError), fs3, db, cs)
                          | Some (cid, cs1) \<Rightarrow>
                              map_option (\<lambda>(res, fs', db'). (res, fs', db', snd (Remove pd cid cs1)))
                                (if \<not> Start pd cid then Some ((job_failed jobID [], Some StartContainer), fs3, db)
                                 else
                                   (case job_steps lib h pd jx fuel w jobID job info 0 (jb_Steps job) (ex, files, fs3) of
                                      None \<Rightarrow> None
                                    | Some (ex', _, fs4) \<Rightarrow>
                                        Some ((\<lparr>jr_JobID = jobID, jr_Status = final_status (ex_JobStatus ex'),
                                                jr_Steps = ex_StepResults ex'\<rparr>, None), fs4,
                                              if stored then collect_artifacts re job artifactDir info fs4 db else db)))))))"

definition RunJob ::
  "golib \<Rightarrow> host \<Rightarrow> podman \<Rightarrow> run_env \<Rightarrow> job_runner \<Rightarrow> bool \<Rightarrow> nat \<Rightarrow> string \<Rightarrow> Job \<Rightarrow> Workflow \<Rightarrow> JobInfo \<Rightarrow>
   string gomap \<Rightarrow> string \<Rightarrow> file_system \<Rightarrow> DB \<Rightarrow> containers \<Rightarrow>
   ((JobResult \<times> job_error option) \<times> file_system \<times> DB \<times> containers) option" where
  "RunJob lib h pd re jx stored fuel jobID job w info secrets defaultImage fs db cs =
     (let ex = initial_context w job secrets;
          cond = (if jb_If job = [] then Some (Inr True)
                  else EvalBool lib (BuildEvalContext lib w jobID job None [] [] info secrets JobStatusPending False) (jb_If job))
      in case cond of
           None \<Rightarrow> None
         | Some (Inl _) \<Rightarrow> Some ((job_failed jobID [], Some JobIf), fs, db, cs)
         | Some (Inr False) \<Rightarrow> Some ((\<lparr>jr_JobID = jobID, jr_Status = JobStatusSuccess, jr_Steps = []\<rparr>, None), fs, db, cs)
         | Some (Inr True) \<Rightarrow>
             (case pd_mkdirTemp pd (jx_workspaceDir jx) of
                None \<Rightarrow> Some ((job_failed jobID [], Some MkdirTemp), fs, db, cs)
              | Some runnerDir \<Rightarrow>
                  map_option (\<lambda>(res, fs', db', cs'). (res, remove_all_under runnerDir fs', db', cs'))
                    (run_in_container lib h pd re jx stored fuel jobID job w info (job_image defaultImage job)
                       runnerDir ex fs db cs)))"

end
