(* ===== verification/Secrets.thy ===== *)
theory Secrets
  imports Step_Env
begin

text \<open>
  The secret store and the resolution of secrets (\<open>internal/secrets/secrets.go\<close>). A \<open>FileStore\<close> is its
  base directory and the files; \<open>encoding/json\<close> on strings is the record \<open>string_json\<close>, \<open>envsubst.EvalEnv\<close> the
  argument \<open>evalEnv\<close>, and \<open>writable\<close> says which files can be written. The permission bits are left out.
\<close>

section \<open>The file store\<close>

record string_json =
  sj_enc :: "string \<Rightarrow> string"
  sj_dec :: "string \<Rightarrow> string option"

datatype secret_error =
    SecretNotFound string string
  | SecretDecode
  | SecretWrite
  | KeyringReference string
  | EvalEnvError
  | Resolving string secret_error

definition secrets_New :: "string \<Rightarrow> string \<Rightarrow> string" where
  "secrets_New home appName = path_join [home, ''.local'', ''share'', appName, ''secrets'']"

definition secret_path :: "string \<Rightarrow> string \<Rightarrow> string \<Rightarrow> string" where
  "secret_path baseDir service key = path_join [baseDir, path_clean service, key @ ''.json'']"

definition secret_Set ::
  "string_json \<Rightarrow> (string \<Rightarrow> bool) \<Rightarrow> string \<Rightarrow> string \<Rightarrow> string \<Rightarrow> string \<Rightarrow> file_system \<Rightarrow> secret_error option \<times> file_system" where
  "secret_Set sj writable baseDir service key value fs =
     (if writable (secret_path baseDir service key)
      then (None, mput (secret_path baseDir service key) (sj_enc sj value) fs)
      else (Some SecretWrite, fs))"

definition secret_Get :: "string_json \<Rightarrow> string \<Rightarrow> string \<Rightarrow> string \<Rightarrow> file_system \<Rightarrow> secret_error + string" where
  "secret_Get sj baseDir service key fs =
     (case map_of fs (secret_path baseDir service key) of
        None \<Rightarrow> Inl (SecretNotFound key service)
      | Some data \<Rightarrow> (case sj_dec sj data of None \<Rightarrow> Inl SecretDecode | Some value \<Rightarrow> Inr value))"

text \<open>\<open>os.Remove\<close> of a file that is there; a missing file is no error.\<close>

definition secret_Delete ::
  "(string \<Rightarrow> bool) \<Rightarrow> string \<Rightarrow> string \<Rightarrow> string \<Rightarrow> file_system \<Rightarrow> secret_error option \<times> file_system" where
  "secret_Delete writable baseDir service key fs =
     (let p = secret_path baseDir service key
      in if map_of fs p = None then (None, fs)
         else if writable p then (None, mdel p fs) else (Some SecretWrite, fs))"

definition secret_List :: "string \<Rightarrow> string \<Rightarrow> file_system \<Rightarrow> string list" where
  "secret_List baseDir service fs =
     map (\<lambda>name. take (length name - length ''.json'') name)
       (filter (\<lambda>name. HasSuffix name ''.json'') (dir_files fs (path_join [baseDir, path_clean service])))"

section \<open>Resolution\<close>

definition resolveValue ::
  "(string \<Rightarrow> string option) \<Rightarrow> (string \<Rightarrow> string \<Rightarrow> secret_error + string) \<Rightarrow> string \<Rightarrow> secret_error + string" where
  "resolveValue evalEnv get v =
     (if HasPrefix v ''keyring:'' then
        (case SplitN v (CHR '':'') 3 of
           [_, service, key] \<Rightarrow> get service key
         | _ \<Rightarrow> Inl (KeyringReference v))
      else if Contains v ''${'' then (case evalEnv v of None \<Rightarrow> Inl EvalEnvError | Some r \<Rightarrow> Inr r)
      else Inr v)"

fun resolve_all ::
  "(string \<Rightarrow> string option) \<Rightarrow> (string \<Rightarrow> string \<Rightarrow> secret_error + string) \<Rightarrow> string gomap \<Rightarrow> string gomap \<Rightarrow>
   secret_error + string gomap" where
  "resolve_all evalEnv get [] result = Inr result"
| "resolve_all evalEnv get ((k, v) # raw) result =
     (case resolveValue evalEnv get v of
        Inl e \<Rightarrow> Inl (Resolving k e)
      | Inr resolved \<Rightarrow> resolve_all evalEnv get raw (mput k resolved result))"

definition ResolveSecrets ::
  "(string \<Rightarrow> string option) \<Rightarrow> (string \<Rightarrow> string \<Rightarrow> secret_error + string) \<Rightarrow> string gomap \<Rightarrow> secret_error + string gomap" where
  "ResolveSecrets evalEnv get raw = resolve_all evalEnv get raw []"

section \<open>Contract\<close>

text \<open>
  The interface \<open>Store\<close>: what \<open>Get\<close> returns behind \<open>Set\<close> and \<open>Delete\<close>. Two pairs of a service and a key
  name the same secret when \<open>same\<close> says so; \<open>faithful\<close> are the values that survive the encoding.
\<close>

locale secret_store =
  fixes sset :: "string \<Rightarrow> string \<Rightarrow> string \<Rightarrow> 's \<Rightarrow> 'e option \<times> 's"
    and sget :: "string \<Rightarrow> string \<Rightarrow> 's \<Rightarrow> 'e + string"
    and sdel :: "string \<Rightarrow> string \<Rightarrow> 's \<Rightarrow> 'e option \<times> 's"
    and same :: "string \<times> string \<Rightarrow> string \<times> string \<Rightarrow> bool"
    and faithful :: "string \<Rightarrow> bool"
  assumes same_refl: "same a a"
    and get_set: "sset service key value s = (None, s') \<Longrightarrow> faithful value \<Longrightarrow> same (service, key) (service2, key2) \<Longrightarrow>
        sget service2 key2 s' = Inr value"
    and get_set_other: "sset service key value s = (e, s') \<Longrightarrow> \<not> same (service, key) (service2, key2) \<Longrightarrow>
        sget service2 key2 s' = sget service2 key2 s"
    and get_del: "sdel service key s = (None, s') \<Longrightarrow> \<exists>e. sget service key s' = Inl e"
    and get_del_other: "sdel service key s = (e, s') \<Longrightarrow> \<not> same (service, key) (service2, key2) \<Longrightarrow>
        sget service2 key2 s' = sget service2 key2 s"
begin

lemma get_set_twice:
  assumes "sset s1 k1 v1 st = (None, st1)" "sset s2 k2 v2 st1 = (None, st2)" "faithful v1" "faithful v2"
  shows "sget s1 k1 st2 = Inr (if same (s2, k2) (s1, k1) then v2 else v1)"
  using assms get_set[OF assms(1,3), of s1 k1] get_set[OF assms(2,4), of s1 k1] get_set_other[OF assms(2), of s1 k1] same_refl
  by auto

end

definition same_secret :: "string \<Rightarrow> string \<times> string \<Rightarrow> string \<times> string \<Rightarrow> bool" where
  "same_secret baseDir a b = (secret_path baseDir (fst a) (snd a) = secret_path baseDir (fst b) (snd b))"

interpretation files: secret_store "secret_Set sj writable baseDir" "\<lambda>service key. secret_Get sj baseDir service key"
  "secret_Delete writable baseDir" "same_secret baseDir" "\<lambda>v. sj_dec sj (sj_enc sj v) = Some v"
  for sj writable baseDir
  by unfold_locales
     (auto simp: secret_Set_def secret_Get_def secret_Delete_def same_secret_def Let_def split: if_splits)

section \<open>Properties\<close>

lemma resolve_all_ok:
  "gmap_ok raw \<Longrightarrow> list_all (\<lambda>(k, v). \<exists>r. resolveValue evalEnv get v = Inr r) raw \<Longrightarrow>
   resolve_all evalEnv get raw result =
     Inr (mput_all result (map (\<lambda>(k, v). (k, projr (resolveValue evalEnv get v))) raw))"
  by (induction raw arbitrary: result) (auto simp: gmap_ok_def)

lemma resolve_all_error:
  "\<not> list_all (\<lambda>(k, v). \<exists>r. resolveValue evalEnv get v = Inr r) raw \<Longrightarrow>
   \<exists>k v e. (k, v) \<in> set raw \<and> resolveValue evalEnv get v = Inl e \<and> resolve_all evalEnv get raw result = Inl (Resolving k e)"
proof (induction raw arbitrary: result)
  case (Cons kv raw)
  obtain k v where kv: "kv = (k, v)" by (cases kv)
  show ?case
  proof (cases "resolveValue evalEnv get v")
    case (Inl e)
    with kv show ?thesis by auto
  next
    case (Inr r)
    then have rest: "\<not> list_all (\<lambda>(k, v). \<exists>r. resolveValue evalEnv get v = Inr r) raw"
      using Cons.prems kv by simp
    from Cons.IH[OF this, of "mput k r result"] Inr kv show ?thesis by auto
  qed
qed simp

lemma SplitN_keyring:
  assumes "CHR '':'' \<notin> set service"
  shows "SplitN (''keyring:'' @ service @ '':'' @ key) (CHR '':'') 3 = [''keyring'', service, key]"
proof -
  have "SplitN (service @ CHR '':'' # key) (CHR '':'') (Suc (Suc 0)) = [service, key]"
    using assms by (induction service) auto
  then show ?thesis
    by (simp add: numeral_3_eq_3)
qed


definition quote_json :: string_json where
  "quote_json = \<lparr>sj_enc = (\<lambda>s. [CHR 0x22] @ s @ [CHR 0x22]), sj_dec = (\<lambda>s. Some (butlast (tl s)))\<rparr>"


text \<open>
  A key is joined to the directory of its service without a check, so a key with \<open>..\<close> names the secret of
  another service.
\<close>

lemma key_of_other_service: "same_secret ''/s'' (''mine'', ''../other/k'') (''other'', ''k'')"
  by code_simp

end
