(* ===== verification/Runner.thy ===== *)
theory Runner
  imports Job_Order Job_Run Secrets Poller
begin

text \<open>
  The run of a workflow (\<open>internal/runner/runner.go\<close>, \<open>clone.go\<close> and \<open>event.go\<close>): the clone and the worktree,
  the event, the workflow file, the secrets, and the loop over the jobs in the order of their needs.

  The commands of git are the record \<open>git\<close>; everything that a run takes from outside the program is the
  record \<open>machine\<close>. Every job of a workflow is present (not \<open>null\<close> in the YAML).
\<close>

section \<open>Clones\<close>

record git =
  gt_fetch :: "string \<Rightarrow> file_system \<Rightarrow> bool \<times> file_system"
  gt_cloneBare :: "string \<Rightarrow> string \<Rightarrow> file_system \<Rightarrow> bool \<times> file_system"
  gt_revParse :: "string \<Rightarrow> string \<Rightarrow> file_system \<Rightarrow> string option"
  gt_worktreeAdd :: "string \<Rightarrow> string \<Rightarrow> string \<Rightarrow> file_system \<Rightarrow> bool \<times> file_system"
  gt_worktreeRemove :: "string \<Rightarrow> string \<Rightarrow> file_system \<Rightarrow> file_system"
  gt_mkdirTemp :: "string \<Rightarrow> string option"

definition ensureBareClone ::
  "git \<Rightarrow> host \<Rightarrow> string \<Rightarrow> string \<Rightarrow> string \<Rightarrow> file_system \<Rightarrow> string option \<times> file_system" where
  "ensureBareClone g h cacheDir owner repo fs =
     (let bareDir = path_join [cacheDir, owner, repo @ ''.git'']
      in if path_exists fs bareDir then
           (case gt_fetch g bareDir fs of (ok, fs') \<Rightarrow> (if ok then Some bareDir else None, fs'))
         else if \<not> ho_writable h (path_dir bareDir) then (None, fs)
         else (case gt_cloneBare g (''https://github.com/'' @ owner @ ''/'' @ repo) bareDir fs of
                 (ok, fs') \<Rightarrow> (if ok then Some bareDir else None, fs')))"

definition addWorktree :: "git \<Rightarrow> string \<Rightarrow> string \<Rightarrow> string \<Rightarrow> file_system \<Rightarrow> string option \<times> file_system" where
  "addWorktree g bareDir sha workspaceDir fs =
     (case gt_mkdirTemp g workspaceDir of
        None \<Rightarrow> (None, fs)
      | Some wtDir \<Rightarrow>
          (case gt_worktreeAdd g bareDir wtDir sha fs of
             (True, fs') \<Rightarrow> (Some wtDir, fs')
           | (False, fs') \<Rightarrow> (None, remove_all_under wtDir fs')))"

definition worktree_cleanup :: "git \<Rightarrow> string \<Rightarrow> string \<Rightarrow> file_system \<Rightarrow> file_system" where
  "worktree_cleanup g bareDir wtDir fs = remove_all_under wtDir (gt_worktreeRemove g bareDir wtDir fs)"

section \<open>Events\<close>

definition repository_value :: "string \<Rightarrow> string \<Rightarrow> string \<Rightarrow> gvalue" where
  "repository_value repo owner repoName =
     VMap [(''full_name'', VString repo), (''name'', VString repoName), (''owner'', VMap [(''login'', VString owner)])]"

definition event_payload :: "string \<Rightarrow> string \<Rightarrow> string \<Rightarrow> string \<Rightarrow> string \<Rightarrow> int \<Rightarrow> string \<Rightarrow> gvalue" where
  "event_payload repo owner repoName sha branch prNumber eventType =
     (if eventType = ''pull_request'' then
        VMap [(''action'', VString ''synchronize''), (''number'', VInt prNumber),
              (''pull_request'', VMap [(''head'', VMap [(''sha'', VString sha)]), (''number'', VInt prNumber)]),
              (''repository'', repository_value repo owner repoName)]
      else
        VMap [(''after'', VString sha), (''ref'', VString (''refs/heads/'' @ branch)),
              (''repository'', repository_value repo owner repoName), (''head_commit'', VMap [(''id'', VString sha)])])"

definition GenerateEventJSON ::
  "golib \<Rightarrow> string \<Rightarrow> string \<Rightarrow> string \<Rightarrow> string \<Rightarrow> string \<Rightarrow> int \<Rightarrow> string \<Rightarrow> string option" where
  "GenerateEventJSON lib repo owner repoName sha branch prNumber eventType =
     json_Marshal lib (event_payload repo owner repoName sha branch prNumber eventType)"

section \<open>The loop over the jobs\<close>

type_synonym callback = "string \<Rightarrow> JobStatus \<Rightarrow> gtime option \<Rightarrow> gtime option \<Rightarrow> DB \<Rightarrow> DB"

text \<open>
  The state of the loop: the exit code, the failed jobs, the files, the store that the callback and the
  artifacts write to, the containers that exist, and, for the properties, the calls of the callback in their order.
\<close>

record loop_state =
  lo_exitCode :: int
  lo_failedJobs :: "string list"
  lo_fs :: file_system
  lo_db :: DB
  lo_containers :: containers
  lo_calls :: "(string \<times> JobStatus) list"

definition call_back ::
  "callback option \<Rightarrow> string \<Rightarrow> JobStatus \<Rightarrow> gtime option \<Rightarrow> gtime option \<Rightarrow> loop_state \<Rightarrow> loop_state" where
  "call_back cb jobID status startedAt finishedAt st =
     st\<lparr>lo_db := (case cb of None \<Rightarrow> lo_db st | Some f \<Rightarrow> f jobID status startedAt finishedAt (lo_db st)),
        lo_calls := lo_calls st @ [(jobID, status)]\<rparr>"

datatype run_error =
    ConnectError
  | TempWorkspace
  | BareClone
  | ResolveHead
  | Worktree
  | EventJSON
  | ReadWorkflow
  | ParseWorkflowError
  | SecretStoreError
  | SecretsError secret_error
  | OrderError order_error
  | RunJobError string job_error
  | NilJob string

text \<open>
  The two nested loops run over the jobs of the levels in turn. \<open>runJob\<close> is the call of \<open>RunJob\<close>, and \<open>clock\<close> gives the
  times before and behind it; the zero times of a skipped job are \<open>None\<close>.
\<close>

fun run_jobs ::
  "callback option \<Rightarrow> (string \<Rightarrow> gtime \<times> gtime) \<Rightarrow>
   (string \<Rightarrow> Job \<Rightarrow> file_system \<Rightarrow> DB \<Rightarrow> containers \<Rightarrow> ((JobResult \<times> job_error option) \<times> file_system \<times> DB \<times> containers) option) \<Rightarrow>
   Job gomap \<Rightarrow> string list \<Rightarrow> loop_state \<Rightarrow> (run_error option \<times> loop_state) option" where
  "run_jobs cb clock runJob jobs [] st = Some (None, st)"
| "run_jobs cb clock runJob jobs (jobID # rest) st =
     (case map_of jobs jobID of
        None \<Rightarrow> Some (Some (NilJob jobID), st)
      | Some job \<Rightarrow>
          if list_ex (\<lambda>need. need \<in> set (lo_failedJobs st)) (NeedsIDs job)
          then run_jobs cb clock runJob jobs rest (call_back cb jobID JobStatusSkipped None None st)
          else
            (let (start, finish) = clock jobID; st1 = call_back cb jobID JobStatusRunning (Some start) None st
             in case runJob jobID job (lo_fs st1) (lo_db st1) (lo_containers st1) of
                  None \<Rightarrow> None
                | Some ((result, err), fs', db', cs') \<Rightarrow>
                    (let st2 = st1\<lparr>lo_fs := fs', lo_db := db', lo_containers := cs'\<rparr>
                     in case err of
                          Some e \<Rightarrow> Some (Some (RunJobError jobID e),
                                          call_back cb jobID JobStatusFailure (Some start) (Some finish) st2)
                        | None \<Rightarrow>
                            (let st3 = call_back cb jobID (jr_Status result) (Some start) (Some finish) st2
                             in run_jobs cb clock runJob jobs rest
                                  (if jr_Status result = JobStatusFailure
                                   then st3\<lparr>lo_exitCode := 1, lo_failedJobs := jobID # lo_failedJobs st3\<rparr> else st3)))))"

section \<open>The run\<close>

record machine =
  mc_lib :: golib
  mc_host :: host
  mc_podman :: podman
  mc_env :: run_env
  mc_git :: git
  mc_newConnection :: "string \<Rightarrow> bool"
  mc_runtimeDir :: string
  mc_uid :: int
  mc_containers :: containers
  mc_parseWorkflow :: "string \<Rightarrow> Workflow option"
  mc_rank :: "nat \<Rightarrow> string \<Rightarrow> nat"
  mc_clock :: "string \<Rightarrow> gtime \<times> gtime"
  mc_newRunID :: string
  mc_home :: "string option"
  mc_json :: string_json
  mc_evalEnv :: "string \<Rightarrow> string option"

text \<open>\<open>stored\<close> says that the field \<open>Store\<close> is set. The log is left out.\<close>

record podman_runner =
  pr_cacheDir :: string
  pr_workspaceDir :: string
  pr_defaultImage :: string
  pr_JobCallback :: "callback option"
  pr_CurrentRunID :: string
  pr_stored :: bool

definition merged_inputs :: "Workflow \<Rightarrow> poll_job \<Rightarrow> string gomap" where
  "merged_inputs workflow j =
     mput_all (mput_all [] (map (\<lambda>(name, decl). (name, wi_Default decl))
       (filter (\<lambda>(name, decl). wi_Default decl \<noteq> []) (wf_Inputs workflow)))) (jo_Inputs j)"

definition run_info :: "string \<Rightarrow> poll_job \<Rightarrow> Workflow \<Rightarrow> string \<Rightarrow> JobInfo" where
  "run_info runID j workflow eventJSON =
     \<lparr>ji_SHA = jo_SHA j,
      ji_Ref = (if jo_EventType j = ''pull_request'' then ''refs/pull/'' @ Itoa (jo_PRNumber j) @ ''/head''
                else ''refs/heads/'' @ jo_Branch j),
      ji_RefName = jo_Branch j, ji_EventName = jo_EventType j, ji_Repo = jo_Repo j, ji_Owner = jo_Owner j,
      ji_RepoName = jo_RepoName j, ji_RunID = runID, ji_RunNumber = 1, ji_Actor = ''ghenkins'', ji_EventPayload = eventJSON,
      ji_PRNumber = jo_PRNumber j, ji_HeadRef = [], ji_BaseRef = [], ji_Inputs = merged_inputs workflow j\<rparr>"

definition resolve_run_secrets :: "machine \<Rightarrow> string gomap \<Rightarrow> file_system \<Rightarrow> run_error + string gomap" where
  "resolve_run_secrets mc raw fs =
     (case mc_home mc of
        None \<Rightarrow> Inl SecretStoreError
      | Some home \<Rightarrow>
          (let dir = secrets_New home ''ghenkins''
           in if \<not> ho_writable (mc_host mc) dir then Inl SecretStoreError
              else (case ResolveSecrets (mc_evalEnv mc) (\<lambda>s k. secret_Get (mc_json mc) dir s k fs) raw of
                      Inl e \<Rightarrow> Inl (SecretsError e)
                    | Inr m \<Rightarrow> Inr m)))"

text \<open>What \<open>Run\<close> does in the workspace \<open>wtDir\<close>; the result is the exit code or an error.\<close>

type_synonym run_out = "(run_error + int) \<times> loop_state"

definition run_workflow ::
  "machine \<Rightarrow> nat \<Rightarrow> podman_runner \<Rightarrow> poll_job \<Rightarrow> WorkflowRef \<Rightarrow> string \<Rightarrow> loop_state \<Rightarrow> run_out option" where
  "run_workflow mc fuel r j ref wtDir st =
     (case GenerateEventJSON (mc_lib mc) (jo_Repo j) (jo_Owner j) (jo_RepoName j) (jo_SHA j) (jo_Branch j) (jo_PRNumber j)
             (jo_EventType j) of
        None \<Rightarrow> Some (Inl EventJSON, st)
      | Some eventJSON \<Rightarrow>
          (case map_of (lo_fs st) (if path_is_abs (wr_Path ref) then wr_Path ref else path_join [wtDir, wr_Path ref]) of
             None \<Rightarrow> Some (Inl ReadWorkflow, st)
           | Some data \<Rightarrow>
               (case mc_parseWorkflow mc data of
                  None \<Rightarrow> Some (Inl ParseWorkflowError, st)
                | Some workflow \<Rightarrow>
                    (case resolve_run_secrets mc (wr_Secrets ref) (lo_fs st) of
                       Inl e \<Rightarrow> Some (Inl e, st)
                     | Inr secrets \<Rightarrow>
                         (let info = run_info (if pr_CurrentRunID r = [] then mc_newRunID mc else pr_CurrentRunID r) j workflow eventJSON
                          in case BuildExecutionOrder (mc_rank mc) (wf_Jobs workflow) of
                               Inl e \<Rightarrow> Some (Inl (OrderError e), st)
                             | Inr order \<Rightarrow>
                                 (let jx = \<lparr>jx_WorkspaceDir = wtDir, jx_workspaceDir = pr_workspaceDir r, jx_cacheDir = pr_cacheDir r\<rparr>
                                  in map_option (\<lambda>(err, st'). (case err of Some e \<Rightarrow> Inl e | None \<Rightarrow> Inr (lo_exitCode st'), st'))
                                       (run_jobs (pr_JobCallback r) (mc_clock mc)
                                          (\<lambda>jobID job fs db cs. RunJob (mc_lib mc) (mc_host mc) (mc_podman mc) (mc_env mc) jx (pr_stored r)
                                             fuel jobID job workflow info secrets (wr_RunnerImage ref) fs db cs)
                                          (wf_Jobs workflow) (concat order) st)))))))"

text \<open>
  \<open>alive\<close> is the state of the context when the commit of a manual run is stored. Without a repository the run has a temporary
  workspace; with one, a worktree of the commit, where \<open>manual\<close> stands for the head of the branch.
\<close>

definition Run_podman ::
  "machine \<Rightarrow> bool \<Rightarrow> nat \<Rightarrow> podman_runner \<Rightarrow> poll_job \<Rightarrow> WorkflowRef \<Rightarrow> file_system \<Rightarrow> DB \<Rightarrow> run_out option" where
  "Run_podman mc alive fuel r j ref fs db =
     (let st = \<lparr>lo_exitCode = 0, lo_failedJobs = [], lo_fs = fs, lo_db = db, lo_containers = mc_containers mc, lo_calls = []\<rparr>; g = mc_git mc
      in if \<not> Connect (mc_newConnection mc) (mc_runtimeDir mc) (mc_uid mc) then Some (Inl ConnectError, st)
         else if jo_Repo j = [] then
           (case gt_mkdirTemp g (pr_workspaceDir r) of
              None \<Rightarrow> Some (Inl TempWorkspace, st)
            | Some tmp \<Rightarrow>
                map_option (\<lambda>(res, st'). (res, st'\<lparr>lo_fs := remove_all_under tmp (lo_fs st')\<rparr>))
                  (run_workflow mc fuel r j ref tmp st))
         else
           (case ensureBareClone g (mc_host mc) (pr_cacheDir r) (jo_Owner j) (jo_RepoName j) fs of
              (None, fs1) \<Rightarrow> Some (Inl BareClone, st\<lparr>lo_fs := fs1\<rparr>)
            | (Some bareDir, fs1) \<Rightarrow>
                (case (if jo_SHA j = ''manual'' then map_option TrimSpace (gt_revParse g bareDir (''refs/heads/'' @ jo_Branch j) fs1)
                       else Some (jo_SHA j)) of
                   None \<Rightarrow> Some (Inl ResolveHead, st\<lparr>lo_fs := fs1\<rparr>)
                 | Some sha \<Rightarrow>
                     (let db1 = (if jo_SHA j = ''manual'' \<and> pr_stored r \<and> pr_CurrentRunID r \<noteq> []
                                 then snd (UpdateRunSHA alive (pr_CurrentRunID r) sha db) else db)
                      in case addWorktree g bareDir sha (pr_workspaceDir r) fs1 of
                           (None, fs2) \<Rightarrow> Some (Inl Worktree, st\<lparr>lo_fs := fs2, lo_db := db1\<rparr>)
                         | (Some wtDir, fs2) \<Rightarrow>
                             map_option (\<lambda>(res, st'). (res, st'\<lparr>lo_fs := worktree_cleanup g bareDir wtDir (lo_fs st')\<rparr>))
                               (run_workflow mc fuel r j ref wtDir (st\<lparr>lo_fs := fs2, lo_db := db1\<rparr>))))))"

end
