(* ===== verification/Daemon.thy ===== *)
theory Daemon
  imports Runner Job_Queue Reporter
begin

text \<open>
  The daemon (\<open>internal/daemon/daemon.go\<close>): recovery and seeding at the start, the conversion of projects to
  watches, the life of a run, manual triggers and cancellation, and the dispatch loop.

  A run works in a context of its own: \<open>alive k\<close> says that the context is not done at the \<open>k\<close>-th
  place where the run uses the store or the runner, in the order of the code. Reports are listed as they
  are handed to the reporter. The contents of the log file are left out. The home directory exists, as
  the daemon needs it to start: without one, a keyring reference would dereference a nil store in \<open>runJob\<close>.
\<close>

section \<open>Start\<close>

fun recover_runs :: "bool \<Rightarrow> gtime \<Rightarrow> Run list \<Rightarrow> DB \<Rightarrow> DB" where
  "recover_runs alive now [] db = db"
| "recover_runs alive now (run # runs) db =
     recover_runs alive now runs
       (if ru_Status run = RunStatusQueued \<or> ru_Status run = RunStatusRunning
        then snd (UpdateRunStatus alive (ru_ID run) RunStatusError None (Some now) db) else db)"

definition recoverStaleRuns :: "bool \<Rightarrow> gtime \<Rightarrow> DB \<Rightarrow> DB" where
  "recoverStaleRuns alive now db =
     (case ListRuns alive 0 db of Inl _ \<Rightarrow> db | Inr runs \<Rightarrow> recover_runs alive now runs db)"

definition ref_to_workflow :: "string \<Rightarrow> WorkflowRef \<Rightarrow> DBWorkflow" where
  "ref_to_workflow name ref =
     \<lparr>dw_ID = [], dw_ProjectName = name, dw_Name = wr_Name ref, dw_Path = wr_Path ref, dw_RunnerImage = wr_RunnerImage ref,
      dw_Secrets = wr_Secrets ref, dw_Env = wr_Env ref, dw_TimeoutMinutes = wr_TimeoutMinutes ref\<rparr>"

definition trigger_to_db :: "string \<Rightarrow> Trigger \<Rightarrow> DBTrigger" where
  "trigger_to_db name t =
     \<lparr>dt_ID = [], dt_ProjectName = name, dt_Type = tr_Type t, dt_Repo = tr_Repo t, dt_Branch = tr_Branch t, dt_PR = tr_PR t,
      dt_OnEvents = (if tr_On t = [] then [tr_Type t] else tr_On t)\<rparr>"

definition project_to_db :: "Project \<Rightarrow> DBProject" where
  "project_to_db p =
     \<lparr>dp_Name = pj_Name p, dp_Description = [], dp_Workflows = map (ref_to_workflow (pj_Name p)) (pj_Workflows p),
      dp_Triggers = map (trigger_to_db (pj_Name p)) (pj_Triggers p)\<rparr>"

text \<open>\<open>ids n\<close> are the random identifiers of the \<open>n\<close>-th project.\<close>

fun seed_projects ::
  "bool \<Rightarrow> jsonlib \<Rightarrow> (nat \<Rightarrow> nat \<Rightarrow> string) \<Rightarrow> nat \<Rightarrow> Project list \<Rightarrow> DB \<Rightarrow> store_error option \<times> DB" where
  "seed_projects alive js ids n [] db = (None, db)"
| "seed_projects alive js ids n (p # ps) db =
     (case CreateProject alive js (ids n) (project_to_db p) db of
        (Some e, db') \<Rightarrow> (Some e, db')
      | (None, db') \<Rightarrow> seed_projects alive js ids (Suc n) ps db')"

definition seedWatchesFromConfig ::
  "bool \<Rightarrow> jsonlib \<Rightarrow> (nat \<Rightarrow> nat \<Rightarrow> string) \<Rightarrow> Config \<Rightarrow> DB \<Rightarrow> store_error option \<times> DB" where
  "seedWatchesFromConfig alive js ids cfg db =
     (case ListProjects alive js db of
        Inl e \<Rightarrow> (Some e, db)
      | Inr projects \<Rightarrow> if projects \<noteq> [] then (None, db) else seed_projects alive js ids 0 (EffectiveProjects cfg) db)"

text \<open>The provider of watches that \<open>Run\<close> gives to the poller.\<close>

definition workflow_to_ref :: "DBWorkflow \<Rightarrow> WorkflowRef" where
  "workflow_to_ref w =
     \<lparr>wr_Path = dw_Path w, wr_Name = dw_Name w, wr_Secrets = dw_Secrets w, wr_Env = dw_Env w, wr_RunnerImage = dw_RunnerImage w,
      wr_TimeoutMinutes = dw_TimeoutMinutes w\<rparr>"

definition is_commit_trigger :: "DBTrigger \<Rightarrow> bool" where
  "is_commit_trigger t = (dt_Type t = ''push'' \<or> dt_Type t = ''pull_request'')"

definition project_watches :: "DBProject \<Rightarrow> Watch list" where
  "project_watches p =
     map (\<lambda>t. \<lparr>wa_Name = dp_Name p, wa_Repo = dt_Repo t, wa_PR = dt_PR t, wa_Branch = dt_Branch t,
               wa_Workflows = map workflow_to_ref (dp_Workflows p),
               wa_On = (if dt_OnEvents t = [] then [dt_Type t] else dt_OnEvents t)\<rparr>)
       (filter is_commit_trigger (dp_Triggers p))"

definition watch_provider :: "bool \<Rightarrow> jsonlib \<Rightarrow> DB \<Rightarrow> store_error + Watch list" where
  "watch_provider alive js db =
     (case ListProjects alive js db of Inl e \<Rightarrow> Inl e | Inr projects \<Rightarrow> Inr (concat (map project_watches projects)))"

section \<open>The life of a run\<close>

definition splitRepo :: "string \<Rightarrow> string \<times> string" where
  "splitRepo repo =
     (case SplitN repo (CHR ''/'') 2 of
        a # b # _ \<Rightarrow> (a, b)
      | a # _ \<Rightarrow> ([], a)
      | [] \<Rightarrow> ([], []))"

definition jobStatusToString :: "JobStatus \<Rightarrow> string" where
  "jobStatusToString s =
     (case s of
        JobStatusSuccess \<Rightarrow> ''success''
      | JobStatusFailure \<Rightarrow> ''failure''
      | JobStatusCancelled \<Rightarrow> ''failure''
      | JobStatusSkipped \<Rightarrow> ''skipped''
      | JobStatusRunning \<Rightarrow> ''running''
      | JobStatusPending \<Rightarrow> ''pending'')"

text \<open>The callback that records the jobs of a run; the zero time is \<open>None\<close>.\<close>

definition record_job :: "string \<Rightarrow> callback" where
  "record_job runID jobName status startedAt finishedAt db =
     snd (UpsertRunJob True
       \<lparr>rj_ID = runID @ ''-'' @ jobName, rj_RunID = runID, rj_JobName = jobName, rj_Status = jobStatusToString status,
        rj_StartedAt = startedAt, rj_FinishedAt = finishedAt\<rparr> db)"

definition wire_runner :: "string \<Rightarrow> podman_runner \<Rightarrow> podman_runner" where
  "wire_runner runID pr = pr\<lparr>pr_CurrentRunID := runID, pr_stored := True, pr_JobCallback := Some (record_job runID)\<rparr>"

record daemon_env =
  de_machine :: machine
  de_bind :: string
  de_logDir :: string
  de_started :: gtime
  de_finished :: gtime
  de_newID :: string
  de_errorText :: "run_error \<Rightarrow> string"

definition LogPath :: "string \<Rightarrow> string \<Rightarrow> string" where
  "LogPath logDir runID = path_join [logDir, runID @ ''.log'']"

definition run_id :: "daemon_env \<Rightarrow> poll_job \<Rightarrow> string" where
  "run_id de j = (if jo_RunID j = [] then de_newID de else jo_RunID j)"

definition run_record :: "daemon_env \<Rightarrow> poll_job \<Rightarrow> WorkflowRef \<Rightarrow> Run" where
  "run_record de j ref =
     \<lparr>ru_ID = run_id de j, ru_WatchName = jo_WatchName j, ru_Repo = jo_Repo j, ru_SHA = jo_SHA j, ru_WorkflowName = wr_Name ref,
      ru_Status = RunStatusQueued, ru_StartedAt = de_started de, ru_FinishedAt = None, ru_ExitCode = None,
      ru_LogPath = LogPath (de_logDir de) (run_id de j)\<rparr>"

definition run_report :: "daemon_env \<Rightarrow> poll_job \<Rightarrow> WorkflowRef \<Rightarrow> string \<Rightarrow> string \<Rightarrow> ReportRequest" where
  "run_report de j ref status desc =
     (let (owner, repoName) = splitRepo (jo_Repo j)
      in \<lparr>rq_Owner = owner, rq_Repo = repoName, rq_SHA = jo_SHA j, rq_WorkflowName = wr_Name ref, rq_Status = status,
          rq_Description = desc, rq_TargetURL = ''http://'' @ de_bind de @ ''/runs/'' @ run_id de j @ ''/log''\<rparr>)"

text \<open>The first part of \<open>runJob\<close>, up to the call of the runner; \<open>daemon_secrets\<close> ignores an error as the code does.\<close>

definition begin_run :: "daemon_env \<Rightarrow> (nat \<Rightarrow> bool) \<Rightarrow> poll_job \<Rightarrow> WorkflowRef \<Rightarrow> DB \<Rightarrow> DB" where
  "begin_run de alive j ref db =
     snd (UpdateRunStatus (alive 1) (run_id de j) RunStatusRunning None None (snd (CreateRun (alive 0) (run_record de j ref) db)))"

definition daemon_secrets :: "machine \<Rightarrow> string gomap \<Rightarrow> file_system \<Rightarrow> string gomap" where
  "daemon_secrets mc raw fs = (case resolve_run_secrets mc raw fs of Inl _ \<Rightarrow> [] | Inr m \<Rightarrow> m)"

text \<open>The last part: the status of the run and of the commit, and the description of the latter.\<close>

definition final_status_of :: "daemon_env \<Rightarrow> run_error + int \<Rightarrow> string \<times> string \<times> string" where
  "final_status_of de res =
     (case res of
        Inl e \<Rightarrow> (RunStatusError, StatusError, ''internal error: '' @ de_errorText de e)
      | Inr code \<Rightarrow>
          if code = 0 then (RunStatusSuccess, StatusSuccess, ''passed in '' @ Duration_String (Round_second (time_Sub (de_finished de) (de_started de))))
          else (RunStatusFailure, StatusFailure, ''failed (exit '' @ Itoa code @ '')''))"

definition exit_of :: "run_error + int \<Rightarrow> int" where
  "exit_of res = (case res of Inl _ \<Rightarrow> 0 | Inr code \<Rightarrow> code)"

definition finish_run :: "daemon_env \<Rightarrow> bool \<Rightarrow> poll_job \<Rightarrow> run_error + int \<Rightarrow> DB \<Rightarrow> DB" where
  "finish_run de alive j res db =
     snd (UpdateRunStatus alive (run_id de j) (fst (final_status_of de res)) (Some (exit_of res)) (Some (de_finished de)) db)"

definition daemon_runJob ::
  "daemon_env \<Rightarrow> (nat \<Rightarrow> bool) \<Rightarrow> nat \<Rightarrow> podman_runner \<Rightarrow> poll_job \<Rightarrow> WorkflowRef \<Rightarrow> file_system \<Rightarrow> DB \<Rightarrow>
   (ReportRequest list \<times> (run_error + int) \<times> file_system \<times> DB) option" where
  "daemon_runJob de alive fuel pr j ref fs db =
     (let mc = de_machine de; ref' = ref\<lparr>wr_Secrets := daemon_secrets mc (wr_Secrets ref) fs\<rparr>
      in case Run_podman mc (alive 2) fuel (wire_runner (run_id de j) pr) j ref' fs (begin_run de alive j ref db) of
           None \<Rightarrow> None
         | Some (res, st) \<Rightarrow>
             (let (_, status, desc) = final_status_of de res
              in Some ([run_report de j ref StatusPending ''queued'', run_report de j ref StatusPending ''running'',
                        run_report de j ref status desc], res, lo_fs st, finish_run de (alive 3) j res (lo_db st))))"

section \<open>Manual runs and cancellation\<close>

text \<open>The channel is a list with a capacity, as in the poller.\<close>

datatype control_error = UnknownProject | UnknownWorkflow | JobQueueFull | NotInFlight

definition manual_job :: "string \<Rightarrow> string \<Rightarrow> DBProject \<Rightarrow> DBWorkflow \<Rightarrow> string gomap \<Rightarrow> poll_job" where
  "manual_job runID projectName p w inputs =
     (let (repo, branch) = (case find is_commit_trigger (dp_Triggers p) of Some t \<Rightarrow> (dt_Repo t, dt_Branch t) | None \<Rightarrow> ([], []));
          (owner, repoName) = (if repo \<noteq> [] then splitRepo repo else ([], []))
      in \<lparr>jo_WatchName = projectName, jo_Repo = repo, jo_Owner = owner, jo_RepoName = repoName, jo_SHA = ''manual'', jo_PRNumber = 0,
          jo_Branch = branch, jo_EventType = ''manual'', jo_WorkflowRefs = [workflow_to_ref w], jo_Inputs = inputs, jo_RunID = runID\<rparr>)"

definition TriggerRun ::
  "bool \<Rightarrow> jsonlib \<Rightarrow> string \<Rightarrow> nat \<Rightarrow> string \<Rightarrow> string \<Rightarrow> string gomap \<Rightarrow> DB \<Rightarrow> poll_job list \<Rightarrow>
   (control_error + string) \<times> poll_job list" where
  "TriggerRun alive js newID cap projectName workflowName inputs db chan =
     (case GetProject alive js projectName db of
        Inl _ \<Rightarrow> (Inl UnknownProject, chan)
      | Inr project \<Rightarrow>
          (case find (\<lambda>w. dw_Name w = workflowName) (dp_Workflows project) of
             None \<Rightarrow> (Inl UnknownWorkflow, chan)
           | Some w \<Rightarrow>
               if length chan < cap then (Inr newID, chan @ [manual_job newID projectName project w inputs])
               else (Inl JobQueueFull, chan)))"

text \<open>
  \<open>CancelRun\<close>: \<open>inFlight\<close> are the identifiers of the runs that are under way. The result says whether the
  context of the run was cancelled.
\<close>

definition CancelRun :: "bool \<Rightarrow> gtime \<Rightarrow> string \<Rightarrow> string list \<Rightarrow> DB \<Rightarrow> (control_error + unit) \<times> DB" where
  "CancelRun alive now runID inFlight db =
     (if runID \<in> set inFlight then (Inr (), snd (UpdateRunStatus alive runID RunStatusCanceled None (Some now) db))
      else (Inl NotInFlight, db))"

section \<open>Dispatch\<close>

text \<open>
  The goroutines of \<open>Run\<close>: producers put jobs into the channel, \<open>forwardJobs\<close> moves them into the queue, the
  dispatch loop takes a job and, for each of its workflows, waits for a place in the semaphore and starts
  a run; a run that ends frees its place. \<open>dm_current\<close> are the workflows of the current job that wait to be started;
  \<open>dm_taken\<close> and \<open>dm_started\<close> record the jobs taken and the runs started.
\<close>

record daemon_state =
  dm_jobs :: "poll_job list"
  dm_chanCap :: nat
  dm_queue :: job_queue
  dm_current :: "(poll_job \<times> WorkflowRef) list"
  dm_running :: "(poll_job \<times> WorkflowRef) list"
  dm_sem :: nat
  dm_semCap :: nat
  dm_taken :: "poll_job list"
  dm_started :: "(poll_job \<times> WorkflowRef) list"

definition job_runs :: "poll_job \<Rightarrow> (poll_job \<times> WorkflowRef) list" where
  "job_runs j = map (Pair j) (jo_WorkflowRefs j)"

inductive daemon_step :: "daemon_state \<Rightarrow> daemon_state \<Rightarrow> bool" where
  produce: "length (dm_jobs d) < dm_chanCap d \<Longrightarrow> daemon_step d (d\<lparr>dm_jobs := dm_jobs d @ [j]\<rparr>)"
| forward: "dm_jobs d = j # js \<Longrightarrow> Enqueue j (dm_queue d) = Some q \<Longrightarrow> daemon_step d (d\<lparr>dm_jobs := js, dm_queue := q\<rparr>)"
| take: "dm_current d = [] \<Longrightarrow> dequeue_attempt False (dm_queue d) = (Got j, q) \<Longrightarrow>
    daemon_step d (d\<lparr>dm_queue := q, dm_current := job_runs j, dm_taken := dm_taken d @ [j]\<rparr>)"
| start: "dm_current d = r # rs \<Longrightarrow> dm_sem d < dm_semCap d \<Longrightarrow>
    daemon_step d (d\<lparr>dm_current := rs, dm_sem := Suc (dm_sem d), dm_running := dm_running d @ [r], dm_started := dm_started d @ [r]\<rparr>)"
| finish: "dm_running d = xs @ r # ys \<Longrightarrow> daemon_step d (d\<lparr>dm_running := xs @ ys, dm_sem := dm_sem d - 1\<rparr>)"

inductive_cases daemon_stepE: "daemon_step d d'"

text \<open>The capacities that \<open>New\<close> computes from the configuration.\<close>

definition daemon_init :: "nat \<Rightarrow> daemon_state" where
  "daemon_init maxConcurrency =
     \<lparr>dm_jobs = [], dm_chanCap = maxConcurrency * 4, dm_queue = queue_New (int maxConcurrency * 4), dm_current = [],
      dm_running = [], dm_sem = 0, dm_semCap = maxConcurrency, dm_taken = [], dm_started = []\<rparr>"

end
