(* ===== verification/Job_Run_Correct.thy ===== *)
theory Job_Run_Correct
  imports Job_Run Interpolation Store_Correct
begin

text \<open>
  Properties of the run of a job: the status and the results of its steps, what is left when the run
  ends, the variables that steps pass on, when the run returns, and the contexts of expressions.
\<close>

section \<open>Results of steps\<close>

lemma execDockerAction_outcome:
  "execDockerAction lib pd jx step ra ex fs = ((r, e), fs') \<Longrightarrow> sr_Outcome r \<in> {''success'', ''failure''}"
  by (auto simp: execDockerAction_def step_success_def step_failure_def step_failure_open_def
      split: prod.splits docker_result.splits if_splits)

lemma execCompositeAction_outcome:
  "execCompositeAction lib h run info step ra ex fs = Some ((r, e), fs') \<Longrightarrow> sr_Outcome r \<in> {''success'', ''failure''}"
  by (auto simp: execCompositeAction_def step_failure_open_def Let_def
      split: option.splits prod.splits if_splits)

lemma ExecActionStep_outcome:
  "ExecActionStep lib h pd jx run info step ra ex fs = Some ((r, e), fs') \<Longrightarrow> sr_Outcome r \<in> {''success'', ''failure''}"
  by (cases "rv_Type ra")
     (auto simp: ExecActionStep_def step_failure_open_def
       dest!: execCompositeAction_outcome execDockerAction_outcome)

lemma RunStep_outcome:
  assumes "RunStep lib h pd jx info n step ex fs = Some ((r, e), fs')"
  shows "sr_Outcome r \<in> {''success'', ''failure''}"
proof (cases n)
  case (Suc k)
  then show ?thesis
    using assms
    by (auto simp: runShellStep_def runUsesStep_def step_success_def step_failure_def Let_def
        split: prod.splits option.splits sum.splits if_splits dest!: ExecActionStep_outcome)
qed (use assms in simp)

section \<open>The loop over the steps\<close>

text \<open>A step breaks the job when it failed and does not have \<open>continue-on-error\<close>.\<close>

definition breaks :: "Step \<Rightarrow> StepResult \<Rightarrow> bool" where
  "breaks step r = (sr_Outcome r = ''failure'' \<and> \<not> st_ContinueOnError step)"

definition step_ids :: "nat \<Rightarrow> Step list \<Rightarrow> string list" where
  "step_ids i steps = map (\<lambda>(j, s). step_id j s) (enumerate i steps)"

text \<open>
  The specification of the loop: \<open>failed\<close> says that a step broke the job; a step without a condition is
  skipped exactly then.
\<close>

fun history_ok :: "bool \<Rightarrow> Step list \<Rightarrow> StepResult list \<Rightarrow> bool" where
  "history_ok failed [] [] = True"
| "history_ok failed (s # ss) (r # rs) =
     (sr_Outcome r \<in> {''success'', ''failure'', ''skipped''} \<and>
      (st_If s = [] \<longrightarrow> (sr_Outcome r = ''skipped'' \<longleftrightarrow> failed)) \<and> history_ok (failed \<or> breaks s r) ss rs)"
| "history_ok failed _ _ = False"

lemma history_ok_length: "history_ok f ss rs \<Longrightarrow> length rs = length ss"
  by (induction f ss rs rule: history_ok.induct) auto

definition live_status :: "bool \<Rightarrow> JobStatus" where
  "live_status failed = (if failed then JobStatusFailure else JobStatusPending)"

text \<open>Fields of the context that the steps leave alone.\<close>

definition same_setting :: "ExecutionContext \<Rightarrow> ExecutionContext \<Rightarrow> bool" where
  "same_setting ex ex' =
     (ex_Inputs ex' = ex_Inputs ex \<and> ex_Secrets ex' = ex_Secrets ex \<and> ex_Cancelled ex' = ex_Cancelled ex \<and>
      ex_DefaultShell ex' = ex_DefaultShell ex \<and> ex_DefaultWorkdir ex' = ex_DefaultWorkdir ex)"

lemma same_setting_refl [simp]: "same_setting ex ex"
  by (simp add: same_setting_def)

lemma same_setting_trans: "same_setting a b \<Longrightarrow> same_setting b c \<Longrightarrow> same_setting a c"
  by (simp add: same_setting_def)

lemma merge_delta_result:
  "sr_Outcome (fst (merge_delta d (r, ex))) = sr_Outcome r"
  "ex_StepResults (snd (merge_delta d (r, ex))) = ex_StepResults ex"
  "ex_JobStatus (snd (merge_delta d (r, ex))) = ex_JobStatus ex"
  "same_setting ex (snd (merge_delta d (r, ex)))"
  by (auto simp: merge_delta_def same_setting_def split: sum.splits)

lemma job_step_effect:
  assumes "job_step lib h pd jx fuel w jobID job info i step (ex, files, fs) = Some (ex', files', fs')"
    and "ex_JobStatus ex = live_status failed"
  obtains r where "ex_StepResults ex' = mput (step_id i step) r (ex_StepResults ex)"
    and "history_ok failed [step] [r]" and "ex_JobStatus ex' = live_status (failed \<or> breaks step r)"
    and "same_setting ex ex'"
proof -
  let ?step = "step\<lparr>st_ID := step_id i step\<rparr>"
  have runs: "should_run lib w jobID job info ?step ex \<longleftrightarrow> \<not> failed" if "st_If step = []"
    using assms(2) that by (auto simp: should_run_def live_status_def)
  show ?thesis
  proof (cases "should_run lib w jobID job info ?step ex")
    case False
    with assms runs show ?thesis
      by (intro that[of step_skipped])
         (auto simp: job_step_def Let_def step_skipped_def breaks_def same_setting_def)
  next
    case True
    then obtain r0 e fs1 where run: "RunStep lib h pd jx info fuel ?step ex fs = Some ((r0, e), fs1)"
      using assms(1) by (auto simp: job_step_def Let_def split: option.splits)
    define r1 where "r1 = (if e \<noteq> None then step_failure else r0)"
    obtain d files1 where rd: "ReadDelta fs1 files = (d, files1)" by (cases "ReadDelta fs1 files")
    have outcome: "sr_Outcome r1 \<in> {''success'', ''failure''}"
      using RunStep_outcome[OF run] by (auto simp: r1_def step_failure_def)
    have ex': "ex' = record_step (step_id i step) ?step (merge_delta d (r1, ex))"
      using assms(1) True run rd by (simp add: job_step_def Let_def r1_def)
    show ?thesis
    proof (rule that[of "fst (merge_delta d (r1, ex))"])
      show "history_ok failed [step] [fst (merge_delta d (r1, ex))]"
        using outcome True runs by (auto simp: merge_delta_result)
      show "same_setting ex ex'"
        using merge_delta_result(4)[of ex d r1] by (auto simp: ex' record_step_def Let_def same_setting_def)
    qed (use assms(2) in \<open>auto simp: ex' record_step_def Let_def merge_delta_result breaks_def live_status_def\<close>)
  qed
qed

lemma job_steps_history:
  assumes "job_steps lib h pd jx fuel w jobID job info i steps (ex, files, fs) = Some (ex', files', fs')"
    and "ex_JobStatus ex = live_status failed"
  shows "\<exists>rs. history_ok failed steps rs \<and>
    ex_StepResults ex' = mput_all (ex_StepResults ex) (zip (step_ids i steps) rs) \<and>
    ex_JobStatus ex' = live_status (failed \<or> list_ex (\<lambda>(s, r). breaks s r) (zip steps rs)) \<and> same_setting ex ex'"
  using assms
proof (induction steps arbitrary: i ex files fs failed)
  case Nil
  then show ?case by (auto intro!: exI[of _ "[]"] simp: step_ids_def)
next
  case (Cons step steps)
  then obtain ex1 files1 fs1 where
    one: "job_step lib h pd jx fuel w jobID job info i step (ex, files, fs) = Some (ex1, files1, fs1)" and
    rest: "job_steps lib h pd jx fuel w jobID job info (Suc i) steps (ex1, files1, fs1) = Some (ex', files', fs')"
    by (auto split: option.splits)
  obtain r where r: "ex_StepResults ex1 = mput (step_id i step) r (ex_StepResults ex)" "history_ok failed [step] [r]"
    "ex_JobStatus ex1 = live_status (failed \<or> breaks step r)" "same_setting ex ex1"
    using job_step_effect[OF one Cons.prems(2)] by blast
  obtain rs where "history_ok (failed \<or> breaks step r) steps rs"
    "ex_StepResults ex' = mput_all (ex_StepResults ex1) (zip (step_ids (Suc i) steps) rs)"
    "ex_JobStatus ex' = live_status ((failed \<or> breaks step r) \<or> list_ex (\<lambda>(s, r). breaks s r) (zip steps rs))"
    "same_setting ex1 ex'"
    using Cons.IH[OF rest r(3)] by blast
  with r show ?case
    by (intro exI[of _ "r # rs"]) (auto simp: step_ids_def disj_assoc intro: same_setting_trans)
qed

section \<open>The run of a job\<close>

lemma initial_context_fields [simp]:
  "ex_StepResults (initial_context w job secrets) = []" "ex_JobStatus (initial_context w job secrets) = JobStatusPending"
  "ex_Inputs (initial_context w job secrets) = []" "ex_Secrets (initial_context w job secrets) = secrets"
  by (simp_all add: initial_context_def Let_def)

lemma run_in_container_ok:
  assumes "run_in_container lib h pd re jx stored fuel jobID job w info img dir ex0 fs db cs = Some ((res, None), fs', db', cs')"
  obtains files fs3 ex' files' where
    "job_steps lib h pd jx fuel w jobID job info 0 (jb_Steps job)
       (ex0\<lparr>ex_LiveEnv := buildInitialEnv lib w jobID job info\<rparr>, files, fs3) = Some (ex', files', fs')"
    "res = \<lparr>jr_JobID = jobID, jr_Status = final_status (ex_JobStatus ex'), jr_Steps = ex_StepResults ex'\<rparr>"
    "db' = (if stored then collect_artifacts re job (fst (artifact_mount jx job info)) info fs' db else db)"
  using assms
  by (auto simp: run_in_container_def Let_def split: sum.splits prod.splits if_splits option.splits)

lemma run_in_container_error:
  assumes "run_in_container lib h pd re jx stored fuel jobID job w info img dir ex0 fs db cs = Some ((res, Some e), fs', db', cs')"
  shows "res = job_failed jobID [] \<and> db' = db \<and> e \<noteq> JobIf \<and> e \<noteq> MkdirTemp"
  using assms
  by (auto simp: run_in_container_def Let_def split: sum.splits prod.splits if_splits option.splits)

text \<open>What Podman promises of new containers: their identifiers are new, and they can be removed.\<close>

definition removable :: "podman \<Rightarrow> containers \<Rightarrow> bool" where
  "removable pd cs = (\<forall>spec cid. pd_createWithSpec pd spec cs = Some cid \<longrightarrow> cid \<notin> set cs \<and> pd_remove pd cid)"

lemma run_in_container_removes:
  assumes "run_in_container lib h pd re jx stored fuel jobID job w info img dir ex0 fs db cs = Some (r, fs', db', cs')" "removable pd cs"
  shows "cs' = cs"
proof -
  have "snd (Remove pd cid cs1) = cs" if "CreateContainer pd cfg cs = Some (cid, cs1)" for cfg cid cs1
    using that assms(2) by (auto simp: CreateContainer_def Remove_def removable_def removeAll_id split: if_splits)
  then show ?thesis
    using assms(1)
    by (auto simp: run_in_container_def Let_def split: sum.splits prod.splits if_splits option.splits)
qed

lemma job_result:
  assumes "RunJob lib h pd re jx stored fuel jobID job w info secrets img fs db cs = Some ((res, None), fs', db', cs')"
  shows "jb_If job \<noteq> [] \<and> res = \<lparr>jr_JobID = jobID, jr_Status = JobStatusSuccess, jr_Steps = []\<rparr> \<or>
    (\<exists>rs. history_ok False (jb_Steps job) rs \<and>
      res = \<lparr>jr_JobID = jobID,
             jr_Status = (if list_ex (\<lambda>(s, r). breaks s r) (zip (jb_Steps job) rs) then JobStatusFailure else JobStatusSuccess),
             jr_Steps = mput_all [] (zip (step_ids 0 (jb_Steps job)) rs)\<rparr>)"
proof -
  consider (skip) "jb_If job \<noteq> []" "res = \<lparr>jr_JobID = jobID, jr_Status = JobStatusSuccess, jr_Steps = []\<rparr>"
    | (run) dir fs1 where "run_in_container lib h pd re jx stored fuel jobID job w info (job_image img job) dir
        (initial_context w job secrets) fs db cs = Some ((res, None), fs1, db', cs')"
    using assms by (auto simp: RunJob_def Let_def split: option.splits sum.splits bool.splits if_splits)
  then show ?thesis
  proof cases
    case run
    obtain files fs3 ex' files' where
      steps: "job_steps lib h pd jx fuel w jobID job info 0 (jb_Steps job)
        ((initial_context w job secrets)\<lparr>ex_LiveEnv := buildInitialEnv lib w jobID job info\<rparr>, files, fs3) = Some (ex', files', fs1)"
      and res: "res = \<lparr>jr_JobID = jobID, jr_Status = final_status (ex_JobStatus ex'), jr_Steps = ex_StepResults ex'\<rparr>"
      using run_in_container_ok[OF run] by metis
    obtain rs where "history_ok False (jb_Steps job) rs"
      "ex_StepResults ex' = mput_all [] (zip (step_ids 0 (jb_Steps job)) rs)"
      "ex_JobStatus ex' = live_status (list_ex (\<lambda>(s, r). breaks s r) (zip (jb_Steps job) rs))"
      using job_steps_history[OF steps, of False] by (auto simp: live_status_def)
    with res show ?thesis
      by (intro disjI2 exI[of _ rs]) (simp add: live_status_def final_status_def)
  qed simp
qed

text \<open>
  C4. The status of a job. When \<open>RunJob\<close> returns without an error, either the condition of the job was
  false, and it succeeds with no results, or every step has a result, stored under its identifier: a step
  without a condition is skipped exactly when a step before it failed without \<open>continue-on-error\<close>, and
  the job fails exactly when some step did.
\<close>

theorem RunJob_status:
  assumes "RunJob lib h pd re jx stored fuel jobID job w info secrets img fs db cs = Some ((res, None), fs', db', cs')"
  shows "jb_If job \<noteq> [] \<and> res = \<lparr>jr_JobID = jobID, jr_Status = JobStatusSuccess, jr_Steps = []\<rparr> \<or>
    (\<exists>rs. history_ok False (jb_Steps job) rs \<and>
      res = \<lparr>jr_JobID = jobID,
             jr_Status = (if list_ex (\<lambda>(s, r). breaks s r) (zip (jb_Steps job) rs) then JobStatusFailure else JobStatusSuccess),
             jr_Steps = mput_all [] (zip (step_ids 0 (jb_Steps job)) rs)\<rparr>)"
  using assms by (rule job_result)

text \<open>Concrete hosts, engines and jobs, for the examples.\<close>

definition sample_host :: host where
  "sample_host = \<lparr>ho_get = \<lambda>_. None, ho_clone = \<lambda>_ _. None, ho_parse = \<lambda>_. None, ho_writable = \<lambda>_. True\<rparr>"

definition sample_podman :: podman where
  "sample_podman =
     \<lparr>pd_pull = \<lambda>_. True, pd_createWithSpec = \<lambda>_ cs. Some (CHR ''c'' # concat cs), pd_start = \<lambda>_. True, pd_remove = \<lambda>_. True, pd_execCreate = \<lambda>_. True,
      pd_execStart = \<lambda>c fs. (True, if last (xc_Cmd c) = ''export'' then step_writes ''/r'' (''A=1'' @ [newline], [], []) fs else fs),
      pd_execInspect = \<lambda>c fs. Some (if last (xc_Cmd c) = ''exit 1'' then 1 else 0),
      pd_run = \<lambda>_ fs. (DockerOK, fs), pd_mkdirTemp = \<lambda>_. Some ''/r''\<rparr>"

definition run_step :: "string \<Rightarrow> string \<Rightarrow> Step" where
  "run_step cond script = empty_step\<lparr>st_Run := script, st_If := cond\<rparr>"

definition sample_job :: "Step list \<Rightarrow> Job" where
  "sample_job steps =
     \<lparr>jb_Name = [], jb_RunsOn = YString ''ubuntu'', jb_Needs = YOther, jb_If = [], jb_Env = [], jb_Defaults = None,
      jb_TimeoutMinutes = 0, jb_Steps = steps, jb_ExtraBinds = [], jb_Volumes = [], jb_ArtifactPaths = []\<rparr>"

definition sample_workflow :: "Job gomap \<Rightarrow> Workflow" where
  "sample_workflow jobs =
     \<lparr>wf_Name = ''w'', wf_On = YOther, wf_Env = [], wf_Defaults = None, wf_Jobs = jobs, wf_Inputs = []\<rparr>"

definition sample_info :: JobInfo where
  "sample_info =
     \<lparr>ji_SHA = ''abc'', ji_Ref = ''refs/heads/main'', ji_RefName = ''main'', ji_EventName = ''push'', ji_Repo = ''o/r'',
      ji_Owner = ''o'', ji_RepoName = ''r'', ji_RunID = ''1'', ji_RunNumber = 1, ji_Actor = ''ghenkins'', ji_EventPayload = [],
      ji_PRNumber = 0, ji_HeadRef = [], ji_BaseRef = [], ji_Inputs = []\<rparr>"

definition sample_runner :: job_runner where
  "sample_runner = \<lparr>jx_WorkspaceDir = ''/w'', jx_workspaceDir = ''/ws'', jx_cacheDir = ''/c''\<rparr>"

definition sample_env :: run_env where
  "sample_env = \<lparr>re_nano = 1, re_uuid = \<lambda>s. s, re_sha256 = \<lambda>s. s\<rparr>"


definition failing_job :: Job where
  "failing_job = sample_job [run_step [] ''exit 1'', run_step [] ''true'', run_step ''always()'' ''true'']"

lemma failing_job_run:
  "RunJob ascii_lib sample_host sample_podman sample_env sample_runner True 1 ''build'' failing_job (sample_workflow [])
     sample_info [] [] [] (empty_db False) [] =
   Some ((\<lparr>jr_JobID = ''build'', jr_Status = JobStatusFailure,
           jr_Steps = [(''__step_0'', step_failure), (''__step_1'', step_skipped), (''__step_2'', step_success)]\<rparr>, None),
         [], empty_db False, [])"
  by code_simp

theorem RunJob_status_witness:
  "\<exists>rs. history_ok False (jb_Steps failing_job) rs \<and> list_ex (\<lambda>(s, r). breaks s r) (zip (jb_Steps failing_job) rs) \<and>
     [(''__step_0'', step_failure), (''__step_1'', step_skipped), (''__step_2'', step_success)] =
       mput_all [] (zip (step_ids 0 (jb_Steps failing_job)) rs)"
  using RunJob_status[OF failing_job_run] by (auto split: if_splits)

text \<open>
  What a job leaves behind. Whether \<open>RunJob\<close> returns a result or an error, no file of its runner
  directory is left, and no container, when Podman gives new containers new identifiers and can remove them; with an
  error it reports a failed job without results and the store is unchanged.
\<close>

lemma RunJob_cleanup:
  assumes "RunJob lib h pd re jx stored fuel jobID job w info secrets img fs db cs = Some ((res, err), fs', db', cs')"
  shows "(\<forall>dir. pd_mkdirTemp pd (jx_workspaceDir jx) = Some dir \<and> \<not> path_exists fs dir \<longrightarrow> \<not> path_exists fs' dir) \<and>
    (removable pd cs \<longrightarrow> cs' = cs) \<and>
    (err \<noteq> None \<longrightarrow> res = job_failed jobID [] \<and> db' = db)"
proof -
  have gone: "\<not> path_exists (remove_all_under dir f) dir" for dir f
    by (auto simp: path_exists_def remove_all_under_def list_ex_iff)
  show ?thesis
    using assms
    by (auto simp: RunJob_def Let_def gone split: option.splits sum.splits bool.splits if_splits
        dest!: run_in_container_error dest: run_in_container_removes)
qed

lemma RunJob_cleanup_witness:
  "pd_mkdirTemp sample_podman ''/ws'' = Some ''/r'' \<and>
   RunJob ascii_lib sample_host (sample_podman\<lparr>pd_start := \<lambda>_. False\<rparr>) sample_env sample_runner True 1 ''build'' failing_job
     (sample_workflow []) sample_info [] [] [] (empty_db False) [] =
     Some ((job_failed ''build'' [], Some StartContainer), [], empty_db False, []) \<and>
   \<not> path_exists [] ''/r''"
proof -
  have dir: "pd_mkdirTemp (sample_podman\<lparr>pd_start := \<lambda>_. False\<rparr>) (jx_workspaceDir sample_runner) = Some ''/r''" "\<not> path_exists [] ''/r''"
    by code_simp+
  have run: "RunJob ascii_lib sample_host (sample_podman\<lparr>pd_start := \<lambda>_. False\<rparr>) sample_env sample_runner True 1 ''build'' failing_job
     (sample_workflow []) sample_info [] [] [] (empty_db False) [] =
     Some ((job_failed ''build'' [], Some StartContainer), [], empty_db False, [])"
    by code_simp
  show ?thesis
    using RunJob_cleanup[OF run] dir run by (auto simp: sample_podman_def sample_runner_def)
qed

section \<open>Returning\<close>

text \<open>
  \<open>nested_within n step\<close>: the actions that a step reaches are nested at most \<open>n\<close> deep, in whatever
  context and with whatever files it is resolved.
\<close>

fun nested_within :: "golib \<Rightarrow> host \<Rightarrow> job_runner \<Rightarrow> JobInfo \<Rightarrow> nat \<Rightarrow> Step \<Rightarrow> bool" where
  "nested_within lib h jx info 0 step = (st_Run step \<noteq> [] \<or> st_Uses step = [])"
| "nested_within lib h jx info (Suc n) step =
     (st_Run step \<noteq> [] \<or> st_Uses step = [] \<or>
      (\<forall>ex fs ra fs' def.
         ResolveAction h (Interpolate lib (buildStepEvalCtx ex step info) (st_Uses step)) (jx_WorkspaceDir jx)
           (path_join [jx_cacheDir jx, ''actions'']) fs = (Inr ra, fs') \<and> rv_Def ra = Some def \<longrightarrow>
         (\<forall>s \<in> set (ar_Steps (ad_Runs def)). nested_within lib h jx info n s)))"

lemma nested_within_ID [simp]:
  "nested_within lib h jx info n (step\<lparr>st_ID := i\<rparr>) = nested_within lib h jx info n step"
  by (cases n) (simp_all add: buildStepEvalCtx_def)

lemma composite_steps_cong:
  assumes "\<And>s ex fs. s \<in> set steps \<Longrightarrow> run s ex fs = run' s ex fs \<and> run s ex fs \<noteq> None"
  shows "composite_steps run steps ex fs = composite_steps run' steps ex fs \<and> composite_steps run steps ex fs \<noteq> None"
  using assms
proof (induction steps arbitrary: ex fs)
  case (Cons s steps)
  have "run s ex fs = run' s ex fs \<and> run s ex fs \<noteq> None"
    by (rule Cons.prems) simp
  then have same: "run s ex fs = run' s ex fs" and some: "run s ex fs \<noteq> None"
    by (rule conjunct1, rule conjunct2)
  obtain r e fs' where run: "run s ex fs = Some ((r, e), fs')"
    using some by (cases "run s ex fs") (auto simp: prod_eq_iff)
  have rest: "composite_steps run steps c f = composite_steps run' steps c f \<and> composite_steps run steps c f \<noteq> None" for c f
    by (rule Cons.IH, rule Cons.prems) simp
  have eq: "composite_steps run steps c f = composite_steps run' steps c f"
    and some': "(composite_steps run' steps c f = None) = False" for c f
    using rest[of c f] by argo+
  show ?case
    using run by (simp add: same[symmetric] eq some' Let_def del: not_None_eq)
qed simp

lemma ExecActionStep_cong:
  assumes "\<And>def s ex fs. rv_Def ra = Some def \<Longrightarrow> s \<in> set (ar_Steps (ad_Runs def)) \<Longrightarrow>
      run s ex fs = run' s ex fs \<and> run s ex fs \<noteq> None"
  shows "ExecActionStep lib h pd jx run info step ra ex fs = ExecActionStep lib h pd jx run' info step ra ex fs \<and>
    ExecActionStep lib h pd jx run info step ra ex fs \<noteq> None"
proof -
  have *: "composite_steps run (ar_Steps (ad_Runs def)) e f = composite_steps run' (ar_Steps (ad_Runs def)) e f \<and>
      composite_steps run (ar_Steps (ad_Runs def)) e f \<noteq> None" if "rv_Def ra = Some def" for def e f
    using composite_steps_cong[of "ar_Steps (ad_Runs def)" run run'] assms[OF that] by blast
  have eq: "composite_steps run (ar_Steps (ad_Runs def)) e f = composite_steps run' (ar_Steps (ad_Runs def)) e f"
    and some: "(composite_steps run' (ar_Steps (ad_Runs def)) e f = None) = False" if "rv_Def ra = Some def" for def e f
    using *[OF that, of e f] by argo+
  have "execCompositeAction lib h run info step ra ex fs = execCompositeAction lib h run' info step ra ex fs \<and>
      execCompositeAction lib h run' info step ra ex fs \<noteq> None"
  proof (cases "rv_Def ra")
    case (Some def)
    show ?thesis
      by (simp add: execCompositeAction_def Some eq[OF Some] some[OF Some] Let_def split: option.split prod.split)
  qed (simp add: execCompositeAction_def)
  then show ?thesis
    by (cases "rv_Type ra") (simp_all add: ExecActionStep_def)
qed

lemma RunStep_returns:
  "nested_within lib h jx info n step \<Longrightarrow>
   RunStep lib h pd jx info (Suc n + k) step ex fs = RunStep lib h pd jx info (Suc n) step ex fs \<and>
   RunStep lib h pd jx info (Suc n) step ex fs \<noteq> None"
proof (induction n arbitrary: step ex fs)
  case (Suc n)
  show ?case
  proof (cases "st_Run step \<noteq> [] \<or> st_Uses step = []")
    case False
    let ?r = "ResolveAction h (Interpolate lib (buildStepEvalCtx ex step info) (st_Uses step)) (jx_WorkspaceDir jx)
      (path_join [jx_cacheDir jx, ''actions'']) fs"
    have "ExecActionStep lib h pd jx (RunStep lib h pd jx info (Suc n)) info step ra ex fs' =
        ExecActionStep lib h pd jx (RunStep lib h pd jx info (Suc n + k)) info step ra ex fs' \<and>
        ExecActionStep lib h pd jx (RunStep lib h pd jx info (Suc n)) info step ra ex fs' \<noteq> None"
      if "?r = (Inr ra, fs')" for ra fs'
    proof (rule ExecActionStep_cong)
      fix def s ex' fs''
      assume "rv_Def ra = Some def" "s \<in> set (ar_Steps (ad_Runs def))"
      with Suc.prems False that have "nested_within lib h jx info n s"
        by (simp del: path_join.simps)
      from Suc.IH[OF this]
      show "RunStep lib h pd jx info (Suc n) s ex' fs'' = RunStep lib h pd jx info (Suc n + k) s ex' fs'' \<and>
          RunStep lib h pd jx info (Suc n) s ex' fs'' \<noteq> None" by simp
    qed
    with False show ?thesis
      by (cases ?r; cases "fst ?r") (simp_all add: runUsesStep_def Let_def del: path_join.simps)
  qed (simp del: not_None_eq)
qed (simp del: not_None_eq)

lemma job_steps_returns:
  assumes "\<forall>s \<in> set steps. nested_within lib h jx info n s"
  shows "job_steps lib h pd jx (Suc n + k) w jobID job info i steps st =
      job_steps lib h pd jx (Suc n) w jobID job info i steps st \<and>
    job_steps lib h pd jx (Suc n) w jobID job info i steps st \<noteq> None"
  using assms
proof (induction steps arbitrary: i st)
  case (Cons step steps)
  obtain ex files fs where st: "st = (ex, files, fs)" by (cases st)
  let ?step = "step\<lparr>st_ID := step_id i step\<rparr>"
  have eq: "RunStep lib h pd jx info (Suc n + k) ?step ex fs = RunStep lib h pd jx info (Suc n) ?step ex fs"
    and some: "RunStep lib h pd jx info (Suc n) ?step ex fs \<noteq> None"
    using RunStep_returns[of lib h jx info n ?step pd k ex fs] Cons.prems by simp_all
  have "job_step lib h pd jx (Suc n + k) w jobID job info i step st = job_step lib h pd jx (Suc n) w jobID job info i step st"
    unfolding job_step_def st Let_def prod.case eq ..
  moreover have "job_step lib h pd jx (Suc n) w jobID job info i step st \<noteq> None"
    using some by (auto simp: job_step_def st Let_def simp del: RunStep.simps split: option.splits prod.splits)
  ultimately show ?case
    using Cons by (auto simp del: RunStep.simps split: option.splits)
qed simp

lemma EvalBool_total: "EvalBool lib c s \<noteq> None"
proof -
  obtain r where "Eval lib c (if HasPrefix (TrimSpace s) ''${{'' \<and> HasSuffix (TrimSpace s) ''}}''
      then TrimSpace (take (length (TrimSpace s) - 5) (drop 3 (TrimSpace s))) else TrimSpace s) = Some r"
    using Eval_total by blast
  then show ?thesis
    by (cases r) (simp_all add: EvalBool_def Let_def)
qed



section \<open>Variables and outputs of steps\<close>

lemma shell_env_inherits:
  assumes "gmap_ok (ex_LiveEnv ex)" "k \<noteq> ''PATH''" "k \<notin> fst ` set (st_Env step)"
  shows "map_of (shell_env lib step ex ec) k = map_of (ex_LiveEnv ex) k"
proof -
  have "k \<notin> fst ` set (rev (map (\<lambda>(k, v). (k, Interpolate lib ec v)) (st_Env step)))"
    using assms(3) by (auto simp: image_iff)
  then have "map_of (rev (map (\<lambda>(k, v). (k, Interpolate lib ec v)) (st_Env step))) k = None"
    by (simp only: map_of_eq_None_iff not_False_eq_True)
  then have "map_of (mput_all (mput_all [] (ex_LiveEnv ex)) (map (\<lambda>(k, v). (k, Interpolate lib ec v)) (st_Env step))) k =
      map_of (ex_LiveEnv ex) k"
    by (simp add: map_of_mput_all_rev[of "mput_all _ _"] map_of_mput_all[OF assms(1)] map_add_def)
  with assms(2) show ?thesis
    by (simp add: shell_env_def Let_def)
qed


definition env_files_created :: file_system where
  "env_files_created = [(''/r/_env'', []), (''/r/_output'', []), (''/r/_path'', [])]"


section \<open>Inputs of a workflow\<close>

text \<open>
  The inputs of a workflow are not in the context of its steps. They are in the context of the
  conditions \<open>if:\<close>, but at every step of a job the context of scripts, of \<open>env:\<close> and \<open>with:\<close> values has
  no inputs at all, so \<open>${{ inputs.x }}\<close> is empty there.
\<close>

lemma workflow_inputs_missing_in_steps:
  assumes "job_steps lib h pd jx fuel w jobID job info 0 steps
      ((initial_context w job secrets)\<lparr>ex_LiveEnv := env\<rparr>, files, fs) = Some (ex', files', fs')"
    and "map_of (ji_Inputs info) x = Some v" "\<not> is_index_part x"
  shows "Lookup lib (buildStepEvalCtx ex' step info) [''inputs'', x] = None \<and>
    Lookup lib (BuildEvalContext lib w jobID job (Some step) (ex_StepResults ex') (ex_LiveEnv ex') info secrets
      (ex_JobStatus ex') False) [''inputs'', x] = Some (VString v)"
proof -
  have "same_setting ((initial_context w job secrets)\<lparr>ex_LiveEnv := env\<rparr>) ex'"
    using job_steps_history[OF assms(1), of False] by (auto simp: live_status_def)
  then have "ex_Inputs ex' = []"
    by (simp add: same_setting_def)
  moreover have "map_of (map (\<lambda>(k, u). (k, VString u)) (ji_Inputs info)) x = Some (VString v)"
    using assms(2) by (simp add: map_of_map)
  ultimately show ?thesis
    using assms(3)
    by (simp add: Lookup_def buildStepEvalCtx_def BuildEvalContext_def Let_def stringsToInterface_def)
qed

lemma workflow_inputs_missing_in_steps_witness:
  "Lookup ascii_lib (buildStepEvalCtx (initial_context (sample_workflow []) (sample_job []) []) (run_step [] ''true'')
     (sample_info\<lparr>ji_Inputs := [(''x'', ''1'')]\<rparr>)) [''inputs'', ''x''] = None"
proof -
  let ?ex = "(initial_context (sample_workflow []) (sample_job []) [])\<lparr>ex_LiveEnv := []\<rparr>"
  have "job_steps ascii_lib sample_host sample_podman sample_runner 1 (sample_workflow []) ''build'' (sample_job [])
      (sample_info\<lparr>ji_Inputs := [(''x'', ''1'')]\<rparr>) 0 [] (?ex, fresh_env_files, []) = Some (?ex, fresh_env_files, [])"
    "map_of (ji_Inputs (sample_info\<lparr>ji_Inputs := [(''x'', ''1'')]\<rparr>)) ''x'' = Some ''1''" "\<not> is_index_part ''x''"
    by (simp_all add: is_index_part_def)
  from workflow_inputs_missing_in_steps[OF this] show ?thesis
    by (simp add: buildStepEvalCtx_def initial_context_def)
qed

section \<open>Actions that use themselves\<close>

text \<open>
  A local composite action whose first step uses the action itself never returns: no fuel is
  enough, so the recursion of \<open>RunStep\<close>, \<open>runUsesStep\<close> and \<open>execCompositeAction\<close> does not end.
\<close>

lemma recursive_action_never_returns:
  assumes "HasPrefix uses ''./''" "readActionYAML fs (path_join [jx_WorkspaceDir jx, drop 2 uses]) = Some data"
    and "ho_parse h data = Some def" "ar_Using (ad_Runs def) = ''composite''" "ar_Steps (ad_Runs def) = step # rest"
    and "st_Run step = []" "st_Uses step = uses" "\<forall>ec. Interpolate lib ec uses = uses" "\<not> isCheckoutAction lib uses"
  shows "RunStep lib h pd jx info fuel step ex fs = None"
proof (induction fuel arbitrary: ex)
  case (Suc n)
  have nonempty: "uses \<noteq> []" and remote: "\<not> HasPrefix uses ''docker://''"
    using assms(1) by (cases uses; auto)+
  have "ResolveAction h uses (jx_WorkspaceDir jx) (path_join [jx_cacheDir jx, ''actions'']) fs =
      (Inr \<lparr>rv_Type = ActionTypeLocal, rv_Def = Some def, rv_SourceDir = path_join [jx_WorkspaceDir jx, drop 2 uses],
            rv_Image = [], rv_Uses = uses\<rparr>, fs)"
    using assms(1-4) remote by (simp add: ResolveAction_def resolveLocalAction_def local_type_def Let_def del: path_join.simps)
  moreover have "composite_steps (RunStep lib h pd jx info n) (ar_Steps (ad_Runs def)) c fs = None" for c
    using Suc.IH assms(5) by simp
  ultimately show ?case
    using assms(6-9) nonempty
    by (simp add: runUsesStep_def ExecActionStep_def execCompositeAction_def Let_def del: path_join.simps)
qed simp

definition looping_step :: Step where
  "looping_step = empty_step\<lparr>st_Uses := ''./a''\<rparr>"

definition looping_action :: ActionDef where
  "looping_action =
     \<lparr>ad_Name = [], ad_Description = [], ad_Inputs = [], ad_Outputs = [],
      ad_Runs = \<lparr>ar_Using = ''composite'', ar_Steps = [looping_step], ar_Main = [], ar_Image = []\<rparr>\<rparr>"

lemma recursive_action_never_returns_witness:
  "\<forall>fuel. RunStep ascii_lib (sample_host\<lparr>ho_parse := \<lambda>_. Some looping_action\<rparr>) sample_podman sample_runner sample_info fuel
     looping_step (initial_context (sample_workflow []) (sample_job []) []) [(''/w/a/action.yml'', [])] = None"
proof
  fix fuel
  have "Interpolate ascii_lib ec ''./a'' = ''./a''" for ec
    by (simp add: Interpolate_def)
  moreover have "readActionYAML [(''/w/a/action.yml'', [])] (path_join [jx_WorkspaceDir sample_runner, drop 2 ''./a'']) = Some []"
    "\<not> isCheckoutAction ascii_lib ''./a''" "ar_Using (ad_Runs looping_action) = ''composite''"
    "ar_Steps (ad_Runs looping_action) = [looping_step]" "st_Run looping_step = []" "st_Uses looping_step = ''./a''"
    by code_simp+
  ultimately show "RunStep ascii_lib (sample_host\<lparr>ho_parse := \<lambda>_. Some looping_action\<rparr>) sample_podman sample_runner sample_info fuel
     looping_step (initial_context (sample_workflow []) (sample_job []) []) [(''/w/a/action.yml'', [])] = None"
    by (intro recursive_action_never_returns[where uses = "''./a''" and data = "[]" and def = looping_action and rest = "[]"])
       simp_all
qed

end
