(* ===== verification/Runner_Correct.thy ===== *)
theory Runner_Correct
  imports Runner Job_Run_Correct Job_Queue
begin

text \<open>
  Properties of the run of a workflow: which jobs run, in which order, what the callback is told, and the
  exit code; and the cleanup of the workspace.
\<close>

section \<open>The loop over the jobs\<close>

text \<open>What the callback is told of a job with its outcome.\<close>

definition job_calls :: "string \<times> JobStatus \<Rightarrow> (string \<times> JobStatus) list" where
  "job_calls js = (if snd js = JobStatusSkipped then [js] else [(fst js, JobStatusRunning), js])"

lemma job_calls_simps [simp]:
  "job_calls (j, JobStatusSkipped) = [(j, JobStatusSkipped)]"
  "s \<noteq> JobStatusSkipped \<Longrightarrow> job_calls (j, s) = [(j, JobStatusRunning), (j, s)]"
  by (simp_all add: job_calls_def)

text \<open>
  \<open>outcomes_ok\<close> is the specification of the loop: every job has an outcome; it is skipped exactly when
  a job that it needs has failed before it. \<open>pre\<close> are the outcomes so far, the last one first.
\<close>

fun outcomes_ok :: "Job gomap \<Rightarrow> (string \<times> JobStatus) list \<Rightarrow> (string \<times> JobStatus) list \<Rightarrow> bool" where
  "outcomes_ok jobs pre [] = True"
| "outcomes_ok jobs pre ((j, s) # outs) =
     (s \<in> {JobStatusSkipped, JobStatusSuccess, JobStatusFailure} \<and>
      (s = JobStatusSkipped \<longleftrightarrow> (\<exists>need \<in> set (job_needs jobs j). (need, JobStatusFailure) \<in> set pre)) \<and>
      outcomes_ok jobs ((j, s) # pre) outs)"

definition failed_jobs :: "(string \<times> JobStatus) list \<Rightarrow> string list" where
  "failed_jobs pre = map fst (filter (\<lambda>(j, s). s = JobStatusFailure) pre)"

definition exit_code :: "(string \<times> JobStatus) list \<Rightarrow> int" where
  "exit_code outs = (if list_ex (\<lambda>(j, s). s = JobStatusFailure) outs then 1 else 0)"

text \<open>The contract of \<open>RunJob\<close> that the loop relies on: without an error a job succeeds or fails.\<close>

locale job_contract =
  fixes runJob :: "string \<Rightarrow> Job \<Rightarrow> file_system \<Rightarrow> DB \<Rightarrow> containers \<Rightarrow> ((JobResult \<times> job_error option) \<times> file_system \<times> DB \<times> containers) option"
  assumes job_status: "runJob jobID job fs db cs = Some ((res, None), fs', db', cs') \<Longrightarrow>
      jr_Status res = JobStatusSuccess \<or> jr_Status res = JobStatusFailure"
begin

lemma run_jobs_outcomes:
  assumes "run_jobs cb clock runJob jobs ids st = Some (None, st')"
    and "set (lo_failedJobs st) = set (failed_jobs pre)" "lo_exitCode st = exit_code pre"
  shows "\<exists>outs. map fst outs = ids \<and> outcomes_ok jobs pre outs \<and> lo_calls st' = lo_calls st @ concat (map job_calls outs) \<and>
    lo_exitCode st' = exit_code (pre @ outs)"
  using assms
proof (induction ids arbitrary: st pre)
  case Nil
  then show ?case by (intro exI[of _ "[]"]) auto
next
  case (Cons j ids)
  then obtain job where job: "map_of jobs j = Some job"
    by (cases "map_of jobs j") auto
  then have needs: "job_needs jobs j = NeedsIDs job"
    by (simp add: job_needs_def)
  have fail: "list_ex (\<lambda>need. need \<in> set (lo_failedJobs st)) (NeedsIDs job) \<longleftrightarrow>
      (\<exists>need \<in> set (job_needs jobs j). (need, JobStatusFailure) \<in> set pre)"
    using Cons.prems(2) by (force simp: list_ex_iff needs failed_jobs_def)
  show ?case
  proof (cases "list_ex (\<lambda>need. need \<in> set (lo_failedJobs st)) (NeedsIDs job)")
    case True
    let ?st = "call_back cb j JobStatusSkipped None None st"
    have "run_jobs cb clock runJob jobs ids ?st = Some (None, st')" "set (lo_failedJobs ?st) = set (failed_jobs ((j, JobStatusSkipped) # pre))"
      "lo_exitCode ?st = exit_code ((j, JobStatusSkipped) # pre)"
      using Cons.prems job True by (simp_all add: call_back_def failed_jobs_def exit_code_def)
    from Cons.IH[OF this] obtain outs where "map fst outs = ids" "outcomes_ok jobs ((j, JobStatusSkipped) # pre) outs"
      "lo_calls st' = lo_calls ?st @ concat (map job_calls outs)" "lo_exitCode st' = exit_code (((j, JobStatusSkipped) # pre) @ outs)"
      by blast
    with True fail show ?thesis
      by (intro exI[of _ "(j, JobStatusSkipped) # outs"]) (auto simp: call_back_def exit_code_def)
  next
    case False
    obtain a b where clock: "clock j = (a, b)" by (cases "clock j")
    let ?st1 = "call_back cb j JobStatusRunning (Some a) None st"
    obtain res fs' db' cs' where run: "runJob j job (lo_fs ?st1) (lo_db ?st1) (lo_containers ?st1) = Some ((res, None), fs', db', cs')"
      using Cons.prems(1) job False clock by (auto simp: Let_def split: option.splits)
    let ?s = "jr_Status res"
    let ?st3 = "call_back cb j ?s (Some a) (Some b) (?st1\<lparr>lo_fs := fs', lo_db := db', lo_containers := cs'\<rparr>)"
    let ?st4 = "if ?s = JobStatusFailure then ?st3\<lparr>lo_exitCode := 1, lo_failedJobs := j # lo_failedJobs ?st3\<rparr> else ?st3"
    have s: "?s = JobStatusSuccess \<or> ?s = JobStatusFailure" by (rule job_status[OF run])
    have "run_jobs cb clock runJob jobs ids ?st4 = Some (None, st')"
      using Cons.prems(1) job False clock run by (simp add: Let_def)
    moreover have "set (lo_failedJobs ?st4) = set (failed_jobs ((j, ?s) # pre))" "lo_exitCode ?st4 = exit_code ((j, ?s) # pre)"
      using Cons.prems(2,3) s by (auto simp: call_back_def failed_jobs_def exit_code_def)
    ultimately obtain outs where "map fst outs = ids" "outcomes_ok jobs ((j, ?s) # pre) outs"
      "lo_calls st' = lo_calls ?st4 @ concat (map job_calls outs)" "lo_exitCode st' = exit_code (((j, ?s) # pre) @ outs)"
      using Cons.IH by blast
    with False fail s show ?thesis
      by (intro exI[of _ "(j, ?s) # outs"]) (auto simp: call_back_def exit_code_def)
  qed
qed

end

lemma RunJob_final:
  assumes "RunJob lib h pd re jx stored fuel jobID job w info secrets img fs db cs = Some ((res, None), fs', db', cs')"
  shows "jr_Status res = JobStatusSuccess \<or> jr_Status res = JobStatusFailure"
  using job_result[OF assms] by auto

interpretation podman_jobs: job_contract
  "\<lambda>jobID job fs db cs. RunJob lib h pd re jx stored fuel jobID job w info secrets img fs db cs"
  for lib h pd re jx stored fuel w info secrets img
  by unfold_locales (rule RunJob_final)


section \<open>The run of a workflow\<close>

lemma run_workflow_ok:
  assumes "run_workflow mc fuel r j ref wtDir st = Some (Inr code, st')"
    and "lo_failedJobs st = []" "lo_exitCode st = 0" "lo_calls st = []"
  obtains data workflow order outs where "map_of (lo_fs st) (if path_is_abs (wr_Path ref) then wr_Path ref else path_join [wtDir, wr_Path ref]) = Some data"
    "mc_parseWorkflow mc data = Some workflow"
    "BuildExecutionOrder (mc_rank mc) (wf_Jobs workflow) = Inr order" "map fst outs = concat order"
    "outcomes_ok (wf_Jobs workflow) [] outs" "lo_calls st' = concat (map job_calls outs)" "code = exit_code outs"
proof -
  from assms(1) obtain data workflow order secrets info jx where w:
    "map_of (lo_fs st) (if path_is_abs (wr_Path ref) then wr_Path ref else path_join [wtDir, wr_Path ref]) = Some data"
    "mc_parseWorkflow mc data = Some workflow" "BuildExecutionOrder (mc_rank mc) (wf_Jobs workflow) = Inr order"
    and run: "run_jobs (pr_JobCallback r) (mc_clock mc)
      (\<lambda>jobID job fs db cs. RunJob (mc_lib mc) (mc_host mc) (mc_podman mc) (mc_env mc) jx (pr_stored r)
         fuel jobID job workflow info secrets (wr_RunnerImage ref) fs db cs)
      (wf_Jobs workflow) (concat order) st = Some (None, st')" "code = lo_exitCode st'"
    unfolding run_workflow_def Let_def
    by (auto simp del: path_join.simps split: option.splits sum.splits if_splits)
  from podman_jobs.run_jobs_outcomes[OF run(1), of "[]"] obtain outs where "map fst outs = concat order"
    "outcomes_ok (wf_Jobs workflow) [] outs" "lo_calls st' = concat (map job_calls outs)" "lo_exitCode st' = exit_code outs"
    using assms(2-4) by (auto simp: failed_jobs_def exit_code_def)
  with w run(2) that show ?thesis by blast
qed

lemma Run_podman_ok:
  assumes "Run_podman mc alive fuel r j ref fs db = Some (Inr code, st')"
  obtains wtDir st st1 where "run_workflow mc fuel r j ref wtDir st = Some (Inr code, st1)"
    "lo_failedJobs st = []" "lo_exitCode st = 0" "lo_calls st = []" "lo_calls st' = lo_calls st1"
    "gt_mkdirTemp (mc_git mc) (pr_workspaceDir r) = Some wtDir" "\<not> path_exists (lo_fs st') wtDir"
proof -
  have gone: "\<not> path_exists (remove_all_under dir f) dir" for dir f
    by (auto simp: path_exists_def remove_all_under_def list_ex_iff)
  show ?thesis
    using assms
    by (auto simp: Run_podman_def Let_def worktree_cleanup_def addWorktree_def gone
        split: if_splits option.splits prod.splits bool.splits intro!: that)
qed

lemma schedule_before:
  assumes "schedule jobs ls" "concat ls = p @ j # q"
  shows "set (job_needs jobs j) \<subseteq> set p"
proof -
  have dist: "distinct (concat ls)"
    using assms(1) by (simp add: schedule_def)
  have "j \<in> set (concat ls)" using assms(2) by simp
  then obtain i where i: "i < length ls" "j \<in> set (ls ! i)"
    unfolding in_concat_nth by blast
  then obtain u v where uv: "ls ! i = u @ j # v" by (auto dest: split_list)
  have "concat ls = concat (take i ls) @ ls ! i @ concat (drop (Suc i) ls)"
    using id_take_nth_drop[OF i(1)] by (metis concat.simps(2) concat_append)
  then have "p @ j # q = (concat (take i ls) @ u) @ j # (v @ concat (drop (Suc i) ls))"
    using assms(2) uv by simp
  moreover have "j \<notin> set p" "j \<notin> set q" using dist assms(2) by auto
  ultimately have "p = concat (take i ls) @ u"
    using dist unfolding assms(2) by (subst (asm) append_Cons_eq_iff) auto
  moreover have "set (job_needs jobs j) \<subseteq> set (concat (take i ls))"
    using assms(1) i unfolding schedule_def by blast
  ultimately show ?thesis by auto
qed

definition workflow_path :: "WorkflowRef \<Rightarrow> string \<Rightarrow> string" where
  "workflow_path ref wtDir = (if path_is_abs (wr_Path ref) then wr_Path ref else path_join [wtDir, wr_Path ref])"

definition loop_start :: "containers \<Rightarrow> file_system \<Rightarrow> DB \<Rightarrow> loop_state" where
  "loop_start cs fs db = \<lparr>lo_exitCode = 0, lo_failedJobs = [], lo_fs = fs, lo_db = db, lo_containers = cs, lo_calls = []\<rparr>"

text \<open>
  C5. The jobs of a run. When the run of a workflow returns an exit code, every job of the workflow has exactly
  one outcome, behind the outcomes of all jobs that it needs; it was skipped exactly when a job that it
  needs failed, so a job whose needs were only skipped has run; the callback was told the start and
  the end of each job that ran, in this order; and the exit code is 1 exactly when a job failed.
\<close>

theorem run_workflow_outcomes:
  assumes "run_workflow mc fuel r j ref wtDir (loop_start cs fs db) = Some (Inr code, st)"
    and "map_of fs (workflow_path ref wtDir) = Some data" "mc_parseWorkflow mc data = Some workflow" "gmap_ok (wf_Jobs workflow)"
  shows "\<exists>outs. distinct (map fst outs) \<and> set (map fst outs) = job_ids (wf_Jobs workflow) \<and>
    (\<forall>p i s q. outs = p @ (i, s) # q \<longrightarrow> set (job_needs (wf_Jobs workflow) i) \<subseteq> fst ` set p) \<and>
    outcomes_ok (wf_Jobs workflow) [] outs \<and> lo_calls st = concat (map job_calls outs) \<and> code = exit_code outs"
proof -
  have start: "lo_failedJobs (loop_start cs fs db) = []" "lo_exitCode (loop_start cs fs db) = 0" "lo_calls (loop_start cs fs db) = []"
    and fs: "lo_fs (loop_start cs fs db) = fs"
    by (simp_all add: loop_start_def)
  obtain data' workflow' order outs where "map_of fs (workflow_path ref wtDir) = Some data'"
    "mc_parseWorkflow mc data' = Some workflow'"
    "BuildExecutionOrder (mc_rank mc) (wf_Jobs workflow') = Inr order" "map fst outs = concat order"
    "outcomes_ok (wf_Jobs workflow') [] outs" "lo_calls st = concat (map job_calls outs)" "code = exit_code outs"
    using run_workflow_ok[OF assms(1) start, unfolded fs, folded workflow_path_def] .
  then have w: "BuildExecutionOrder (mc_rank mc) (wf_Jobs workflow) = Inr order" "map fst outs = concat order"
    "outcomes_ok (wf_Jobs workflow) [] outs" "lo_calls st = concat (map job_calls outs)" "code = exit_code outs"
    using assms(2,3) by simp_all
  have S: "schedule (wf_Jobs workflow) order" "set (concat order) = job_ids (wf_Jobs workflow)"
    using order_cases[OF assms(4), of "mc_rank mc"] w(1) by auto
  have "set (job_needs (wf_Jobs workflow) i) \<subseteq> fst ` set p" if "outs = p @ (i, s) # q" for p i s q
    using schedule_before[OF S(1), of "map fst p" i "map fst q"] w(2) that by simp
  moreover have "distinct (map fst outs)"
    using S(1) w(2) by (simp add: schedule_def)
  ultimately show ?thesis
    using S(2) w by metis
qed

text \<open>Three jobs: the first fails, the second needs it, and the third needs the second.\<close>

definition chain :: Workflow where
  "chain = sample_workflow
     [(''a'', sample_job [run_step [] ''exit 1'']), (''b'', (sample_job [run_step [] ''true''])\<lparr>jb_Needs := YString ''a''\<rparr>),
      (''c'', (sample_job [run_step [] ''true''])\<lparr>jb_Needs := YString ''b''\<rparr>)]"

definition sample_git :: git where
  "sample_git =
     \<lparr>gt_fetch = \<lambda>_ fs. (True, fs), gt_cloneBare = \<lambda>_ _ fs. (True, fs), gt_revParse = \<lambda>_ _ _. Some ''def'',
      gt_worktreeAdd = \<lambda>_ dir _ fs. (True, mput (dir @ ''/wf.yml'') ''x'' fs), gt_worktreeRemove = \<lambda>_ _ fs. fs,
      gt_mkdirTemp = \<lambda>_. Some ''/w''\<rparr>"

definition sample_machine :: machine where
  "sample_machine =
     \<lparr>mc_lib = ascii_lib\<lparr>json_Marshal := \<lambda>_. Some ''{}''\<rparr>, mc_host = sample_host, mc_podman = sample_podman, mc_env = sample_env,
      mc_git = sample_git, mc_newConnection = \<lambda>_. True, mc_runtimeDir = [], mc_uid = 1000, mc_containers = [],
      mc_parseWorkflow = \<lambda>_. Some chain, mc_rank = \<lambda>_ _. 0, mc_clock = \<lambda>_. (1, 2),
      mc_newRunID = ''n'', mc_home = Some ''/h'', mc_json = quote_json, mc_evalEnv = \<lambda>_. None\<rparr>"

definition sample_podman_runner :: podman_runner where
  "sample_podman_runner =
     \<lparr>pr_cacheDir = ''/c'', pr_workspaceDir = ''/ws'', pr_defaultImage = [], pr_JobCallback = None, pr_CurrentRunID = ''r1'',
      pr_stored = True\<rparr>"

definition sample_ref :: WorkflowRef where
  "sample_ref = \<lparr>wr_Path = ''wf.yml'', wr_Name = ''w'', wr_Secrets = [], wr_Env = [], wr_RunnerImage = [], wr_TimeoutMinutes = 0\<rparr>"

theorem run_workflow_outcomes_witness:
  "\<exists>outs st. run_workflow sample_machine 1 sample_podman_runner (sample_poll_job ''w'' ''abc'') sample_ref ''/w''
       (loop_start [] [(''/w/wf.yml'', ''x'')] (empty_db False)) = Some (Inr 1, st) \<and>
     set (map fst outs) = {''a'', ''b'', ''c''} \<and> outcomes_ok (wf_Jobs chain) [] outs \<and>
     lo_calls st = concat (map job_calls outs) \<and> (''b'', JobStatusSkipped) \<in> set (lo_calls st) \<and> (''c'', JobStatusSuccess) \<in> set (lo_calls st)"
proof -
  let ?run = "run_workflow sample_machine 1 sample_podman_runner (sample_poll_job ''w'' ''abc'') sample_ref ''/w''
       (loop_start [] [(''/w/wf.yml'', ''x'')] (empty_db False))"
  let ?st = "\<lparr>lo_exitCode = 1, lo_failedJobs = [''a''], lo_fs = [(''/w/wf.yml'', ''x'')], lo_db = empty_db False, lo_containers = [],
      lo_calls = [(''a'', JobStatusRunning), (''a'', JobStatusFailure), (''b'', JobStatusSkipped), (''c'', JobStatusRunning),
                  (''c'', JobStatusSuccess)]\<rparr>"
  have run: "?run = Some (Inr 1, ?st)"
    by code_simp
  have wfile: "map_of [(''/w/wf.yml'', ''x'')] (workflow_path sample_ref ''/w'') = Some ''x''"
    "mc_parseWorkflow sample_machine ''x'' = Some chain" "gmap_ok (wf_Jobs chain)"
    and ids: "job_ids (wf_Jobs chain) = {''a'', ''b'', ''c''}"
    by code_simp+
  obtain outs where outs: "set (map fst outs) = job_ids (wf_Jobs chain)" "outcomes_ok (wf_Jobs chain) [] outs"
    "lo_calls ?st = concat (map job_calls outs)"
    using run_workflow_outcomes[OF run wfile] by blast
  have "(''b'', JobStatusSkipped) \<in> set (lo_calls ?st)" "(''c'', JobStatusSuccess) \<in> set (lo_calls ?st)"
    by simp_all
  with run outs show ?thesis
    unfolding ids by blast
qed

section \<open>What a run leaves behind\<close>

lemma run_jobs_containers:
  assumes "run_jobs cb clock runJob jobs ids st = Some (err, st')"
    and "\<And>nm job fs db r fs' db' cs'. runJob nm job fs db (lo_containers st) = Some (r, fs', db', cs') \<Longrightarrow> cs' = lo_containers st"
  shows "lo_containers st' = lo_containers st"
  using assms
proof (induction ids arbitrary: st)
  case (Cons i ids)
  have cb: "lo_containers (call_back cb nm s a b st) = lo_containers st" for nm s a b st
    by (simp add: call_back_def)
  from Cons.prems(1) show ?case
    by (auto simp: Let_def cb split: option.splits if_splits prod.splits dest!: Cons.IH Cons.prems(2) intro: Cons.prems(2))
qed simp

lemma run_workflow_containers:
  assumes "run_workflow mc fuel r j ref wtDir st = Some (res, st')" "removable (mc_podman mc) (lo_containers st)"
  shows "lo_containers st' = lo_containers st"
  using assms
  by (auto simp: run_workflow_def Let_def split: option.splits sum.splits elim!: run_jobs_containers
      dest: conjunct1 [OF conjunct2 [OF RunJob_cleanup]])

text \<open>The fetch and the clone of a repository do not reach into a directory.\<close>

definition git_apart :: "git \<Rightarrow> string \<Rightarrow> bool" where
  "git_apart g dir =
     (\<forall>bareDir url fs. path_exists (snd (gt_fetch g bareDir fs)) dir = path_exists fs dir \<and>
        path_exists (snd (gt_cloneBare g url bareDir fs)) dir = path_exists fs dir)"

lemma ensureBareClone_apart:
  "ensureBareClone g h cacheDir owner repo fs = (b, fs') \<Longrightarrow> git_apart g dir \<Longrightarrow> path_exists fs' dir = path_exists fs dir"
  by (auto simp: ensureBareClone_def git_apart_def Let_def split: if_splits prod.splits) (metis snd_conv)+



end
