(* ===== verification/Daemon_Correct.thy ===== *)
theory Daemon_Correct
  imports Daemon Runner_Correct Queue_Monitor
begin

text \<open>
  Properties of the daemon: the record of a run and its reports, cancelled and timed-out runs, the recovery
  of stale runs, secrets, manual triggers, and the bound on concurrent runs.
\<close>

section \<open>What a run leaves alone\<close>

text \<open>A run writes its jobs and artifacts; in the table of runs it changes at most its own commit.\<close>

lemma UpsertArtifact_runs [simp]: "db_runs (snd (UpsertArtifact alive newID a db)) = db_runs db"
  by (simp add: UpsertArtifact_def exec_def Let_def split: option.split)

lemma UpsertRunJob_runs [simp]: "db_runs (snd (UpsertRunJob alive j db)) = db_runs db"
  by (simp add: UpsertRunJob_def exec_def Let_def split: option.split)

lemma record_job_runs [simp]: "db_runs (record_job rid nm s a b db) = db_runs db"
  by (simp add: record_job_def)

lemma collect_artifacts_runs [simp]: "db_runs (collect_artifacts re job dir info fs db) = db_runs db"
proof -
  have "db_runs (foldl (collect_artifact re dir info fs) d names) = db_runs d" for d names
    by (induction names arbitrary: d) (simp_all add: collect_artifact_def split: option.split)
  then show ?thesis by (simp add: collect_artifacts_def)
qed

lemma RunJob_runs:
  assumes "RunJob lib h pd re jx stored fuel jobID job w info secrets img fs db cs = Some ((res, err), fs', db', cs')"
  shows "db_runs db' = db_runs db"
proof (cases "\<exists>dir fs1. run_in_container lib h pd re jx stored fuel jobID job w info (job_image img job) dir
        (initial_context w job secrets) fs db cs = Some ((res, err), fs1, db', cs')")
  case True
  then show ?thesis
    by (cases err) (auto elim!: run_in_container_ok dest!: run_in_container_error)
next
  case False
  with assms show ?thesis
    by (auto simp: RunJob_def Let_def split: option.splits sum.splits bool.splits if_splits)
qed

definition keeps_runs :: "callback option \<Rightarrow> bool" where
  "keeps_runs cb = (\<forall>f. cb = Some f \<longrightarrow> (\<forall>nm s a b db. db_runs (f nm s a b db) = db_runs db))"

lemma call_back_runs: "keeps_runs cb \<Longrightarrow> db_runs (lo_db (call_back cb nm s a b st)) = db_runs (lo_db st)"
  by (auto simp: call_back_def keeps_runs_def split: option.split)

lemma run_jobs_runs:
  assumes "run_jobs cb clock runJob jobs ids st = Some (err, st')" "keeps_runs cb"
    and "\<And>nm job fs db cs res fs' db' cs'. runJob nm job fs db cs = Some (res, fs', db', cs') \<Longrightarrow> db_runs db' = db_runs db"
  shows "db_runs (lo_db st') = db_runs (lo_db st)"
  using assms(1)
proof (induction ids arbitrary: st)
  case (Cons i ids)
  then obtain job where "map_of jobs i = Some job \<or> map_of jobs i = None" by auto
  with Cons show ?case
    by (auto simp: Let_def call_back_runs[OF assms(2)] split: option.splits if_splits prod.splits dest!: Cons.IH assms(3))
qed simp

lemma run_workflow_runs:
  assumes "run_workflow mc fuel r j ref wtDir st = Some (res, st')" "keeps_runs (pr_JobCallback r)"
  shows "db_runs (lo_db st') = db_runs (lo_db st)"
  using assms
  by (auto simp: run_workflow_def Let_def split: option.splits sum.splits elim!: run_jobs_runs intro: RunJob_runs)

definition sets_sha :: "string \<Rightarrow> run_row list \<Rightarrow> run_row list \<Rightarrow> bool" where
  "sets_sha rid rows rows' =
     (rows' = rows \<or> (\<exists>sha. rows' = update_where (\<lambda>r. rr_id r = rid) (\<lambda>r. r\<lparr>rr_sha := sha\<rparr>) rows))"

lemma Run_podman_runs:
  assumes "Run_podman mc alive fuel r j ref fs db = Some (res, st)" "keeps_runs (pr_JobCallback r)"
  shows "sets_sha (pr_CurrentRunID r) (db_runs db) (db_runs (lo_db st)) \<and> (jo_SHA j \<noteq> ''manual'' \<longrightarrow> db_runs (lo_db st) = db_runs db)"
proof -
  note [dest!] = run_workflow_runs[OF _ assms(2)]
  show ?thesis
    using assms(1)
    by (auto simp: Run_podman_def Let_def sets_sha_def UpdateRunSHA_def exec_def
        split: if_splits option.splits prod.splits)
qed

section \<open>The record of a run\<close>

definition find_run :: "string \<Rightarrow> run_row list \<Rightarrow> run_row option" where
  "find_run rid rows = find (\<lambda>r. rr_id r = rid) rows"

lemma GetRun_find: "GetRun True rid db = (case find_run rid (db_runs db) of None \<Rightarrow> Inl NoRows | Some r \<Rightarrow> scanRun r)"
  by (simp add: GetRun_def query_row_def find_run_def split: option.split)

lemma find_run_update:
  assumes "\<And>r. rr_id (f r) = rr_id r"
  shows "find_run k (update_where (\<lambda>r. rr_id r = rid) f rows) =
    (if k = rid then map_option f (find_run k rows) else find_run k rows)"
proof -
  have "find_run k (update_where (\<lambda>r. rr_id r = rid) f rows) =
      map_option (\<lambda>r. if rr_id r = rid then f r else r) (find_run k rows)"
    unfolding find_run_def by (rule find_update) (simp add: assms)
  then show ?thesis
    by (cases "find_run k rows") (auto simp: find_run_def dest: find_holds)
qed

lemma find_run_sha:
  assumes "sets_sha rid rows rows'"
  obtains sha where "find_run rid rows' = map_option (\<lambda>r. r\<lparr>rr_sha := sha\<rparr>) (find_run rid rows)"
    "\<And>k. k \<noteq> rid \<Longrightarrow> find_run k rows' = find_run k rows"
proof (cases "rows' = rows")
  case True
  show ?thesis
    by (rule that[of "case find_run rid rows of Some r \<Rightarrow> rr_sha r | None \<Rightarrow> []"]) (auto simp: True split: option.split)
next
  case False
  with assms that show ?thesis
    by (auto simp: sets_sha_def find_run_update)
qed

lemma begin_run_rows:
  assumes "alive 0" "alive 1" "\<not> has_key rr_id (run_id de j) (db_runs db)"
  shows "find_run (run_id de j) (db_runs (begin_run de alive j ref db)) =
      Some (run_to_row ((run_record de j ref)\<lparr>ru_Status := RunStatusRunning\<rparr>))"
    and "k \<noteq> run_id de j \<Longrightarrow> find_run k (db_runs (begin_run de alive j ref db)) = find_run k (db_runs db)"
proof -
  let ?row = "run_to_row (run_record de j ref)"
  have rows: "db_runs (begin_run de alive j ref db) =
      update_where (\<lambda>r. rr_id r = run_id de j) (\<lambda>r. r\<lparr>rr_status := RunStatusRunning, rr_exit_code := None, rr_finished_at := None\<rparr>)
        (db_runs db @ [?row])"
    using assms by (simp add: begin_run_def CreateRun_def UpdateRunStatus_def exec_def nullTime_def run_record_def)
  have id: "rr_id ?row = run_id de j"
    by (simp add: run_to_row_def run_record_def)
  have "find_run (run_id de j) (db_runs db @ [?row]) = Some ?row"
    using assms(3) by (simp add: find_run_def find_append find_no_key id)
  then show "find_run (run_id de j) (db_runs (begin_run de alive j ref db)) =
      Some (run_to_row ((run_record de j ref)\<lparr>ru_Status := RunStatusRunning\<rparr>))"
    unfolding rows by (simp add: find_run_update) (simp add: run_to_row_def run_record_def nullTime_def)
  show "find_run k (db_runs (begin_run de alive j ref db)) = find_run k (db_runs db)" if "k \<noteq> run_id de j"
    unfolding rows using that by (simp add: find_run_update) (simp add: find_run_def find_append id split: option.split)
qed

lemma wire_runner_simps [simp]:
  "pr_CurrentRunID (wire_runner rid pr) = rid" "keeps_runs (pr_JobCallback (wire_runner rid pr))"
  by (simp_all add: wire_runner_def keeps_runs_def)

text \<open>The run is in the store as running when the runner returns, with its commit filled in for a manual run.\<close>

lemma running_row:
  assumes "Run_podman mc a fuel (wire_runner (run_id de j) pr) j ref' fs (begin_run de alive j ref db) = Some (res, st)"
    and "alive 0" "alive 1" "\<not> has_key rr_id (run_id de j) (db_runs db)"
  obtains sha where "find_run (run_id de j) (db_runs (lo_db st)) =
      Some (run_to_row ((run_record de j ref)\<lparr>ru_Status := RunStatusRunning, ru_SHA := sha\<rparr>))"
    "jo_SHA j \<noteq> ''manual'' \<Longrightarrow> sha = jo_SHA j"
    "\<And>k. k \<noteq> run_id de j \<Longrightarrow> find_run k (db_runs (lo_db st)) = find_run k (db_runs db)"
proof -
  note keeps = Run_podman_runs[OF assms(1)]
  note before = begin_run_rows[of alive, OF assms(2-4)]
  show ?thesis
  proof (cases "jo_SHA j = ''manual''")
    case True
    obtain sha where "find_run (run_id de j) (db_runs (lo_db st)) =
        map_option (\<lambda>r. r\<lparr>rr_sha := sha\<rparr>) (find_run (run_id de j) (db_runs (begin_run de alive j ref db)))"
      "\<And>k. k \<noteq> run_id de j \<Longrightarrow> find_run k (db_runs (lo_db st)) = find_run k (db_runs (begin_run de alive j ref db))"
      using find_run_sha[of "run_id de j"] keeps by auto
    with before True show ?thesis
      by (intro that[of sha]) (simp_all add: run_to_row_def)
  next
    case False
    with keeps before show ?thesis
      by (intro that[of "jo_SHA j"]) (simp_all add: run_to_row_def run_record_def)
  qed
qed

lemma daemon_runJob_steps:
  assumes "daemon_runJob de alive fuel pr j ref fs db = Some (reports, res, fs', db')"
  obtains ref' st where
    "Run_podman (de_machine de) (alive 2) fuel (wire_runner (run_id de j) pr) j ref' fs (begin_run de alive j ref db) = Some (res, st)"
    "db' = finish_run de (alive 3) j res (lo_db st)"
    "reports = [run_report de j ref StatusPending ''queued'', run_report de j ref StatusPending ''running'',
       run_report de j ref (fst (snd (final_status_of de res))) (snd (snd (final_status_of de res)))]"
  using assms by (auto simp: daemon_runJob_def Let_def case_prod_unfold split: option.splits)

text \<open>
  C7. The life of a run is recorded. When its context lasts, \<open>runJob\<close> leaves the run in the store with the status
  that its result has (an error, success for exit code 0, else failure), the exit code and the
  end; it hands three reports to the reporter, two pending ones and the final one, all for the commit and workflow; and it changes no other run.
\<close>

theorem runJob_recorded:
  assumes "daemon_runJob de (\<lambda>_. True) fuel pr j ref fs db = Some (reports, res, fs', db')"
    and "\<not> has_key rr_id (run_id de j) (db_runs db)" "time_ok (de_started de)" "time_ok (de_finished de)"
  shows "(\<exists>sha. (jo_SHA j \<noteq> ''manual'' \<longrightarrow> sha = jo_SHA j) \<and>
      GetRun True (run_id de j) db' = Inr ((run_record de j ref)
        \<lparr>ru_SHA := sha, ru_Status := (case res of Inl _ \<Rightarrow> RunStatusError | Inr code \<Rightarrow> if code = 0 then RunStatusSuccess else RunStatusFailure),
         ru_FinishedAt := Some (de_finished de), ru_ExitCode := Some (exit_of res)\<rparr>)) \<and>
    map rq_Status reports = [StatusPending, StatusPending,
      case res of Inl _ \<Rightarrow> StatusError | Inr code \<Rightarrow> if code = 0 then StatusSuccess else StatusFailure] \<and>
    list_all (\<lambda>q. rq_SHA q = jo_SHA j \<and> rq_WorkflowName q = wr_Name ref) reports \<and>
    (\<forall>k. k \<noteq> run_id de j \<longrightarrow> GetRun True k db' = GetRun True k db)"
proof -
  obtain ref' st where run: "Run_podman (de_machine de) True fuel (wire_runner (run_id de j) pr) j ref' fs
      (begin_run de (\<lambda>_. True) j ref db) = Some (res, st)"
    and db': "db' = finish_run de True j res (lo_db st)"
    and reports: "reports = [run_report de j ref StatusPending ''queued'', run_report de j ref StatusPending ''running'',
       run_report de j ref (fst (snd (final_status_of de res))) (snd (snd (final_status_of de res)))]"
    using daemon_runJob_steps[OF assms(1)] by metis
  obtain sha where sha: "find_run (run_id de j) (db_runs (lo_db st)) =
      Some (run_to_row ((run_record de j ref)\<lparr>ru_Status := RunStatusRunning, ru_SHA := sha\<rparr>))"
    "jo_SHA j \<noteq> ''manual'' \<Longrightarrow> sha = jo_SHA j" "\<And>k. k \<noteq> run_id de j \<Longrightarrow> find_run k (db_runs (lo_db st)) = find_run k (db_runs db)"
    using running_row[OF run _ _ assms(2)] by metis
  let ?run = "(run_record de j ref)\<lparr>ru_SHA := sha, ru_Status := fst (final_status_of de res),
      ru_FinishedAt := Some (de_finished de), ru_ExitCode := Some (exit_of res)\<rparr>"
  have rows: "db_runs db' = update_where (\<lambda>r. rr_id r = run_id de j)
      (\<lambda>r. r\<lparr>rr_status := fst (final_status_of de res), rr_exit_code := Some (exit_of res),
             rr_finished_at := nullTime (Some (de_finished de))\<rparr>) (db_runs (lo_db st))"
    by (simp add: db' finish_run_def UpdateRunStatus_def exec_def)
  have "find_run (run_id de j) (db_runs db') = Some (run_to_row ?run)"
    unfolding rows by (simp add: find_run_update sha(1)) (simp add: run_to_row_def)
  moreover have "run_times_ok ?run"
    using assms(3,4) by (simp add: run_times_ok_def run_record_def)
  ultimately have get: "GetRun True (run_id de j) db' = Inr ?run"
    using scanRun_row by (simp add: GetRun_find)
  have others: "GetRun True k db' = GetRun True k db" if "k \<noteq> run_id de j" for k
    using that sha(3) by (simp add: GetRun_find rows find_run_update)
  have "fst (final_status_of de res) = (case res of Inl _ \<Rightarrow> RunStatusError | Inr code \<Rightarrow> if code = 0 then RunStatusSuccess else RunStatusFailure)"
    "fst (snd (final_status_of de res)) = (case res of Inl _ \<Rightarrow> StatusError | Inr code \<Rightarrow> if code = 0 then StatusSuccess else StatusFailure)"
    by (simp_all add: final_status_of_def split: sum.split)
  then show ?thesis
    using get others sha(2) by (auto simp: reports run_report_def case_prod_unfold Let_def)
qed

text \<open>
  A run whose context ends before the runner returns, by its timeout or the end of the daemon, stays in the
  store as running, without an exit code and an end: the last update uses the context that is done.
\<close>

lemma timed_out_run_stays_running:
  assumes "daemon_runJob de alive fuel pr j ref fs db = Some (reports, res, fs', db')" "alive 0" "alive 1" "\<not> alive 3"
    and "\<not> has_key rr_id (run_id de j) (db_runs db)" "time_ok (de_started de)"
  shows "\<exists>sha. GetRun True (run_id de j) db' = Inr ((run_record de j ref)\<lparr>ru_Status := RunStatusRunning, ru_SHA := sha\<rparr>)"
proof -
  obtain ref' st where run: "Run_podman (de_machine de) (alive 2) fuel (wire_runner (run_id de j) pr) j ref' fs
      (begin_run de alive j ref db) = Some (res, st)" and db': "db' = finish_run de (alive 3) j res (lo_db st)"
    using daemon_runJob_steps[OF assms(1)] by metis
  obtain sha where sha: "find_run (run_id de j) (db_runs (lo_db st)) =
      Some (run_to_row ((run_record de j ref)\<lparr>ru_Status := RunStatusRunning, ru_SHA := sha\<rparr>))"
    using running_row[OF run assms(2,3,5)] by metis
  have "run_times_ok ((run_record de j ref)\<lparr>ru_Status := RunStatusRunning, ru_SHA := sha\<rparr>)"
    using assms(6) by (simp add: run_times_ok_def run_record_def)
  moreover have "db_runs db' = db_runs (lo_db st)"
    using assms(4) by (simp add: db' finish_run_def UpdateRunStatus_def exec_def)
  ultimately show ?thesis
    using sha scanRun_row by (auto simp: GetRun_find)
qed

text \<open>A daemon whose machine has no Podman socket, for the examples.\<close>

definition sample_daemon :: daemon_env where
  "sample_daemon =
     \<lparr>de_machine = sample_machine\<lparr>mc_newConnection := \<lambda>_. False\<rparr>, de_bind = ''b'', de_logDir = ''/l'', de_started = sample_time,
      de_finished = sample_time, de_newID = ''n1'', de_errorText = \<lambda>_. ''no socket''\<rparr>"

definition sample_daemon_job :: poll_job where
  "sample_daemon_job = sample_poll_job ''w'' ''abc''"

lemma sample_daemon_run:
  obtains reports fs' db' where "daemon_runJob sample_daemon alive 1 sample_podman_runner sample_daemon_job sample_ref [] (empty_db False) =
    Some (reports, Inl ConnectError, fs', db')"
proof -
  have "\<not> Connect (mc_newConnection (de_machine sample_daemon)) (mc_runtimeDir (de_machine sample_daemon)) (mc_uid (de_machine sample_daemon))"
    by (simp add: sample_daemon_def Connect_def)
  then show ?thesis
    using that by (simp add: daemon_runJob_def Run_podman_def Let_def final_status_of_def)
qed

lemma sample_daemon_facts:
  "run_id sample_daemon sample_daemon_job = ''n1''" "\<not> has_key rr_id (run_id sample_daemon sample_daemon_job) (db_runs (empty_db False))"
  "time_ok (de_started sample_daemon)" "time_ok (de_finished sample_daemon)"
  by code_simp+

theorem runJob_recorded_witness:
  "\<exists>reports fs' db' run. daemon_runJob sample_daemon (\<lambda>_. True) 1 sample_podman_runner sample_daemon_job sample_ref [] (empty_db False) =
       Some (reports, Inl ConnectError, fs', db') \<and> GetRun True ''n1'' db' = Inr run \<and> ru_Status run = RunStatusError \<and>
     map rq_Status reports = [StatusPending, StatusPending, StatusError]"
proof -
  obtain reports fs' db' where run: "daemon_runJob sample_daemon (\<lambda>_. True) 1 sample_podman_runner sample_daemon_job sample_ref []
      (empty_db False) = Some (reports, Inl ConnectError, fs', db')"
    using sample_daemon_run[of "\<lambda>_. True"] by blast
  show ?thesis
    using runJob_recorded[OF run sample_daemon_facts(2-4)] run sample_daemon_facts(1) by auto
qed

lemma timed_out_run_stays_running_witness:
  "\<exists>reports fs' db' run. daemon_runJob sample_daemon (\<lambda>k. k < 3) 1 sample_podman_runner sample_daemon_job sample_ref [] (empty_db False) =
       Some (reports, Inl ConnectError, fs', db') \<and> GetRun True ''n1'' db' = Inr run \<and> ru_Status run = RunStatusRunning"
proof -
  obtain reports fs' db' where run: "daemon_runJob sample_daemon (\<lambda>k. k < 3) 1 sample_podman_runner sample_daemon_job sample_ref []
      (empty_db False) = Some (reports, Inl ConnectError, fs', db')"
    using sample_daemon_run[of "\<lambda>k. k < 3"] by blast
  show ?thesis
    using timed_out_run_stays_running[OF run _ _ _ sample_daemon_facts(2,3)] run sample_daemon_facts(1) by auto
qed

section \<open>Cancellation\<close>

lemma scanRun_finished:
  "scanRun row = Inr r \<Longrightarrow> time_ok t \<Longrightarrow>
   scanRun (row\<lparr>rr_status := s, rr_exit_code := ec, rr_finished_at := nullTime (Some t)\<rparr>) =
     Inr (r\<lparr>ru_Status := s, ru_ExitCode := ec, ru_FinishedAt := Some t\<rparr>)"
  using parse_nullTime[of "Some t"] by (auto simp: scanRun_def split: option.splits sum.splits)

text \<open>
  A cancelled run stays cancelled. \<open>CancelRun\<close> ends the context of a run that is under way and marks it; when
  the runner returns later, with whatever result, the last update of \<open>runJob\<close> does not overwrite the mark.
\<close>

lemma CancelRun_sticks:
  assumes "run_id de j \<in> set inFlight" "GetRun True (run_id de j) db = Inr run" "time_ok now"
    and "CancelRun True now (run_id de j) inFlight db = (r, db1)" "db_runs db2 = db_runs db1"
  shows "r = Inr () \<and> GetRun True (run_id de j) (finish_run de False j res db2) =
    Inr (run\<lparr>ru_Status := RunStatusCanceled, ru_ExitCode := None, ru_FinishedAt := Some now\<rparr>)"
proof -
  obtain row where row: "find_run (run_id de j) (db_runs db) = Some row" "scanRun row = Inr run"
    using assms(2) by (auto simp: GetRun_find split: option.splits)
  have "db_runs (finish_run de False j res db2) = update_where (\<lambda>r. rr_id r = run_id de j)
      (\<lambda>r. r\<lparr>rr_status := RunStatusCanceled, rr_exit_code := None, rr_finished_at := nullTime (Some now)\<rparr>) (db_runs db)" "r = Inr ()"
    using assms(1,4,5) by (auto simp: finish_run_def CancelRun_def UpdateRunStatus_def exec_def)
  then show ?thesis
    using row scanRun_finished[OF row(2) assms(3)] by (simp add: GetRun_find find_run_update)
qed

lemma CancelRun_sticks_witness:
  "\<exists>db. GetRun True ''n1'' db = Inr (run_record sample_daemon sample_daemon_job sample_ref) \<and>
     GetRun True ''n1'' (finish_run sample_daemon False sample_daemon_job (Inr 0) (snd (CancelRun True sample_time ''n1'' [''n1''] db))) =
       Inr ((run_record sample_daemon sample_daemon_job sample_ref)
         \<lparr>ru_Status := RunStatusCanceled, ru_ExitCode := None, ru_FinishedAt := Some sample_time\<rparr>)"
proof -
  let ?run = "run_record sample_daemon sample_daemon_job sample_ref"
  obtain db where db: "CreateRun True ?run (empty_db False) = (None, db)"
    by (simp add: CreateRun_def exec_def empty_db_def has_key_def)
  have "run_times_ok ?run"
    using sample_daemon_facts(3) by (simp add: run_times_ok_def run_record_def)
  then have get: "GetRun True ''n1'' db = Inr ?run"
    using GetRun_created[OF db] sample_daemon_facts(1) by (simp add: run_record_def)
  have "time_ok sample_time" by code_simp
  then show ?thesis
    using CancelRun_sticks[of sample_daemon sample_daemon_job "[''n1'']" db ?run sample_time _ _ _ "Inr 0"] get
      sample_daemon_facts(1)
    by (metis list.set_intros(1) prod.collapse)
qed

section \<open>Recovery\<close>

definition stale :: "string \<Rightarrow> bool" where
  "stale status = (status = RunStatusQueued \<or> status = RunStatusRunning)"

definition mark_error :: "gtime \<Rightarrow> run_row \<Rightarrow> run_row" where
  "mark_error now r = r\<lparr>rr_status := RunStatusError, rr_exit_code := None, rr_finished_at := nullTime (Some now)\<rparr>"

lemma mark_error_simps [simp]: "rr_id (mark_error now r) = rr_id r" "mark_error now (mark_error now r) = mark_error now r"
  by (simp_all add: mark_error_def)

lemma recover_runs_rows:
  "db_runs (recover_runs True now runs db) =
   map (\<lambda>r. if list_ex (\<lambda>run. stale (ru_Status run) \<and> ru_ID run = rr_id r) runs then mark_error now r else r) (db_runs db)"
proof (induction runs arbitrary: db)
  case (Cons run runs)
  have rows: "db_runs (if stale (ru_Status run) then snd (UpdateRunStatus True (ru_ID run) RunStatusError None (Some now) db) else db) =
      map (\<lambda>r. if stale (ru_Status run) \<and> ru_ID run = rr_id r then mark_error now r else r) (db_runs db)"
    by (auto simp: UpdateRunStatus_def exec_def update_where_def mark_error_def)
  show ?case
    by (simp add: Cons.IH rows[unfolded stale_def] stale_def cong: if_cong) (auto simp: stale_def)
qed simp

lemma scan_all_ok:
  "\<forall>r \<in> set rows. \<exists>x. scan r = Inr x \<Longrightarrow> scan_all scan rows = Inr (map (\<lambda>r. projr (scan r)) rows)"
  by (induction rows) auto

lemma scanRun_fields: "scanRun r = Inr x \<Longrightarrow> ru_ID x = rr_id r \<and> ru_Status x = rr_status r"
  by (auto simp: scanRun_def split: option.splits sum.splits)

lemma set_order_desc [simp]: "set (order_desc key rows) = set rows" "length (order_desc key rows) = length rows"
  by (simp_all add: order_desc_def)

text \<open>
  C34. The recovery at the start marks exactly the runs that were queued or running when the daemon stopped: when
  the table has at most 10000 runs, each of them becomes an error that ends now, and every other run is unchanged.
\<close>

theorem recoverStaleRuns_marks:
  assumes "\<forall>r \<in> set (db_runs db). \<exists>x. scanRun r = Inr x" "distinct (map rr_id (db_runs db))" "length (db_runs db) \<le> 10000"
  shows "db_runs (recoverStaleRuns True now db) =
    map (\<lambda>r. if rr_status r = RunStatusQueued \<or> rr_status r = RunStatusRunning then mark_error now r else r) (db_runs db)"
proof -
  let ?runs = "map (\<lambda>r. projr (scanRun r)) (order_desc rr_started_at (db_runs db))"
  have fields: "ru_ID (projr (scanRun r)) = rr_id r" "ru_Status (projr (scanRun r)) = rr_status r" if "r \<in> set (db_runs db)" for r
    using assms(1) that scanRun_fields by fastforce+
  have "ListRuns True 0 db = Inr ?runs"
    using assms(1,3) by (simp add: ListRuns_def query_rows_def scan_all_ok)
  moreover have "list_ex (\<lambda>run. stale (ru_Status run) \<and> ru_ID run = rr_id r) ?runs \<longleftrightarrow> stale (rr_status r)" if "r \<in> set (db_runs db)" for r
  proof -
    have "list_ex (\<lambda>run. stale (ru_Status run) \<and> ru_ID run = rr_id r) ?runs \<longleftrightarrow>
        (\<exists>q \<in> set (db_runs db). stale (rr_status q) \<and> rr_id q = rr_id r)"
      by (auto simp: list_ex_iff fields)
    also have "\<dots> \<longleftrightarrow> stale (rr_status r)"
      using that assms(2) by (auto simp: distinct_map inj_on_def)
    finally show ?thesis .
  qed
  ultimately show ?thesis
    by (simp add: recoverStaleRuns_def recover_runs_rows stale_def)
qed

theorem recoverStaleRuns_marks_witness:
  "\<exists>db. db_runs db = [run_to_row sample_run] \<and> db_runs (recoverStaleRuns True 0 db) = [mark_error 0 (run_to_row sample_run)]"
proof -
  have t: "time_ok sample_time" by code_simp
  let ?db = "(empty_db False)\<lparr>db_runs := [run_to_row sample_run]\<rparr>"
  have "scanRun (run_to_row sample_run) = Inr sample_run"
    using t by (intro scanRun_row) (simp add: run_times_ok_def sample_run_def)
  moreover have "rr_status (run_to_row sample_run) = RunStatusRunning"
    by (simp add: run_to_row_def sample_run_def)
  ultimately have "db_runs (recoverStaleRuns True 0 ?db) = [mark_error 0 (run_to_row sample_run)]"
    using recoverStaleRuns_marks[of ?db 0] by simp
  then show ?thesis by (intro exI[of _ ?db]) simp
qed

section \<open>Secrets\<close>

text \<open>
  A secret that cannot be resolved does not stop a run: \<open>runJob\<close> drops the error and all secrets, so the run
  is the run of the workflow without any secrets, although the runner itself returns an error for such a secret.
\<close>

lemma unresolved_secret_ignored:
  assumes "resolve_run_secrets (de_machine de) (wr_Secrets ref) fs = Inl e"
  shows "daemon_runJob de alive fuel pr j ref fs db = daemon_runJob de alive fuel pr j (ref\<lparr>wr_Secrets := []\<rparr>) fs db"
proof -
  have "daemon_secrets (de_machine de) [] fs = []"
    by (simp add: daemon_secrets_def resolve_run_secrets_def ResolveSecrets_def Let_def split: option.split)
  moreover have "daemon_secrets (de_machine de) (wr_Secrets ref) fs = []"
    using assms by (simp add: daemon_secrets_def)
  moreover have "run_report de j (ref\<lparr>wr_Secrets := []\<rparr>) status desc = run_report de j ref status desc" for status desc
    by (simp add: run_report_def)
  moreover have "begin_run de alive j (ref\<lparr>wr_Secrets := []\<rparr>) db = begin_run de alive j ref db"
    by (simp add: begin_run_def run_record_def)
  ultimately show ?thesis
    by (simp add: daemon_runJob_def split: option.split prod.split)
qed

lemma unresolved_secret_ignored_witness:
  "daemon_runJob sample_daemon (\<lambda>_. True) 1 sample_podman_runner sample_daemon_job (sample_ref\<lparr>wr_Secrets := [(''T'', ''keyring:x:y'')]\<rparr>)
     [] (empty_db False) =
   daemon_runJob sample_daemon (\<lambda>_. True) 1 sample_podman_runner sample_daemon_job sample_ref [] (empty_db False)"
proof -
  have "resolve_run_secrets (de_machine sample_daemon) [(''T'', ''keyring:x:y'')] [] =
      Inl (SecretsError (Resolving ''T'' (SecretNotFound ''y'' ''x'')))"
    by code_simp
  then show ?thesis
    using unresolved_secret_ignored[of sample_daemon "sample_ref\<lparr>wr_Secrets := [(''T'', ''keyring:x:y'')]\<rparr>" "[]"]
    by (simp add: sample_ref_def)
qed

text \<open>
  The runner resolves the secrets once more, so a stored secret whose text looks like a reference to the
  environment is expanded.
\<close>

lemma secrets_resolved_twice:
  assumes "resolve_run_secrets mc raw fs = Inr [(k, v)]" "\<not> HasPrefix v ''keyring:''" "Contains v ''${''" "mc_evalEnv mc v = Some u"
  shows "resolve_run_secrets mc (daemon_secrets mc raw fs) fs = Inr [(k, u)]"
  using assms
  by (auto simp: daemon_secrets_def resolve_run_secrets_def ResolveSecrets_def resolveValue_def Let_def split: option.splits if_splits sum.splits)

text \<open>All runs share one runner: the fields that a run sets are those of the last run that set them.\<close>

lemma runs_share_runner: "wire_runner r2 (wire_runner r1 pr) = wire_runner r2 pr"
  by (simp add: wire_runner_def)

section \<open>Manual runs\<close>

text \<open>
  A manual run has the identifier that its caller gets: when \<open>TriggerRun\<close> returns an identifier, it has put
  one job into the channel, for the one workflow that was named, of the commit \<open>manual\<close> of the repository
  and branch of the first commit trigger, and the run of that job is recorded under the identifier; otherwise the channel is unchanged.
\<close>

lemma TriggerRun_job:
  assumes "TriggerRun alive js newID cap projectName workflowName inputs db chan = (res, chan')" "newID \<noteq> []"
  shows "case res of
      Inl _ \<Rightarrow> chan' = chan
    | Inr rid \<Rightarrow> length chan < cap \<and> (\<exists>p w j. GetProject alive js projectName db = Inr p \<and> w \<in> set (dp_Workflows p) \<and> dw_Name w = workflowName \<and>
        chan' = chan @ [j] \<and> jo_WorkflowRefs j = [workflow_to_ref w] \<and> jo_SHA j = ''manual'' \<and> jo_Inputs j = inputs \<and>
        (\<forall>t. find is_commit_trigger (dp_Triggers p) = Some t \<longrightarrow> jo_Repo j = dt_Repo t \<and> jo_Branch j = dt_Branch t) \<and>
        (\<forall>de. run_id de j = rid))"
proof (cases res)
  case (Inl e)
  with assms(1) show ?thesis
    by (auto simp: TriggerRun_def split: sum.splits option.splits if_splits)
next
  case (Inr rid)
  then obtain p w where p: "GetProject alive js projectName db = Inr p" "find (\<lambda>w. dw_Name w = workflowName) (dp_Workflows p) = Some w"
    "length chan < cap" "rid = newID" "chan' = chan @ [manual_job newID projectName p w inputs]"
    using assms(1) by (auto simp: TriggerRun_def split: sum.splits option.splits if_splits)
  then have "w \<in> set (dp_Workflows p)" "dw_Name w = workflowName"
    by (auto simp: find_Some_iff)
  with p assms(2) Inr show ?thesis
    by (auto simp: manual_job_def run_id_def case_prod_unfold Let_def)
qed

section \<open>Dispatch\<close>

definition daemon_inv :: "nat \<Rightarrow> daemon_state \<Rightarrow> bool" where
  "daemon_inv m d =
     (dm_semCap d = m \<and> dm_sem d = length (dm_running d) \<and> dm_sem d \<le> m \<and> length (dm_jobs d) \<le> dm_chanCap d \<and> dm_chanCap d = 4 * m \<and>
      q_cap (dm_queue d) = 4 * int m \<and> length (q_jobs (dm_queue d)) \<le> 4 * m \<and>
      dm_started d @ dm_current d = concat (map job_runs (dm_taken d)))"

lemma Enqueue_bound:
  "Enqueue j q = Some q' \<Longrightarrow> q_cap q' = q_cap q \<and> (int (length (q_jobs q)) \<le> q_cap q \<longrightarrow> int (length (q_jobs q')) \<le> q_cap q)"
  by (auto simp: Enqueue_def replace_first_length split: if_splits option.splits list.splits)

lemma dequeue_bound: "dequeue_attempt c q = (Got j, q') \<Longrightarrow> q_cap q' = q_cap q \<and> length (q_jobs q') \<le> length (q_jobs q)"
  by (auto simp: dequeue_attempt_def split: if_splits list.splits)

lemma daemon_step_inv: "daemon_step d d' \<Longrightarrow> daemon_inv m d \<Longrightarrow> daemon_inv m d'"
  by (induction rule: daemon_step.induct) (auto simp: daemon_inv_def dest!: Enqueue_bound dequeue_bound)

lemma reachable_inv: "daemon_step\<^sup>*\<^sup>* (daemon_init m) d \<Longrightarrow> daemon_inv m d"
proof (induction rule: rtranclp_induct)
  case base
  show ?case by (simp add: daemon_inv_def daemon_init_def queue_New_def)
qed (rule daemon_step_inv)

text \<open>
  C11. The daemon never runs more workflows at once than the configured concurrency, in every interleaving of its
  goroutines; its channel and queue stay within four times that number; and it starts the workflows of
  the jobs that it takes from the queue in order, each once.
\<close>

theorem dispatch_bounded:
  assumes "daemon_step\<^sup>*\<^sup>* (daemon_init m) d"
  shows "length (dm_running d) \<le> m \<and> length (dm_jobs d) \<le> 4 * m \<and> length (q_jobs (dm_queue d)) \<le> 4 * m \<and>
    dm_started d @ dm_current d = concat (map job_runs (dm_taken d))"
  using reachable_inv [OF assms] by (simp add: daemon_inv_def)

definition two_workflows :: poll_job where
  "two_workflows = sample_daemon_job\<lparr>jo_WorkflowRefs := [sample_ref, sample_ref]\<rparr>"

theorem dispatch_bounded_witness:
  "\<exists>d. daemon_step\<^sup>*\<^sup>* (daemon_init 1) d \<and> dm_running d = [(two_workflows, sample_ref)] \<and> dm_current d = [(two_workflows, sample_ref)] \<and>
     length (dm_running d) \<le> 1"
proof -
  let ?d0 = "daemon_init 1" and ?q = "queue_New 4" and ?r = "(two_workflows, sample_ref)"
  let ?d1 = "?d0\<lparr>dm_jobs := [two_workflows]\<rparr>"
  let ?d2 = "?d1\<lparr>dm_jobs := [], dm_queue := ?q\<lparr>q_jobs := [two_workflows]\<rparr>\<rparr>"
  let ?d3 = "?d2\<lparr>dm_queue := ?q, dm_current := [?r, ?r], dm_taken := [two_workflows]\<rparr>"
  let ?d4 = "?d3\<lparr>dm_current := [?r], dm_sem := 1, dm_running := [?r], dm_started := [?r]\<rparr>"
  have "daemon_step ?d0 ?d1"
    using produce[of ?d0 two_workflows] by (simp add: daemon_init_def)
  moreover have "daemon_step ?d1 ?d2"
    using forward[of ?d1 two_workflows "[]" "?q\<lparr>q_jobs := [two_workflows]\<rparr>"]
    by (simp add: daemon_init_def Enqueue_def queue_New_def)
  moreover have "daemon_step ?d2 ?d3"
    using take[of ?d2 two_workflows ?q]
    by (simp add: daemon_init_def dequeue_attempt_def queue_New_def job_runs_def two_workflows_def)
  moreover have "daemon_step ?d3 ?d4"
    using start[of ?d3 ?r "[?r]"] by (simp add: daemon_init_def)
  ultimately have reach: "daemon_step\<^sup>*\<^sup>* ?d0 ?d4"
    by (meson rtranclp.rtrancl_refl rtranclp.rtrancl_into_rtrancl)
  show ?thesis
    using dispatch_bounded[OF reach] reach by (intro exI[of _ ?d4]) simp
qed

text \<open>A project with one workflow and a push trigger, for the examples.\<close>

definition id_json :: jsonlib where
  "id_json = \<lparr>js_map = \<lambda>_. [], js_unmap = \<lambda>_. Some [], js_list = \<lambda>_. [], js_unlist = \<lambda>_. Some [''push'']\<rparr>"

definition ci_project :: DBProject where
  "ci_project =
     \<lparr>dp_Name = ''p'', dp_Description = [],
      dp_Workflows = [\<lparr>dw_ID = ''1'', dw_ProjectName = ''p'', dw_Name = ''w'', dw_Path = ''wf.yml'', dw_RunnerImage = [], dw_Secrets = [],
        dw_Env = [], dw_TimeoutMinutes = 0\<rparr>],
      dp_Triggers = [\<lparr>dt_ID = ''2'', dt_ProjectName = ''p'', dt_Type = ''push'', dt_Repo = ''o/r'', dt_Branch = ''main'', dt_PR = 0,
        dt_OnEvents = [''push'']\<rparr>]\<rparr>"

definition ci_db :: DB where
  "ci_db = snd (CreateProject True id_json (\<lambda>_. []) ci_project (empty_db False))"

lemma TriggerRun_job_witness:
  "\<exists>j. TriggerRun True id_json ''n'' 4 ''p'' ''w'' [] ci_db [] = (Inr ''n'', [j]) \<and> jo_SHA j = ''manual'' \<and> (\<forall>de. run_id de j = ''n'')"
proof -
  have run: "TriggerRun True id_json ''n'' 4 ''p'' ''w'' [] ci_db [] =
      (Inr ''n'', [manual_job ''n'' ''p'' ci_project (hd (dp_Workflows ci_project)) []])"
    by code_simp
  show ?thesis
    using TriggerRun_job[OF run] run by auto
qed

end
