(* ===== verification/Dispatch.thy ===== *)
theory Dispatch
  imports Daemon_Correct
begin

text \<open>
  Progress of the dispatch loop of \<open>Daemon.Run\<close>: without new jobs, the goroutines always come to rest, and they rest only when every job has
  left the channel and the queue and every run has ended.
\<close>

text \<open>A step of a goroutine of the daemon itself, other than the arrival of a job.\<close>

definition quiet_step :: "daemon_state \<Rightarrow> daemon_state \<Rightarrow> bool" where
  "quiet_step d d' \<longleftrightarrow> daemon_step d d' \<and> length (dm_jobs d') \<le> length (dm_jobs d)"

definition idle :: "daemon_state \<Rightarrow> bool" where
  "idle d \<longleftrightarrow> dm_jobs d = [] \<and> q_jobs (dm_queue d) = [] \<and> dm_current d = [] \<and> dm_running d = []"

text \<open>What is still to be done: a run counts twice before it is started and once while it runs.\<close>

definition job_work :: "poll_job \<Rightarrow> nat" where
  "job_work j = 2 + 2 * length (jo_WorkflowRefs j)"

definition queue_work :: "poll_job list \<Rightarrow> nat" where
  "queue_work js = sum_list (map job_work js)"

definition work :: "daemon_state \<Rightarrow> nat" where
  "work d = queue_work (dm_jobs d) + length (dm_jobs d) + queue_work (q_jobs (dm_queue d)) + 2 * length (dm_current d) + length (dm_running d)"

lemma replace_first_work: "replace_first j js = Some js' \<Longrightarrow> queue_work js' \<le> queue_work js + job_work j"
  by (induction js arbitrary: js') (auto simp: queue_work_def split: if_splits)

lemma Enqueue_work: "Enqueue j q = Some q' \<Longrightarrow> queue_work (q_jobs q') \<le> queue_work (q_jobs q) + job_work j"
  by (auto simp: Enqueue_def queue_work_def replace_first_work [unfolded queue_work_def] split: if_splits option.splits list.splits)

lemma quiet_step_work:
  assumes "quiet_step d d'"
  shows "work d' < work d"
proof -
  from assms have "daemon_step d d'" "length (dm_jobs d') \<le> length (dm_jobs d)" by (simp_all add: quiet_step_def)
  then show ?thesis
  proof (cases rule: daemon_step.cases)
    case (forward j js q)
    then show ?thesis using Enqueue_work [OF forward(3)] by (simp add: work_def queue_work_def)
  next
    case (take j q)
    then show ?thesis
      by (auto simp: work_def queue_work_def job_work_def job_runs_def dequeue_attempt_def split: if_splits list.splits)
  qed (auto simp: work_def)
qed

lemma Enqueue_accepts: "0 < q_cap q \<Longrightarrow> \<exists>q'. Enqueue j q = Some q'"
  by (auto simp: Enqueue_def split: option.split list.split)

lemma busy_steps:
  assumes inv: "daemon_inv m d" "0 < m" and busy: "\<not> idle d"
  shows "\<exists>d'. quiet_step d d'"
proof -
  consider r rs where "dm_running d = r # rs" | "dm_running d = []" "dm_current d \<noteq> []"
    | "dm_running d = []" "dm_current d = []" "q_jobs (dm_queue d) \<noteq> []"
    | "dm_running d = []" "dm_current d = []" "q_jobs (dm_queue d) = []" "dm_jobs d \<noteq> []"
    using busy by (cases "dm_running d") (auto simp: idle_def)
  then show ?thesis
  proof cases
    case 1
    with finish [of d "[]"] show ?thesis by (auto simp: quiet_step_def)
  next
    case 2
    then obtain r rs where "dm_current d = r # rs" by (cases "dm_current d") auto
    moreover have "dm_sem d < dm_semCap d" using inv 2(1) by (simp add: daemon_inv_def)
    ultimately show ?thesis using start [of d r rs] by (auto simp: quiet_step_def)
  next
    case 3
    then obtain j js where "q_jobs (dm_queue d) = j # js" by (cases "q_jobs (dm_queue d)") auto
    then have "dequeue_attempt False (dm_queue d) = (Got j, (dm_queue d)\<lparr>q_jobs := js\<rparr>)" by (simp add: dequeue_attempt_def)
    with take [OF 3(2)] show ?thesis by (auto simp: quiet_step_def)
  next
    case 4
    then obtain j js where js: "dm_jobs d = j # js" by (cases "dm_jobs d") auto
    obtain q where "Enqueue j (dm_queue d) = Some q"
      using Enqueue_accepts [of "dm_queue d" j] inv by (auto simp: daemon_inv_def)
    with forward [OF js] show ?thesis using js by (auto simp: quiet_step_def)
  qed
qed

lemma idle_rests: "idle d \<Longrightarrow> \<not> quiet_step d d'"
  using quiet_step_work [of d d'] by (auto simp: idle_def work_def queue_work_def)



section \<open>No job is lost\<close>

text \<open>A job on its way, and that the queue has room for all jobs of the channel.\<close>

definition on_the_way :: "poll_job \<Rightarrow> daemon_state \<Rightarrow> bool" where
  "on_the_way j d \<longleftrightarrow> j \<in> set (dm_jobs d) \<or> j \<in> set (q_jobs (dm_queue d)) \<or> j \<in> set (dm_taken d)"

definition fits :: "daemon_state \<Rightarrow> bool" where
  "fits d \<longleftrightarrow> int (length (dm_jobs d) + length (q_jobs (dm_queue d))) \<le> q_cap (dm_queue d)"

lemma quiet_step_keeps:
  assumes "quiet_step d d'" "fits d"
  shows "fits d' \<and> (on_the_way j d \<longrightarrow> on_the_way j d')"
proof -
  from assms have "daemon_step d d'" "length (dm_jobs d') \<le> length (dm_jobs d)" by (simp_all add: quiet_step_def)
  then show ?thesis
  proof (cases rule: daemon_step.cases)
    case (forward i js q)
    with assms(2) have "q = (dm_queue d)\<lparr>q_jobs := q_jobs (dm_queue d) @ [i]\<rparr>" by (simp add: Enqueue_def fits_def)
    with forward assms(2) show ?thesis by (auto simp: fits_def on_the_way_def)
  next
    case (take i q)
    with assms(2) show ?thesis by (auto simp: fits_def on_the_way_def dequeue_attempt_def split: if_splits list.splits)
  qed (use assms(2) in \<open>auto simp: fits_def on_the_way_def\<close>)
qed

lemma quiet_steps_keep:
  assumes "quiet_step\<^sup>*\<^sup>* d d'" "fits d" "on_the_way j d" "daemon_inv m d"
  shows "fits d' \<and> on_the_way j d' \<and> daemon_inv m d'"
  using assms(1)
proof (induction rule: rtranclp_induct)
  case (step d1 d2)
  then show ?case using quiet_step_keeps [of d1 d2] daemon_step_inv [of d1 d2 m] by (simp add: quiet_step_def)
qed (use assms in simp)

lemma reaches_rest:
  assumes "daemon_inv m d" "0 < m"
  shows "\<exists>d'. quiet_step\<^sup>*\<^sup>* d d' \<and> idle d'"
  using assms(1)
proof (induction "work d" arbitrary: d rule: less_induct)
  case less
  show ?case
  proof (cases "idle d")
    case False
    then obtain d1 where d1: "quiet_step d d1" using busy_steps less.prems assms(2) by blast
    moreover from d1 have "daemon_inv m d1" using daemon_step_inv less.prems by (auto simp: quiet_step_def)
    ultimately show ?thesis using less.hyps [OF quiet_step_work] by (meson converse_rtranclp_into_rtranclp)
  qed blast
qed

lemma rest_started:
  assumes "daemon_inv m d" "idle d" "on_the_way j d" "ref \<in> set (jo_WorkflowRefs j)"
  shows "(j, ref) \<in> set (dm_started d)"
proof -
  have "dm_started d = concat (map job_runs (dm_taken d))" "j \<in> set (dm_taken d)"
    using assms(1-3) by (auto simp: daemon_inv_def idle_def on_the_way_def)
  with assms(4) show ?thesis by (auto simp: job_runs_def)
qed

end
