(* ===== verification/Act_Runner.thy ===== *)
theory Act_Runner
  imports Runner_Correct
begin

text \<open>
  The runner that calls the command \<open>act\<close> (\<open>ActRunner\<close> in \<open>internal/runner/runner.go\<close>), and the file through which it passes the
  secrets. The temporary files and the command are the record \<open>act_env\<close>; the permission bits of the files are left out.
\<close>

datatype act_end = ActOK | ActExit int | ActNotRun

record act_env =
  ae_git :: git
  ae_host :: host
  ae_lib :: golib
  ae_rank :: "string \<Rightarrow> nat"
  ae_tempEvent :: "string option"
  ae_eventWritten :: bool
  ae_tempSecrets :: "string option"
  ae_chmod :: bool
  ae_secretWritten :: "string \<Rightarrow> bool"
  ae_closed :: bool
  ae_openable :: "string \<Rightarrow> bool"
  ae_removable :: "string \<Rightarrow> bool"
  ae_act :: "string list \<Rightarrow> file_system \<Rightarrow> act_end \<times> file_system"

datatype act_error = ActBareClone | ActWorktree | ActEventJSON | ActEventFile | ActSecretsFile | ActExec

definition os_Remove :: "act_env \<Rightarrow> string \<Rightarrow> file_system \<Rightarrow> file_system" where
  "os_Remove ae path fs = (if ae_removable ae path then mdel path fs else fs)"

section \<open>The file of the secrets\<close>

definition secret_line :: "string \<times> string \<Rightarrow> string" where
  "secret_line kv = fst kv @ ''='' @ snd kv @ [newline]"

text \<open>The loop that writes the lines; \<open>None\<close> is a failed write.\<close>

fun write_secret_lines :: "act_env \<Rightarrow> string \<Rightarrow> (string \<times> string) list \<Rightarrow> file_system \<Rightarrow> bool \<times> file_system" where
  "write_secret_lines ae path [] fs = (True, fs)"
| "write_secret_lines ae path (kv # kvs) fs =
     (if ae_secretWritten ae (fst kv) then write_secret_lines ae path kvs (mput path (mget [] fs path @ secret_line kv) fs) else (False, fs))"

definition writeSecretsFile :: "act_env \<Rightarrow> string gomap \<Rightarrow> file_system \<Rightarrow> string option \<times> file_system" where
  "writeSecretsFile ae secrets fs =
     (case ae_tempSecrets ae of
        None \<Rightarrow> (None, fs)
      | Some path \<Rightarrow>
          (let fs1 = mput path [] fs
           in if \<not> ae_chmod ae then (None, os_Remove ae path fs1)
              else (case write_secret_lines ae path (mvisit (ae_rank ae) secrets) fs1 of
                      (False, fs2) \<Rightarrow> (None, os_Remove ae path fs2)
                    | (True, fs2) \<Rightarrow> if ae_closed ae then (Some path, fs2) else (None, os_Remove ae path fs2))))"

definition secureDelete :: "act_env \<Rightarrow> string \<Rightarrow> file_system \<Rightarrow> file_system" where
  "secureDelete ae path fs =
     (if path = [] then fs
      else os_Remove ae path
             (case map_of fs path of
                Some content \<Rightarrow> if ae_openable ae path then mput path (replicate (length content) (CHR 0x00)) fs else fs
              | None \<Rightarrow> fs))"

section \<open>The run\<close>

definition act_args :: "act_env \<Rightarrow> poll_job \<Rightarrow> WorkflowRef \<Rightarrow> string \<Rightarrow> string \<Rightarrow> string \<Rightarrow> string list" where
  "act_args ae j ref eventPath secretsPath wtDir =
     [jo_EventType j, ''--eventpath'', eventPath, ''--secret-file'', secretsPath, ''--workflows'', wr_Path ref,
      ''--directory'', wtDir, ''--pull=false'', ''--no-cache-server''] @
     concat (map (\<lambda>(k, v). [''--env'', k @ ''='' @ v]) (mvisit (ae_rank ae) (wr_Env ref)))"

definition act_exit :: "act_end \<Rightarrow> act_error + int" where
  "act_exit e = (case e of ActOK \<Rightarrow> Inr 0 | ActExit code \<Rightarrow> Inr code | ActNotRun \<Rightarrow> Inl ActExec)"

text \<open>The steps behind the worktree; the deferred calls run in the reverse order.\<close>

definition run_act :: "act_env \<Rightarrow> poll_job \<Rightarrow> WorkflowRef \<Rightarrow> string \<Rightarrow> file_system \<Rightarrow> (act_error + int) \<times> file_system" where
  "run_act ae j ref wtDir fs =
     (case GenerateEventJSON (ae_lib ae) (jo_Repo j) (jo_Owner j) (jo_RepoName j) (jo_SHA j) (jo_Branch j) (jo_PRNumber j) (jo_EventType j) of
        None \<Rightarrow> (Inl ActEventJSON, fs)
      | Some eventJSON \<Rightarrow>
          (case ae_tempEvent ae of
             None \<Rightarrow> (Inl ActEventFile, fs)
           | Some eventPath \<Rightarrow>
               if \<not> ae_eventWritten ae then (Inl ActEventFile, os_Remove ae eventPath (mput eventPath [] fs))
               else (case writeSecretsFile ae (wr_Secrets ref) (mput eventPath eventJSON fs) of
                       (None, fs1) \<Rightarrow> (Inl ActSecretsFile, os_Remove ae eventPath fs1)
                     | (Some secretsPath, fs1) \<Rightarrow>
                         (case ae_act ae (act_args ae j ref eventPath secretsPath wtDir) fs1 of
                            (e, fs2) \<Rightarrow> (act_exit e, os_Remove ae eventPath (secureDelete ae secretsPath fs2))))))"

definition Run_act :: "act_env \<Rightarrow> string \<Rightarrow> poll_job \<Rightarrow> WorkflowRef \<Rightarrow> file_system \<Rightarrow> (act_error + int) \<times> file_system" where
  "Run_act ae cacheDir j ref fs =
     (case ensureBareClone (ae_git ae) (ae_host ae) cacheDir (jo_Owner j) (jo_RepoName j) fs of
        (None, fs1) \<Rightarrow> (Inl ActBareClone, fs1)
      | (Some bareDir, fs1) \<Rightarrow>
          (case addWorktree (ae_git ae) bareDir (jo_SHA j) [] fs1 of
             (None, fs2) \<Rightarrow> (Inl ActWorktree, fs2)
           | (Some wtDir, fs2) \<Rightarrow>
               (case run_act ae j ref wtDir fs2 of
                  (res, fs3) \<Rightarrow> (res, worktree_cleanup (ae_git ae) bareDir wtDir fs3))))"

section \<open>No secret is left behind\<close>

lemma map_of_remove_all_under: "map_of fs q = None \<Longrightarrow> map_of (remove_all_under dir fs) q = None"
  by (auto simp: remove_all_under_def map_of_eq_None_iff)

lemma secureDelete_other: "q \<noteq> path \<Longrightarrow> map_of (secureDelete ae path fs) q = map_of fs q"
  by (simp add: secureDelete_def os_Remove_def split: option.split)

lemma secureDelete_gone: "path \<noteq> [] \<Longrightarrow> ae_removable ae path \<Longrightarrow> map_of (secureDelete ae path fs) path = None"
  by (simp add: secureDelete_def os_Remove_def)

lemma write_secret_lines_content:
  "write_secret_lines ae path kvs fs = (True, fs') \<Longrightarrow> map_of fs path = Some content \<Longrightarrow>
   map_of fs' path = Some (content @ concat (map secret_line kvs))"
  by (induction ae path kvs fs arbitrary: content rule: write_secret_lines.induct) (auto simp: mget_def split: if_splits)

lemma writeSecretsFile_content:
  "writeSecretsFile ae secrets fs = (Some path, fs') \<Longrightarrow>
   map_of fs' path = Some (concat (map secret_line (mvisit (ae_rank ae) secrets)))"
  by (auto simp: writeSecretsFile_def Let_def dest!: write_secret_lines_content split: option.splits if_splits prod.splits bool.splits)

lemma writeSecretsFile_fails:
  "writeSecretsFile ae secrets fs = (None, fs') \<Longrightarrow> ae_tempSecrets ae = Some sp \<Longrightarrow> ae_removable ae sp \<Longrightarrow> map_of fs' sp = None"
  by (auto simp: writeSecretsFile_def Let_def os_Remove_def split: if_splits prod.splits bool.splits)

lemma writeSecretsFile_path: "writeSecretsFile ae secrets fs = (Some path, fs') \<Longrightarrow> ae_tempSecrets ae = Some path"
  by (auto simp: writeSecretsFile_def Let_def split: option.splits if_splits prod.splits bool.splits)

lemma os_Remove_gone: "ae_removable ae q \<Longrightarrow> map_of (os_Remove ae q fs) q = None"
  by (simp add: os_Remove_def)

lemma os_Remove_None: "map_of fs q = None \<Longrightarrow> map_of (os_Remove ae p fs) q = None"
  by (simp add: os_Remove_def)

lemma run_act_cases:
  assumes res: "run_act ae j ref wtDir fs = (res, fs')" "res \<noteq> Inl ActEventJSON"
    and rm: "\<forall>p. ae_removable ae p" and temp: "ae_tempSecrets ae = Some sp" "ae_tempEvent ae = Some ep" "sp \<noteq> []"
  shows "map_of fs' ep = None \<and> (res = Inl ActEventFile \<or> map_of fs' sp = None) \<and>
    (res \<in> {Inl ActEventFile, Inl ActSecretsFile} \<or>
     (\<exists>fs1 e fs2. ae_act ae (act_args ae j ref ep sp wtDir) fs1 = (e, fs2) \<and> res = act_exit e \<and>
        map_of fs1 sp = Some (concat (map secret_line (mvisit (ae_rank ae) (wr_Secrets ref))))))"
proof -
  obtain json where json: "GenerateEventJSON (ae_lib ae) (jo_Repo j) (jo_Owner j) (jo_RepoName j) (jo_SHA j) (jo_Branch j)
      (jo_PRNumber j) (jo_EventType j) = Some json"
    using res by (auto simp: run_act_def split: option.splits)
  show ?thesis
  proof (cases "ae_eventWritten ae")
    case False
    with res json temp rm show ?thesis by (auto simp: run_act_def os_Remove_gone)
  next
    case True
    obtain w fs1 where w: "writeSecretsFile ae (wr_Secrets ref) (mput ep json fs) = (w, fs1)" by force
    show ?thesis
    proof (cases w)
      case None
      with w writeSecretsFile_fails [of ae "wr_Secrets ref" "mput ep json fs" fs1 sp] temp rm
      have "map_of fs1 sp = None" by simp
      with None w res json temp True rm show ?thesis by (auto simp: run_act_def os_Remove_gone os_Remove_None)
    next
      case (Some path)
      then have path: "path = sp" using w writeSecretsFile_path [of ae "wr_Secrets ref" "mput ep json fs" path fs1] temp by simp
      obtain e fs2 where e: "ae_act ae (act_args ae j ref ep sp wtDir) fs1 = (e, fs2)" by force
      have "res = act_exit e" "fs' = os_Remove ae ep (secureDelete ae sp fs2)"
        using res json temp True w Some path e by (auto simp: run_act_def)
      moreover have "map_of fs1 sp = Some (concat (map secret_line (mvisit (ae_rank ae) (wr_Secrets ref))))"
        using writeSecretsFile_content w Some path by blast
      ultimately show ?thesis
        using e rm temp(3) by (auto simp: os_Remove_gone os_Remove_None secureDelete_gone)
    qed
  qed
qed

text \<open>
  C29. When a run of \<open>act\<close> has got as far as its temporary files, the file with the event is gone when it returns, and so is the
  file with the secrets if it was created, on every path; \<open>act\<close> itself found every secret in that file, and its exit code is the result.
  Files can be removed, and \<open>git worktree remove\<close> creates none.
\<close>

theorem act_leaves_no_secrets:
  assumes res: "Run_act ae cacheDir j ref fs = (res, fs')" "res \<notin> {Inl ActBareClone, Inl ActWorktree, Inl ActEventJSON}"
    and rm: "\<forall>p. ae_removable ae p" and temp: "ae_tempSecrets ae = Some sp" "ae_tempEvent ae = Some ep" "sp \<noteq> []"
    and git: "\<forall>bareDir wtDir f q. map_of f q = None \<longrightarrow> map_of (gt_worktreeRemove (ae_git ae) bareDir wtDir f) q = None"
  shows "map_of fs' ep = None \<and> (res = Inl ActEventFile \<or> map_of fs' sp = None) \<and>
    (res \<in> {Inl ActEventFile, Inl ActSecretsFile} \<or>
     (\<exists>wtDir fs1 e fs2. ae_act ae (act_args ae j ref ep sp wtDir) fs1 = (e, fs2) \<and> res = act_exit e \<and>
        map_of fs1 sp = Some (concat (map secret_line (mvisit (ae_rank ae) (wr_Secrets ref))))))"
proof -
  obtain bareDir wtDir fs2 fs3 where r: "run_act ae j ref wtDir fs2 = (res, fs3)"
      "fs' = worktree_cleanup (ae_git ae) bareDir wtDir fs3"
    using res by (auto simp: Run_act_def split: prod.splits option.splits)
  have clean: "map_of fs' q = None" if "map_of fs3 q = None" for q
    using that git r(2) by (simp add: worktree_cleanup_def map_of_remove_all_under)
  have "res \<noteq> Inl ActEventJSON" using res(2) by simp
  note c = run_act_cases [OF r(1) this rm temp]
  show ?thesis
  proof (intro conjI)
    show "map_of fs' ep = None" using c clean by simp
    show "res = Inl ActEventFile \<or> map_of fs' sp = None" using c clean by auto
  qed (use c in \<open>fast\<close>)
qed

definition sample_act :: act_env where
  "sample_act =
     \<lparr>ae_git = sample_git, ae_host = sample_host, ae_lib = ascii_lib\<lparr>json_Marshal := \<lambda>_. Some ''{}''\<rparr>, ae_rank = (\<lambda>_. 0),
      ae_tempEvent = Some ''/tmp/e'', ae_eventWritten = True, ae_tempSecrets = Some ''/tmp/s'', ae_chmod = True,
      ae_secretWritten = (\<lambda>_. True), ae_closed = True, ae_openable = (\<lambda>_. True), ae_removable = (\<lambda>_. True),
      ae_act = (\<lambda>args fs. (ActExit 3, mput ''/tmp/e'' ''changed'' fs))\<rparr>"

theorem act_leaves_no_secrets_witness:
  "\<exists>fs'. Run_act sample_act ''/c'' (sample_poll_job ''w'' ''abc'') (sample_ref\<lparr>wr_Secrets := [(''K'', ''v'')]\<rparr>) [] = (Inr 3, fs') \<and>
     map_of fs' ''/tmp/e'' = None \<and> map_of fs' ''/tmp/s'' = None"
proof -
  let ?ref = "sample_ref\<lparr>wr_Secrets := [(''K'', ''v'')]\<rparr>" and ?j = "sample_poll_job ''w'' ''abc''"
  have r: "fst (Run_act sample_act ''/c'' ?j ?ref []) = Inr 3" by code_simp
  then obtain fs' where h: "Run_act sample_act ''/c'' ?j ?ref [] = (Inr 3, fs')" by (metis prod.collapse)
  from act_leaves_no_secrets [OF h, of "''/tmp/s''" "''/tmp/e''"] have "map_of fs' ''/tmp/e'' = None \<and> map_of fs' ''/tmp/s'' = None"
    by (simp add: sample_act_def sample_git_def)
  with h show ?thesis by blast
qed

end
