(* ===== verification/Log_Server.thy ===== *)
theory Log_Server
  imports Daemon Go_Float
begin

text \<open>
  The HTTP server (\<open>internal/logserver/server.go\<close>): requests and responses, the middlewares and
  one definition per handler, in the order of the code.

  A request has the decoded segments of its path, the value of the cookie \<open>session\<close> and its body
  (\<open>None\<close> when it cannot be read); \<open>hr_alive k\<close> says that its context is not done at the \<open>k\<close>-th call of the
  store. What the handlers take from outside is the record \<open>http_env\<close>: the clock, random
  identifiers and tokens, the two functions of \<open>internal/auth\<close> that call bcrypt, the decoders of
  \<open>encoding/json\<close> for the types of the bodies, the inputs that \<open>yaml.Unmarshal\<close> finds, the texts
  of errors and the access to files. A response has its status, the value that is encoded as its
  body and its change of the cookie; headers are left out.
\<close>

section \<open>Requests, responses and the state\<close>

record request =
  hr_method :: string
  hr_path :: "string list"
  hr_cookie :: "string option"
  hr_body :: "string option"
  hr_alive :: "nat \<Rightarrow> bool"

record workflowRequestBody =
  wb_Name :: string
  wb_Path :: string
  wb_RunnerImage :: string
  wb_Secrets :: "string gomap"
  wb_Env :: "string gomap"
  wb_TimeoutMinutes :: int

record watchRequestBody =
  hb_Name :: string
  hb_Repo :: string
  hb_Branch :: string
  hb_PR :: int
  hb_OnEvents :: "string list"
  hb_Workflows :: "workflowRequestBody list"

record projectRequestBody =
  pb_Name :: string
  pb_Description :: string
  pb_Workflows :: "workflowRequestBody list"

record triggerRequestBody =
  tb_Type :: string
  tb_Repo :: string
  tb_Branch :: string
  tb_PR :: int
  tb_OnEvents :: "string list"

record Stats =
  st_TotalRuns24h :: int
  st_SuccessRate24h :: float64
  st_ActiveRuns :: int
  st_ProjectCount :: int
  st_RecentFailures :: int

text \<open>The JSON of a user leaves out the hash of the password, that of a run the path of its log.\<close>

record user_view =
  uv_ID :: string
  uv_Username :: string
  uv_Role :: string
  uv_CreatedAt :: gtime

definition view_user :: "User \<Rightarrow> user_view" where
  "view_user u = \<lparr>uv_ID = us_ID u, uv_Username = us_Username u, uv_Role = us_Role u, uv_CreatedAt = us_CreatedAt u\<rparr>"

datatype payload =
    PError string
  | PText string
  | PStrings "string gomap"
  | PBool string bool
  | PRun Run
  | PRuns "Run list"
  | PRunJobs "RunJob list"
  | PArtifacts "RunArtifact list"
  | PWatch DBWatch
  | PWatches "DBWatch list"
  | PWorkflow DBWorkflow
  | PProject DBProject
  | PProjects "DBProject list"
  | PTrigger DBTrigger
  | PTriggers "DBTrigger list"
  | PInputs "WorkflowInput gomap"
  | PStats Stats
  | PUser "user_view option"
  | PUsers "user_view list"
  | PRedirect string
  | PIndexPage

datatype cookie = SessionCookie string | ClearedCookie

record response =
  rs_status :: int
  rs_payload :: payload
  rs_cookie :: "cookie option"

record server_state =
  sv_db :: DB
  sv_fs :: file_system
  sv_jobs :: "poll_job list"
  sv_inFlight :: "string list"
  sv_cancelled :: "string list"

text \<open>The interface \<open>RunControl\<close> on the state; an error is its text.\<close>

record run_control =
  rc_TriggerRun :: "bool \<Rightarrow> string \<Rightarrow> string \<Rightarrow> string gomap \<Rightarrow> server_state \<Rightarrow> (string + string) \<times> server_state"
  rc_CancelRun :: "bool \<Rightarrow> string \<Rightarrow> server_state \<Rightarrow> string option \<times> server_state"

record Server =
  sr_bind :: string
  sr_logDir :: string
  sr_artifactDir :: string
  sr_maxBytes :: int
  sr_maxAge :: int
  sr_rc :: "run_control option"

definition SetRunControl :: "run_control \<Rightarrow> Server \<Rightarrow> Server" where
  "SetRunControl rc s = s\<lparr>sr_rc := Some rc\<rparr>"

text \<open>
  One turn of the loop that streams a log: the content of the file at the first drain (\<open>None\<close> while
  there is no file), the answer of the store, the content at the final drain, and whether the client has left.
\<close>

record log_poll =
  lp_content :: "string option"
  lp_run :: "store_error + Run"
  lp_final :: string
  lp_done :: bool

record http_env =
  he_now :: "nat \<Rightarrow> gtime"
  he_newID :: "nat \<Rightarrow> string"
  he_token :: "string option"
  he_hash :: "string \<Rightarrow> string option"
  he_check :: "string \<Rightarrow> string \<Rightarrow> bool"
  he_json :: jsonlib
  he_credentials :: "string \<Rightarrow> (string \<times> string) option"
  he_newUser :: "string \<Rightarrow> (string \<times> string \<times> string) option"
  he_password :: "string \<Rightarrow> string option"
  he_watch :: "string \<Rightarrow> watchRequestBody option"
  he_workflow :: "string \<Rightarrow> workflowRequestBody option"
  he_project :: "string \<Rightarrow> projectRequestBody option"
  he_trigger :: "string \<Rightarrow> triggerRequestBody option"
  he_runInputs :: "string \<Rightarrow> string gomap"
  he_yamlInputs :: "string \<Rightarrow> WorkflowInput gomap option"
  he_errText :: "store_error \<Rightarrow> string"
  he_osError :: "string \<Rightarrow> string"
  he_readable :: "string \<Rightarrow> bool"
  he_writable :: "string \<Rightarrow> bool"
  he_polls :: "log_poll list"

type_synonym handler = "request \<Rightarrow> server_state \<Rightarrow> response \<times> server_state"

definition writeJSON :: "int \<Rightarrow> payload \<Rightarrow> response" where
  "writeJSON status v = \<lparr>rs_status = status, rs_payload = v, rs_cookie = None\<rparr>"

definition errorJSON :: "int \<Rightarrow> string \<Rightarrow> response" where
  "errorJSON status msg = writeJSON status (PError msg)"

definition textError :: "int \<Rightarrow> string \<Rightarrow> response" where
  "textError status msg = writeJSON status (PText (msg @ [newline]))"

definition NotFound :: response where
  "NotFound = textError 404 ''404 page not found''"

definition setSessionCookie :: "string \<Rightarrow> response \<Rightarrow> response" where
  "setSessionCookie token resp = resp\<lparr>rs_cookie := Some (SessionCookie token)\<rparr>"

definition decode :: "(string \<Rightarrow> 'a option) \<Rightarrow> request \<Rightarrow> 'a option" where
  "decode dec r = (case hr_body r of None \<Rightarrow> None | Some body \<Rightarrow> dec body)"

definition store_call :: "(DB \<Rightarrow> 'a \<times> DB) \<Rightarrow> server_state \<Rightarrow> 'a \<times> server_state" where
  "store_call f st = (case f (sv_db st) of (x, db) \<Rightarrow> (x, st\<lparr>sv_db := db\<rparr>))"

text \<open>A handler whose last step is a call of the store that may fail.\<close>

definition finish_call ::
  "http_env \<Rightarrow> (DB \<Rightarrow> DB wres) \<Rightarrow> (server_state \<Rightarrow> response) \<Rightarrow> server_state \<Rightarrow> response \<times> server_state" where
  "finish_call env call ok st =
     (case store_call call st of
        (Some e, st') \<Rightarrow> (errorJSON 500 (he_errText env e), st')
      | (None, st') \<Rightarrow> (ok st', st'))"

text \<open>A handler that answers with what it reads from the store.\<close>

definition answer :: "response \<Rightarrow> ('a \<Rightarrow> payload) \<Rightarrow> store_error + 'a \<Rightarrow> response" where
  "answer failed show_it res = (case res of Inl _ \<Rightarrow> failed | Inr x \<Rightarrow> writeJSON 200 (show_it x))"

abbreviation internalError :: response where
  "internalError \<equiv> errorJSON 500 ''internal error''"

abbreviation unauthorized :: response where
  "unauthorized \<equiv> errorJSON 401 ''unauthorized''"

abbreviation forbidden :: response where
  "forbidden \<equiv> errorJSON 403 ''forbidden''"

section \<open>Middlewares\<close>

definition authMiddleware :: "http_env \<Rightarrow> (User \<Rightarrow> handler) \<Rightarrow> handler" where
  "authMiddleware env nxt r st =
     (case hr_cookie r of
        None \<Rightarrow> (unauthorized, st)
      | Some token \<Rightarrow>
          (case store_call (GetSession (hr_alive r 0) (he_now env 0) token) st of
             (Inr (Some sess), st1) \<Rightarrow>
               (case GetUserByID (hr_alive r 1) (se_UserID sess) (sv_db st1) of
                  Inr (Some user) \<Rightarrow> nxt user r st1
                | _ \<Rightarrow> (unauthorized, st1))
           | (_, st1) \<Rightarrow> (unauthorized, st1)))"

definition adminMiddleware :: "http_env \<Rightarrow> (User \<Rightarrow> handler) \<Rightarrow> handler" where
  "adminMiddleware env nxt =
     authMiddleware env (\<lambda>user r st. if us_Role user \<noteq> ''admin'' then (forbidden, st) else nxt user r st)"

section \<open>Setup and authentication\<close>

definition handleSetupStatus :: handler where
  "handleSetupStatus r st =
     (answer internalError (\<lambda>count. PBool ''needs_setup'' (count = 0)) (UserCount (hr_alive r 0) (sv_db st)), st)"

text \<open>The end of \<open>handleSetup\<close> and of \<open>handleLogin\<close>: a token, a session of seven days and the cookie.\<close>

definition sessionLifetime :: int where
  "sessionLifetime = 7 * 24 * 3600 * nanos_per_second"

definition open_session :: "http_env \<Rightarrow> bool \<Rightarrow> string \<Rightarrow> string \<Rightarrow> string \<Rightarrow> server_state \<Rightarrow> response \<times> server_state" where
  "open_session env alive userID username role st =
     (case he_token env of
        None \<Rightarrow> (internalError, st)
      | Some token \<Rightarrow>
          (case store_call (CreateSession alive token userID (he_now env 1 + sessionLifetime)) st of
             (Some _, st') \<Rightarrow> (internalError, st')
           | (None, st') \<Rightarrow>
               (setSessionCookie token (writeJSON 200 (PStrings [(''username'', username), (''role'', role)])), st')))"

definition handleSetup :: "http_env \<Rightarrow> handler" where
  "handleSetup env r st =
     (case UserCount (hr_alive r 0) (sv_db st) of
        Inl _ \<Rightarrow> (internalError, st)
      | Inr n \<Rightarrow>
          if n \<noteq> 0 then (errorJSON 409 ''setup already completed'', st)
          else (case decode (he_credentials env) r of
                  None \<Rightarrow> (errorJSON 400 ''username and password required'', st)
                | Some (username, password) \<Rightarrow>
                    if username = [] \<or> password = [] then (errorJSON 400 ''username and password required'', st)
                    else (case he_hash env password of
                            None \<Rightarrow> (internalError, st)
                          | Some hash \<Rightarrow>
                              (case store_call (CreateUser (hr_alive r 1) (he_now env 2) (he_newID env 0) username hash ''admin'') st of
                                 (Some e, st1) \<Rightarrow> (errorJSON 500 (''create user: '' @ he_errText env e), st1)
                               | (None, st1) \<Rightarrow> open_session env (hr_alive r 2) (he_newID env 0) username ''admin'' st1))))"

definition handleLogin :: "http_env \<Rightarrow> handler" where
  "handleLogin env r st =
     (case decode (he_credentials env) r of
        None \<Rightarrow> (errorJSON 400 ''invalid request'', st)
      | Some (username, password) \<Rightarrow>
          (case GetUserByUsername (hr_alive r 0) username (sv_db st) of
             Inr (Some user) \<Rightarrow>
               if \<not> he_check env (us_PasswordHash user) password then (errorJSON 401 ''invalid credentials'', st)
               else open_session env (hr_alive r 1) (us_ID user) (us_Username user) (us_Role user) st
           | _ \<Rightarrow> (errorJSON 401 ''invalid credentials'', st)))"

definition handleLogout :: "User \<Rightarrow> handler" where
  "handleLogout user r st =
     ((writeJSON 200 (PStrings [(''status'', ''logged out'')]))\<lparr>rs_cookie := Some ClearedCookie\<rparr>,
      case hr_cookie r of None \<Rightarrow> st | Some token \<Rightarrow> snd (store_call (DeleteSession (hr_alive r 2) token) st))"

definition handleMe :: "User \<Rightarrow> handler" where
  "handleMe user r st =
     (writeJSON 200 (PStrings [(''id'', us_ID user), (''username'', us_Username user), (''role'', us_Role user)]), st)"

section \<open>Runs\<close>

definition handleGetRun :: "string \<Rightarrow> handler" where
  "handleGetRun rid r st = (answer NotFound PRun (GetRun (hr_alive r 2) rid (sv_db st)), st)"

definition handleListRuns :: handler where
  "handleListRuns r st = (answer (textError 500 ''internal error'') PRuns (ListRuns (hr_alive r 2) 50 (sv_db st)), st)"

definition isTerminal :: "string \<Rightarrow> bool" where
  "isTerminal status \<longleftrightarrow>
     status = RunStatusSuccess \<or> status = RunStatusFailure \<or> status = RunStatusError \<or> status = RunStatusCanceled"

text \<open>The loop that reads a file in pieces of at most 32 KiB until there are no more bytes.\<close>

function drain :: "string \<Rightarrow> nat \<Rightarrow> string \<times> nat" where
  "drain content off =
     (let n = min 32768 (length content - off)
      in if n = 0 then ([], off)
         else (case drain content (off + n) of (rest, off') \<Rightarrow> (take n (drop off content) @ rest, off')))"
  by pat_completeness auto
termination
  by (relation "measure (\<lambda>(content, off). length content - off)") auto

declare drain.simps [simp del]

text \<open>
  The loop of \<open>handleRunLog\<close> over the turns, from the offset of the open file; the result is what is written and whether
  the handler returned.
\<close>

fun stream_log :: "nat option \<Rightarrow> log_poll list \<Rightarrow> string \<times> bool" where
  "stream_log f [] = ([], False)"
| "stream_log f (p # ps) =
     (let f1 = (case f of None \<Rightarrow> map_option (\<lambda>_. 0) (lp_content p) | Some off \<Rightarrow> Some off);
          (out, f2) = (case f1 of
                         None \<Rightarrow> ([], None)
                       | Some off \<Rightarrow> (case drain (coalesce [] (lp_content p)) off of (bytes, off') \<Rightarrow> (bytes, Some off')))
      in if (case lp_run p of Inl _ \<Rightarrow> True | Inr cur \<Rightarrow> isTerminal (ru_Status cur))
         then (out @ (case f2 of None \<Rightarrow> [] | Some off \<Rightarrow> fst (drain (lp_final p) off)), True)
         else if lp_done p then (out, True)
         else (case stream_log f2 ps of (rest, returned) \<Rightarrow> (out @ rest, returned)))"

definition handleRunLog :: "Server \<Rightarrow> http_env \<Rightarrow> string \<Rightarrow> handler" where
  "handleRunLog s env rid r st =
     (case GetRun (hr_alive r 2) rid (sv_db st) of
        Inl _ \<Rightarrow> (textError 404 ''not found'', st)
      | Inr run \<Rightarrow>
          let path = LogPath (sr_logDir s) rid
          in if isTerminal (ru_Status run) then
               (case map_of (sv_fs st) path of
                  None \<Rightarrow> (writeJSON 200 (PText []), st)
                | Some content \<Rightarrow>
                    (if he_readable env path then writeJSON 200 (PText content) else textError 500 ''cannot open log'', st))
             else (writeJSON 200 (PText (fst (stream_log None (he_polls env)))), st))"

definition handleListRunJobs :: "string \<Rightarrow> handler" where
  "handleListRunJobs rid r st = (answer internalError PRunJobs (ListRunJobs (hr_alive r 2) rid (sv_db st)), st)"

section \<open>Artifacts\<close>

definition handleListArtifacts :: "string \<Rightarrow> handler" where
  "handleListArtifacts rid r st = (answer internalError PArtifacts (ListRunArtifacts (hr_alive r 2) rid (sv_db st)), st)"

text \<open>
  \<open>http.ServeFile\<close> on a file: a path of the request with an element \<open>..\<close> is refused, and one that ends in \<open>index.html\<close> is
  redirected to its directory. Ranges and conditions of the request are left out.
\<close>

definition ServeFile :: "http_env \<Rightarrow> request \<Rightarrow> string \<Rightarrow> file_system \<Rightarrow> response" where
  "ServeFile env r path fs =
     (if list_ex (\<lambda>seg. list_ex (\<lambda>part. ''..'' \<in> set (Split part (CHR 0x5C))) (Split seg (CHR ''/''))) (hr_path r)
      then textError 400 ''invalid URL path''
      else if hr_path r \<noteq> [] \<and> (last (hr_path r) = ''index.html'' \<or> HasSuffix (last (hr_path r)) ''/index.html'')
      then writeJSON 301 (PRedirect ''./'')
      else (case map_of fs path of
              None \<Rightarrow> NotFound
            | Some content \<Rightarrow> if he_readable env path then writeJSON 200 (PText content) else textError 403 ''403 Forbidden''))"

definition handleGetArtifact :: "Server \<Rightarrow> http_env \<Rightarrow> string \<Rightarrow> string \<Rightarrow> handler" where
  "handleGetArtifact s env rid filename r st =
     (case ListRunArtifacts (hr_alive r 2) rid (sv_db st) of
        Inl _ \<Rightarrow> (internalError, st)
      | Inr artifacts \<Rightarrow>
          (if list_ex (\<lambda>a. ra_Filename a = filename) artifacts
           then ServeFile env r (path_join [sr_artifactDir s, rid, filename]) (sv_fs st) else NotFound, st))"

end
