(* ===== verification/Log_Files.thy ===== *)
theory Log_Files
  imports Log_Server "HOL-Library.Sublist"
begin

text \<open>
  The log files: what a client that follows a log receives (\<open>handleRunLog\<close> in \<open>internal/logserver/server.go\<close>), and the retention
  of old logs (\<open>internal/logserver/retention.go\<close>).
\<close>

section \<open>Following a log\<close>

lemma drain_drop: "off \<le> length content \<Longrightarrow> drain content off = (drop off content, length content)"
proof (induction content off rule: drain.induct)
  case (1 content off)
  show ?case
  proof (cases "off = length content")
    case True
    then show ?thesis by (subst drain.simps) simp
  next
    case False
    let ?n = "min 32768 (length content - off)"
    from False 1(2) have n: "?n \<noteq> 0" "off + ?n \<le> length content" by auto
    from 1(1) [OF refl n] have "drain content (off + ?n) = (drop (off + ?n) content, length content)" .
    moreover have "take ?n (drop off content) @ drop (off + ?n) content = drop off content"
      by (metis append_take_drop_id drop_drop add.commute)
    ultimately show ?thesis using n(1) by (subst drain.simps) (simp add: Let_def)
  qed
qed

text \<open>The writer only appends: each turn sees an extension of what the turn before it saw.\<close>

fun appended :: "string \<Rightarrow> log_poll list \<Rightarrow> bool" where
  "appended seen [] = True"
| "appended seen (p # ps) \<longleftrightarrow>
     (case lp_content p of None \<Rightarrow> seen = [] | Some c \<Rightarrow> prefix seen c) \<and>
     (lp_content p \<noteq> None \<longrightarrow> prefix (coalesce [] (lp_content p)) (lp_final p)) \<and> appended (coalesce [] (lp_content p)) ps"

definition goes_on :: "log_poll \<Rightarrow> bool" where
  "goes_on p \<longleftrightarrow> (case lp_run p of Inl _ \<Rightarrow> False | Inr cur \<Rightarrow> \<not> isTerminal (ru_Status cur)) \<and> \<not> lp_done p"

definition run_over :: "log_poll \<Rightarrow> bool" where
  "run_over p \<longleftrightarrow> (case lp_run p of Inl _ \<Rightarrow> True | Inr cur \<Rightarrow> isTerminal (ru_Status cur))"

lemma stream_log_rest:
  assumes "list_all goes_on ps" "run_over p" "lp_content p = Some c" "appended seen (ps @ [p])"
    and "f = Some (length seen) \<or> f = None \<and> seen = []"
  shows "stream_log f (ps @ [p]) = (drop (length seen) (lp_final p), True)"
  using assms
proof (induction ps arbitrary: f seen)
  case Nil
  then obtain xs ys where "c = seen @ xs" "lp_final p = (seen @ xs) @ ys" by (auto simp: coalesce_def prefix_def)
  with Nil show ?case by (auto simp: run_over_def coalesce_def drain_drop)
next
  case (Cons q ps)
  from Cons.prems(1) have q: "goes_on q" "list_all goes_on ps" by auto
  let ?c = "coalesce [] (lp_content q)"
  have app: "appended ?c (ps @ [p])" "prefix seen ?c"
    using Cons.prems(4) by (auto simp: coalesce_def split: option.splits)
  obtain xs where xs: "?c = seen @ xs" using app(2) by (auto simp: prefix_def)
  have out: "prefix ?c (lp_final p)"
    using app(1) Cons.prems(3)
  proof (induction ps arbitrary: q)
    case Nil
    then show ?case by (auto simp: coalesce_def)
  next
    case (Cons r ps)
    then have "prefix (coalesce [] (lp_content r)) (lp_final p)" "prefix (coalesce [] (lp_content q)) (coalesce [] (lp_content r))"
      by (auto simp: coalesce_def split: option.splits)
    then show ?case by auto
  qed
  then obtain ys where ys: "lp_final p = (seen @ xs) @ ys" using xs by (auto simp: prefix_def)
  show ?case
  proof (cases "f = None \<and> lp_content q = None")
    case True
    then have "stream_log None (ps @ [p]) = (drop (length ([]::string)) (lp_final p), True)"
      using Cons.IH [OF q(2) Cons.prems(2,3), of "[]" None] app by (simp add: coalesce_def)
    with True q(1) Cons.prems(4,5) show ?thesis by (auto simp: goes_on_def split: sum.splits)
  next
    case False
    then have "stream_log (Some (length ?c)) (ps @ [p]) = (drop (length ?c) (lp_final p), True)"
      using Cons.IH [OF q(2) Cons.prems(2,3) app(1), of "Some (length ?c)"] by simp
    moreover have "drain ?c (length seen) = (xs, length ?c)"
      using xs by (simp add: drain_drop)
    ultimately show ?thesis
      using False q(1) Cons.prems(5) xs ys
      by (auto simp: goes_on_def coalesce_def split: option.splits sum.splits)
  qed
qed

text \<open>
  C38. A client that follows the log of a run until it ends receives the whole log, in pieces read while it grows: when the run
  is over at the last turn and the file is there at it, the bytes sent are the content at the final drain.
\<close>

theorem log_stream_complete:
  assumes "list_all goes_on ps" "run_over p" "lp_content p = Some c" "appended [] (ps @ [p])"
  shows "stream_log None (ps @ [p]) = (lp_final p, True)"
  using stream_log_rest [OF assms, of None] by simp

definition sample_turn :: "string option \<Rightarrow> string \<Rightarrow> string \<Rightarrow> log_poll" where
  "sample_turn content status final =
     \<lparr>lp_content = content,
      lp_run = Inr \<lparr>ru_ID = ''r'', ru_WatchName = [], ru_Repo = [], ru_SHA = [], ru_WorkflowName = [], ru_Status = status,
                    ru_StartedAt = 0, ru_FinishedAt = None, ru_ExitCode = None, ru_LogPath = []\<rparr>,
      lp_final = final, lp_done = False\<rparr>"

theorem log_stream_complete_witness:
  "stream_log None [sample_turn None ''running'' [], sample_turn (Some ''a'') ''running'' ''ab'', sample_turn (Some ''abc'') ''success'' ''abcd''] =
   (''abcd'', True)"
  using log_stream_complete [of "[sample_turn None ''running'' [], sample_turn (Some ''a'') ''running'' ''ab'']"
      "sample_turn (Some ''abc'') ''success'' ''abcd''" "''abc''"]
  by (simp add: sample_turn_def goes_on_def run_over_def isTerminal_def run_status_defs coalesce_def)

text \<open>A file that appears between the first drain of the last turn and the final one is never opened, and nothing of it is sent.\<close>

lemma log_stream_late_file: "run_over p \<Longrightarrow> lp_content p = None \<Longrightarrow> stream_log None [p] = ([], True)"
  by (simp add: run_over_def)

section \<open>Retention\<close>

text \<open>
  An entry of the directory: its name, whether it is a directory, and the size and the time that \<open>Info\<close> gives, unless it
  fails. \<open>removable\<close> says which files \<open>os.Remove\<close> removes. The clock stands still during the loop, the sums are unbounded,
  and files of the same time keep the order of the listing, which \<open>sort.Slice\<close> leaves open.
\<close>

record dir_entry =
  en_name :: string
  en_isDir :: bool
  en_info :: "(int \<times> gtime) option"

record logFile =
  lf_path :: string
  lf_size :: int
  lf_mtime :: gtime

text \<open>The first loop: the removed paths, the files and the total size.\<close>

fun scan_logs :: "string \<Rightarrow> gtime \<Rightarrow> int \<Rightarrow> (string \<Rightarrow> bool) \<Rightarrow> dir_entry list \<Rightarrow> string list \<times> logFile list \<times> int" where
  "scan_logs logDir now maxAge removable [] = ([], [], 0)"
| "scan_logs logDir now maxAge removable (e # es) =
     (case scan_logs logDir now maxAge removable es of
        (removed, files, totalSize) \<Rightarrow>
          (if en_isDir e then (removed, files, totalSize)
           else (case en_info e of
                   None \<Rightarrow> (removed, files, totalSize)
                 | Some (bytes, mtime) \<Rightarrow>
                     (let path = path_join [logDir, en_name e]
                      in if now - mtime > maxAge then (if removable path then path # removed else removed, files, totalSize)
                         else (removed, \<lparr>lf_path = path, lf_size = bytes, lf_mtime = mtime\<rparr> # files, totalSize + bytes)))))"

text \<open>The second loop, over the files from the oldest.\<close>

fun shrink_logs :: "int \<Rightarrow> (string \<Rightarrow> bool) \<Rightarrow> logFile list \<Rightarrow> int \<Rightarrow> string list" where
  "shrink_logs maxBytes removable [] totalSize = []"
| "shrink_logs maxBytes removable (f # fs) totalSize =
     (if totalSize \<le> maxBytes then []
      else if removable (lf_path f) then lf_path f # shrink_logs maxBytes removable fs (totalSize - lf_size f)
      else shrink_logs maxBytes removable fs totalSize)"

definition ApplyRetention :: "Server \<Rightarrow> gtime \<Rightarrow> (string \<Rightarrow> bool) \<Rightarrow> dir_entry list option \<Rightarrow> string list" where
  "ApplyRetention s now removable entries =
     (case entries of
        None \<Rightarrow> []
      | Some es \<Rightarrow>
          (case scan_logs (sr_logDir s) now (sr_maxAge s) removable es of
             (removed, files, totalSize) \<Rightarrow> removed @ shrink_logs (sr_maxBytes s) removable (sort_key lf_mtime files) totalSize))"

text \<open>What the policy says: the files of the directory, the old ones and the young ones.\<close>

definition log_files :: "string \<Rightarrow> dir_entry list \<Rightarrow> logFile list" where
  "log_files logDir es =
     concat (map (\<lambda>e. if en_isDir e then [] else case en_info e of None \<Rightarrow> []
                       | Some (bytes, mtime) \<Rightarrow> [\<lparr>lf_path = path_join [logDir, en_name e], lf_size = bytes, lf_mtime = mtime\<rparr>]) es)"

definition total_size :: "logFile list \<Rightarrow> int" where
  "total_size fs = sum_list (map lf_size fs)"

lemma scan_logs_eq:
  "scan_logs logDir now maxAge removable es =
     (let fs = log_files logDir es; young = filter (\<lambda>f. now - lf_mtime f \<le> maxAge) fs
      in (filter removable (map lf_path (filter (\<lambda>f. now - lf_mtime f > maxAge) fs)), young, total_size young))"
proof (induction es)
  case (Cons e es)
  then show ?case
    by (cases "en_info e") (auto simp: log_files_def total_size_def not_less Let_def simp del: path_join.simps)
qed (simp add: log_files_def total_size_def)

lemma shrink_logs_prefix:
  "\<exists>n \<le> length fs. shrink_logs maxBytes removable fs t = filter removable (map lf_path (take n fs)) \<and>
     (n = length fs \<or> t - total_size (filter (\<lambda>f. removable (lf_path f)) (take n fs)) \<le> maxBytes) \<and>
     (\<forall>k < n. maxBytes < t - total_size (filter (\<lambda>f. removable (lf_path f)) (take k fs)))"
proof (induction maxBytes removable fs t rule: shrink_logs.induct)
  case (2 maxBytes removable f fs t)
  show ?case
  proof (cases "t \<le> maxBytes")
    case True
    then show ?thesis by (intro exI [of _ 0]) (simp add: total_size_def)
  next
    case False
    let ?t = "if removable (lf_path f) then t - lf_size f else t"
    have "\<exists>n \<le> length fs. shrink_logs maxBytes removable fs ?t = filter removable (map lf_path (take n fs)) \<and>
       (n = length fs \<or> ?t - total_size (filter (\<lambda>f. removable (lf_path f)) (take n fs)) \<le> maxBytes) \<and>
       (\<forall>k < n. maxBytes < ?t - total_size (filter (\<lambda>f. removable (lf_path f)) (take k fs)))"
      using 2 False by (cases "removable (lf_path f)") simp_all
    then obtain n where n: "n \<le> length fs"
      "shrink_logs maxBytes removable fs ?t = filter removable (map lf_path (take n fs))"
      "n = length fs \<or> ?t - total_size (filter (\<lambda>f. removable (lf_path f)) (take n fs)) \<le> maxBytes"
      "\<forall>k < n. maxBytes < ?t - total_size (filter (\<lambda>f. removable (lf_path f)) (take k fs))" by blast
    have "maxBytes < t - total_size (filter (\<lambda>f. removable (lf_path f)) (take k (f # fs)))" if "k < Suc n" for k
      using that n(4) False by (cases k) (auto simp: total_size_def split: if_splits)
    moreover have "shrink_logs maxBytes removable (f # fs) t = filter removable (map lf_path (take (Suc n) (f # fs)))"
      using False n(2) by (simp split: if_splits)
    moreover have "Suc n = length (f # fs) \<or> t - total_size (filter (\<lambda>f. removable (lf_path f)) (take (Suc n) (f # fs))) \<le> maxBytes"
      using n(3) by (auto simp: total_size_def split: if_splits)
    ultimately show ?thesis using n(1) by (intro exI [of _ "Suc n"]) auto
  qed
qed simp

text \<open>
  C39. Retention removes every removable log file that is older than the maximal age and, of the others, the oldest ones: a prefix
  of the files in the order of their times, the shortest after which the size that is left is within the limit. Directories are not touched.
\<close>

theorem ApplyRetention_policy:
  "\<exists>n. let fs = log_files (sr_logDir s) es;
           old = filter (\<lambda>f. now - lf_mtime f > sr_maxAge s) fs;
           young = sort_key lf_mtime (filter (\<lambda>f. now - lf_mtime f \<le> sr_maxAge s) fs);
           left = (\<lambda>k. total_size young - total_size (filter (\<lambda>f. removable (lf_path f)) (take k young)))
       in ApplyRetention s now removable (Some es) =
            filter removable (map lf_path old) @ filter removable (map lf_path (take n young)) \<and>
          n \<le> length young \<and> (n = length young \<or> left n \<le> sr_maxBytes s) \<and> (\<forall>k < n. sr_maxBytes s < left k)"
proof -
  let ?fs = "log_files (sr_logDir s) es"
  let ?y = "filter (\<lambda>f. now - lf_mtime f \<le> sr_maxAge s) ?fs"
  let ?young = "sort_key lf_mtime ?y"
  have "mset (map lf_size ?young) = mset (map lf_size ?y)" by simp
  then have t: "total_size ?y = total_size ?young"
    unfolding total_size_def by (metis sum_mset_sum_list)
  obtain n where n: "n \<le> length ?young"
    "shrink_logs (sr_maxBytes s) removable ?young (total_size ?young) = filter removable (map lf_path (take n ?young))"
    "n = length ?young \<or> total_size ?young - total_size (filter (\<lambda>f. removable (lf_path f)) (take n ?young)) \<le> sr_maxBytes s"
    "\<forall>k < n. sr_maxBytes s < total_size ?young - total_size (filter (\<lambda>f. removable (lf_path f)) (take k ?young))"
    using shrink_logs_prefix [of ?young "sr_maxBytes s" removable "total_size ?young"] by blast
  have "ApplyRetention s now removable (Some es) =
      filter removable (map lf_path (filter (\<lambda>f. now - lf_mtime f > sr_maxAge s) ?fs)) @
      filter removable (map lf_path (take n ?young))"
    using n(2) by (simp add: ApplyRetention_def scan_logs_eq Let_def t)
  with n(1,3,4) show ?thesis unfolding Let_def by blast
qed

theorem ApplyRetention_policy_witness:
  "ApplyRetention \<lparr>sr_bind = [], sr_logDir = ''/logs'', sr_artifactDir = [], sr_maxBytes = 100, sr_maxAge = 10, sr_rc = None\<rparr> 20
     (\<lambda>_. True) (Some
       [\<lparr>en_name = ''a'', en_isDir = False, en_info = Some (60, 19)\<rparr>, \<lparr>en_name = ''b'', en_isDir = False, en_info = Some (50, 15)\<rparr>,
        \<lparr>en_name = ''c'', en_isDir = False, en_info = Some (5, 9)\<rparr>, \<lparr>en_name = ''d'', en_isDir = True, en_info = Some (70, 0)\<rparr>,
        \<lparr>en_name = ''e'', en_isDir = False, en_info = Some (30, 17)\<rparr>]) = [''/logs/c'', ''/logs/b'']"
  (is "ApplyRetention ?s 20 ?rm (Some ?es) = _")
proof -
  have fs: "log_files (sr_logDir ?s) ?es =
      [\<lparr>lf_path = ''/logs/a'', lf_size = 60, lf_mtime = 19\<rparr>, \<lparr>lf_path = ''/logs/b'', lf_size = 50, lf_mtime = 15\<rparr>,
       \<lparr>lf_path = ''/logs/c'', lf_size = 5, lf_mtime = 9\<rparr>, \<lparr>lf_path = ''/logs/e'', lf_size = 30, lf_mtime = 17\<rparr>]"
    by code_simp
  obtain n where n: "ApplyRetention ?s 20 ?rm (Some ?es) = ''/logs/c'' # map lf_path (take n
      [\<lparr>lf_path = ''/logs/b'', lf_size = 50, lf_mtime = 15\<rparr>, \<lparr>lf_path = ''/logs/e'', lf_size = 30, lf_mtime = 17\<rparr>,
       \<lparr>lf_path = ''/logs/a'', lf_size = 60, lf_mtime = 19\<rparr>])" "n \<le> 3"
    "n = 3 \<or> 140 - total_size (take n
      [\<lparr>lf_path = ''/logs/b'', lf_size = 50, lf_mtime = 15\<rparr>, \<lparr>lf_path = ''/logs/e'', lf_size = 30, lf_mtime = 17\<rparr>,
       \<lparr>lf_path = ''/logs/a'', lf_size = 60, lf_mtime = 19\<rparr>]) \<le> 100"
    "\<forall>k < n. 100 < 140 - total_size (take k
      [\<lparr>lf_path = ''/logs/b'', lf_size = 50, lf_mtime = 15\<rparr>, \<lparr>lf_path = ''/logs/e'', lf_size = 30, lf_mtime = 17\<rparr>,
       \<lparr>lf_path = ''/logs/a'', lf_size = 60, lf_mtime = 19\<rparr>])"
    using ApplyRetention_policy [of ?s ?es 20 ?rm] unfolding Let_def fs by (auto simp: total_size_def)
  have "n = 1"
  proof (rule ccontr)
    assume "n \<noteq> 1"
    then consider "n = 0" | "1 < n" by linarith
    then show False using n(3) n(4) by cases (auto simp: total_size_def dest: spec [of _ 1])
  qed
  with n(1) show ?thesis by simp
qed

end
