(* ===== verification/Log_Handlers.thy ===== *)
theory Log_Handlers
  imports Log_Server
begin

text \<open>
  The handlers of \<open>internal/logserver/server.go\<close> on watches, workflows, projects, triggers, users, runs and statistics,
  and the routes. The handlers of watches are not registered by \<open>Handler\<close>, which redirects their paths.
\<close>

section \<open>Bodies\<close>

text \<open>A missing map is the empty map, as \<open>toDBWorkflow\<close> makes it.\<close>

definition toDBWorkflow :: "string \<Rightarrow> workflowRequestBody \<Rightarrow> DBWorkflow" where
  "toDBWorkflow watchName b =
     \<lparr>dw_ID = [], dw_ProjectName = watchName, dw_Name = wb_Name b, dw_Path = wb_Path b, dw_RunnerImage = wb_RunnerImage b,
      dw_Secrets = wb_Secrets b, dw_Env = wb_Env b, dw_TimeoutMinutes = wb_TimeoutMinutes b\<rparr>"

definition toDBWatch :: "watchRequestBody \<Rightarrow> DBWatch" where
  "toDBWatch b =
     \<lparr>dwa_Name = hb_Name b, dwa_Repo = hb_Repo b, dwa_Branch = hb_Branch b, dwa_PR = hb_PR b,
      dwa_OnEvents = (if hb_OnEvents b = [] then [''push''] else hb_OnEvents b),
      dwa_Workflows = map (toDBWorkflow (hb_Name b)) (hb_Workflows b)\<rparr>"

text \<open>The store sets the identifiers of the workflows that the handler then shows.\<close>

definition number_workflows :: "(nat \<Rightarrow> string) \<Rightarrow> DBWorkflow list \<Rightarrow> DBWorkflow list" where
  "number_workflows ids ws = map (\<lambda>(k, w). w\<lparr>dw_ID := ids k\<rparr>) (enumerate 0 ws)"

section \<open>Watches\<close>

definition handleListWatches :: "http_env \<Rightarrow> handler" where
  "handleListWatches env r st = (answer internalError PWatches (ListWatches (hr_alive r 2) (he_json env) (sv_db st)), st)"

definition handleCreateWatch :: "http_env \<Rightarrow> handler" where
  "handleCreateWatch env r st =
     (case decode (he_watch env) r of
        None \<Rightarrow> (errorJSON 400 ''invalid request'', st)
      | Some body \<Rightarrow>
          if hb_Name body = [] \<or> hb_Repo body = [] then (errorJSON 400 ''name and repo required'', st)
          else
            (let dbw = toDBWatch body
             in finish_call env (CreateWatch (hr_alive r 2) (he_json env) (he_newID env) dbw)
                  (\<lambda>_. writeJSON 201 (PWatch (dbw\<lparr>dwa_Workflows := number_workflows (he_newID env) (dwa_Workflows dbw)\<rparr>))) st))"

definition handleGetWatch :: "http_env \<Rightarrow> string \<Rightarrow> handler" where
  "handleGetWatch env name r st =
     (answer (errorJSON 404 ''not found'') PWatch (GetWatch (hr_alive r 2) (he_json env) name (sv_db st)), st)"

definition handleUpdateWatch :: "http_env \<Rightarrow> string \<Rightarrow> handler" where
  "handleUpdateWatch env name r st =
     (case decode (he_watch env) r of
        None \<Rightarrow> (errorJSON 400 ''invalid request'', st)
      | Some body \<Rightarrow>
          (let dbw = toDBWatch (body\<lparr>hb_Name := name\<rparr>)
           in finish_call env (UpdateWatch (hr_alive r 2) (he_json env) (he_newID env 0) dbw)
                (\<lambda>st'. answer (writeJSON 200 (PWatch dbw)) PWatch (GetWatch (hr_alive r 3) (he_json env) name (sv_db st'))) st))"

definition handleDeleteWatch :: "http_env \<Rightarrow> string \<Rightarrow> handler" where
  "handleDeleteWatch env name r st =
     finish_call env (DeleteWatch (hr_alive r 2) name) (\<lambda>_. writeJSON 200 (PStrings [(''status'', ''deleted'')])) st"

section \<open>Workflows\<close>

definition handleCreateWorkflow :: "http_env \<Rightarrow> string \<Rightarrow> handler" where
  "handleCreateWorkflow env watchName r st =
     (case decode (he_workflow env) r of
        None \<Rightarrow> (errorJSON 400 ''invalid request'', st)
      | Some body \<Rightarrow>
          if wb_Name body = [] \<or> wb_Path body = [] then (errorJSON 400 ''name and path required'', st)
          else finish_call env (CreateWorkflow (hr_alive r 2) (he_json env) (he_newID env 0) (toDBWorkflow watchName body))
                 (\<lambda>_. writeJSON 201 (PWorkflow ((toDBWorkflow watchName body)\<lparr>dw_ID := he_newID env 0\<rparr>))) st)"

definition handleUpdateWorkflow :: "http_env \<Rightarrow> string \<Rightarrow> string \<Rightarrow> handler" where
  "handleUpdateWorkflow env watchName wfName r st =
     (case decode (he_workflow env) r of
        None \<Rightarrow> (errorJSON 400 ''invalid request'', st)
      | Some body \<Rightarrow>
          (let w = toDBWorkflow watchName (body\<lparr>wb_Name := wfName\<rparr>)
           in finish_call env (UpdateWorkflow (hr_alive r 2) (he_json env) w) (\<lambda>_. writeJSON 200 (PWorkflow w)) st))"

definition handleDeleteWorkflow :: "http_env \<Rightarrow> string \<Rightarrow> string \<Rightarrow> handler" where
  "handleDeleteWorkflow env watchName wfName r st =
     finish_call env (DeleteWorkflow (hr_alive r 2) watchName wfName) (\<lambda>_. writeJSON 200 (PStrings [(''status'', ''deleted'')])) st"

text \<open>The head of the three handlers on the file of a workflow; an empty path counts as a missing workflow.\<close>

definition workflow_path_of :: "http_env \<Rightarrow> string \<Rightarrow> string \<Rightarrow> request \<Rightarrow> server_state \<Rightarrow> response + string" where
  "workflow_path_of env watchName wfName r st =
     (case GetProject (hr_alive r 2) (he_json env) watchName (sv_db st) of
        Inl _ \<Rightarrow> Inl (errorJSON 404 ''project not found'')
      | Inr project \<Rightarrow>
          (case find (\<lambda>w. dw_Name w = wfName) (dp_Workflows project) of
             None \<Rightarrow> Inl (errorJSON 404 ''workflow not found'')
           | Some w \<Rightarrow> if dw_Path w = [] then Inl (errorJSON 404 ''workflow not found'') else Inr (dw_Path w)))"

definition handleGetWorkflowContent :: "http_env \<Rightarrow> string \<Rightarrow> string \<Rightarrow> handler" where
  "handleGetWorkflowContent env watchName wfName r st =
     (case workflow_path_of env watchName wfName r st of
        Inl resp \<Rightarrow> (resp, st)
      | Inr wfPath \<Rightarrow>
          (case map_of (sv_fs st) wfPath of
             None \<Rightarrow> errorJSON 404 ''workflow file not found''
           | Some content \<Rightarrow>
               if he_readable env wfPath then writeJSON 200 (PText content) else errorJSON 500 (''read error: '' @ he_osError env wfPath), st))"

definition handlePutWorkflowContent :: "http_env \<Rightarrow> string \<Rightarrow> string \<Rightarrow> handler" where
  "handlePutWorkflowContent env watchName wfName r st =
     (case workflow_path_of env watchName wfName r st of
        Inl resp \<Rightarrow> (resp, st)
      | Inr wfPath \<Rightarrow>
          (case hr_body r of
             None \<Rightarrow> (errorJSON 400 (''read body: '' @ he_osError env []), st)
           | Some body \<Rightarrow>
               if \<not> he_writable env (path_dir wfPath) then (errorJSON 500 (''create dirs: '' @ he_osError env (path_dir wfPath)), st)
               else if \<not> he_writable env wfPath then (errorJSON 500 (''write error: '' @ he_osError env wfPath), st)
               else (writeJSON 200 (PBool ''ok'' True), st\<lparr>sv_fs := mput wfPath body (sv_fs st)\<rparr>)))"

definition handleGetWorkflowInputs :: "http_env \<Rightarrow> string \<Rightarrow> string \<Rightarrow> handler" where
  "handleGetWorkflowInputs env watchName wfName r st =
     (case workflow_path_of env watchName wfName r st of
        Inl resp \<Rightarrow> (resp, st)
      | Inr wfPath \<Rightarrow>
          (writeJSON 200 (PInputs
             (case map_of (sv_fs st) wfPath of
                None \<Rightarrow> []
              | Some content \<Rightarrow> if he_readable env wfPath then coalesce [] (he_yamlInputs env content) else [])), st))"

section \<open>Run control\<close>

definition handleTriggerRun :: "Server \<Rightarrow> http_env \<Rightarrow> string \<Rightarrow> string \<Rightarrow> handler" where
  "handleTriggerRun s env projectName wfName r st =
     (case sr_rc s of
        None \<Rightarrow> (errorJSON 503 ''run control not available'', st)
      | Some rc \<Rightarrow>
          (case rc_TriggerRun rc (hr_alive r 2) projectName wfName (case hr_body r of None \<Rightarrow> [] | Some b \<Rightarrow> he_runInputs env b) st of
             (Inl e, st') \<Rightarrow> (errorJSON 400 e, st')
           | (Inr runID, st') \<Rightarrow> (writeJSON 200 (PStrings [(''id'', runID)]), st')))"

definition handleCancelRun :: "Server \<Rightarrow> string \<Rightarrow> handler" where
  "handleCancelRun s rid r st =
     (case sr_rc s of
        None \<Rightarrow> (errorJSON 503 ''run control not available'', st)
      | Some rc \<Rightarrow>
          (case rc_CancelRun rc (hr_alive r 2) rid st of
             (Some e, st') \<Rightarrow> (errorJSON 400 e, st')
           | (None, st') \<Rightarrow> (writeJSON 200 (PBool ''ok'' True), st')))"

text \<open>The daemon behind the interface: the capacity of its channel, the texts of its errors, its clock and identifiers.\<close>

definition daemon_control :: "http_env \<Rightarrow> nat \<Rightarrow> (control_error \<Rightarrow> string) \<Rightarrow> run_control" where
  "daemon_control env cap errText =
     \<lparr>rc_TriggerRun = (\<lambda>alive projectName workflowName inputs st.
        case TriggerRun alive (he_json env) (he_newID env 0) cap projectName workflowName inputs (sv_db st) (sv_jobs st) of
          (Inl e, jobs) \<Rightarrow> (Inl (errText e), st\<lparr>sv_jobs := jobs\<rparr>)
        | (Inr runID, jobs) \<Rightarrow> (Inr runID, st\<lparr>sv_jobs := jobs\<rparr>)),
      rc_CancelRun = (\<lambda>alive rid st.
        case CancelRun alive (he_now env 1) rid (sv_inFlight st) (sv_db st) of
          (Inl e, db) \<Rightarrow> (Some (errText e), st\<lparr>sv_db := db\<rparr>)
        | (Inr _, db) \<Rightarrow> (None, st\<lparr>sv_db := db, sv_cancelled := rid # sv_cancelled st\<rparr>))\<rparr>"

section \<open>Statistics\<close>

text \<open>The counters of the loop: runs of the last day, successful ones, active ones and failed ones.\<close>

fun count_runs :: "gtime \<Rightarrow> Run list \<Rightarrow> int \<times> int \<times> int \<times> int \<Rightarrow> int \<times> int \<times> int \<times> int" where
  "count_runs cutoff [] c = c"
| "count_runs cutoff (run # runs) (recent, success, active, failures) =
     (let active = (if ru_Status run = RunStatusQueued \<or> ru_Status run = RunStatusRunning then active + 1 else active)
      in if ru_StartedAt run < cutoff then count_runs cutoff runs (recent, success, active, failures)
         else count_runs cutoff runs
                (recent + 1, if ru_Status run = RunStatusSuccess then success + 1 else success, active,
                 if ru_Status run = RunStatusFailure \<or> ru_Status run = RunStatusError then failures + 1 else failures))"

definition success_rate :: "int \<Rightarrow> int \<Rightarrow> float64" where
  "success_rate success recent = (if recent > 0 then round_f64 False (of_int success / of_int recent) else FFin 0)"

definition handleStats :: "http_env \<Rightarrow> handler" where
  "handleStats env r st =
     (case ListRuns (hr_alive r 2) 200 (sv_db st) of
        Inl _ \<Rightarrow> (internalError, st)
      | Inr runs \<Rightarrow>
          (case ListWatches (hr_alive r 3) (he_json env) (sv_db st) of
             Inl _ \<Rightarrow> (internalError, st)
           | Inr watches \<Rightarrow>
               (case count_runs (he_now env 1 - 24 * 3600 * nanos_per_second) runs (0, 0, 0, 0) of
                  (recent, success, active, failures) \<Rightarrow>
                    (writeJSON 200 (PStats
                       \<lparr>st_TotalRuns24h = recent, st_SuccessRate24h = success_rate success recent, st_ActiveRuns = active,
                        st_ProjectCount = int (length watches), st_RecentFailures = failures\<rparr>), st))))"

section \<open>Users\<close>

definition handleListUsers :: "User \<Rightarrow> handler" where
  "handleListUsers user r st = (answer internalError (\<lambda>us. PUsers (map view_user us)) (ListUsers (hr_alive r 2) (sv_db st)), st)"

definition handleCreateAPIUser :: "http_env \<Rightarrow> User \<Rightarrow> handler" where
  "handleCreateAPIUser env user r st =
     (case decode (he_newUser env) r of
        None \<Rightarrow> (errorJSON 400 ''username and password required'', st)
      | Some (username, password, role) \<Rightarrow>
          if username = [] \<or> password = [] then (errorJSON 400 ''username and password required'', st)
          else (case he_hash env password of
                  None \<Rightarrow> (internalError, st)
                | Some hash \<Rightarrow>
                    finish_call env
                      (CreateUser (hr_alive r 2) (he_now env 2) (he_newID env 0) username hash (if role = [] then ''user'' else role))
                      (\<lambda>st'. writeJSON 201 (PUser (case GetUserByID (hr_alive r 3) (he_newID env 0) (sv_db st') of
                                                       Inl _ \<Rightarrow> None | Inr u \<Rightarrow> map_option view_user u))) st))"

definition handleDeleteUser :: "http_env \<Rightarrow> string \<Rightarrow> User \<Rightarrow> handler" where
  "handleDeleteUser env uid user r st =
     finish_call env (DeleteUser (hr_alive r 2) uid) (\<lambda>_. writeJSON 200 (PStrings [(''status'', ''deleted'')])) st"

definition handleUpdatePassword :: "http_env \<Rightarrow> string \<Rightarrow> User \<Rightarrow> handler" where
  "handleUpdatePassword env uid currentUser r st =
     (if us_Role currentUser \<noteq> ''admin'' \<and> us_ID currentUser \<noteq> uid then (forbidden, st)
      else (case decode (he_password env) r of
              None \<Rightarrow> (errorJSON 400 ''password required'', st)
            | Some password \<Rightarrow>
                if password = [] then (errorJSON 400 ''password required'', st)
                else (case he_hash env password of
                        None \<Rightarrow> (internalError, st)
                      | Some hash \<Rightarrow>
                          finish_call env (UpdateUserPassword (hr_alive r 2) uid hash)
                            (\<lambda>_. writeJSON 200 (PStrings [(''status'', ''updated'')])) st)))"

section \<open>Projects\<close>

definition HelloWorldWorkflow :: string where
  "HelloWorldWorkflow =
     Join [''name: hello-world'', [], ''on: [push]'', [], ''jobs:'', ''  hello:'', ''    runs-on: ubuntu:22.04'', ''    steps:'',
           ''      - name: Hello'',
           ''        run: echo '' @ [CHR 0x22] @ ''Hello from ghenkins! Project is working.'' @ [CHR 0x22], []] [newline]"

definition handleListProjects :: "http_env \<Rightarrow> handler" where
  "handleListProjects env r st = (answer internalError PProjects (ListProjects (hr_alive r 2) (he_json env) (sv_db st)), st)"

text \<open>The workflow that a project gets when the request names none.\<close>

definition hello_workflow :: "Server \<Rightarrow> string \<Rightarrow> DBWorkflow" where
  "hello_workflow s name =
     \<lparr>dw_ID = [], dw_ProjectName = name, dw_Name = name @ ''-hello'',
      dw_Path = path_join [path_join [sr_logDir s, ''..'', ''workflows''], name @ ''-hello.yaml''], dw_RunnerImage = [],
      dw_Secrets = [], dw_Env = [], dw_TimeoutMinutes = 0\<rparr>"

definition handleCreateProject :: "Server \<Rightarrow> http_env \<Rightarrow> handler" where
  "handleCreateProject s env r st =
     (case decode (he_project env) r of
        None \<Rightarrow> (errorJSON 400 ''invalid request'', st)
      | Some body \<Rightarrow>
          if pb_Name body = [] then (errorJSON 400 ''name required'', st)
          else
            (let p = \<lparr>dp_Name = pb_Name body, dp_Description = pb_Description body,
                      dp_Workflows = map (toDBWorkflow (pb_Name body)) (pb_Workflows body), dp_Triggers = []\<rparr>
             in case store_call (CreateProject (hr_alive r 2) (he_json env) (he_newID env) p) st of
                  (Some e, st1) \<Rightarrow> (errorJSON 500 (he_errText env e), st1)
                | (None, st1) \<Rightarrow>
                    if pb_Workflows body \<noteq> []
                    then (writeJSON 201 (PProject (p\<lparr>dp_Workflows := number_workflows (he_newID env) (dp_Workflows p)\<rparr>)), st1)
                    else
                      (let w = hello_workflow s (pb_Name body)
                       in if \<not> he_writable env (path_join [sr_logDir s, ''..'', ''workflows''])
                          then (errorJSON 500 (''create workflows dir: '' @ he_osError env (path_join [sr_logDir s, ''..'', ''workflows''])), st1)
                          else if \<not> he_writable env (dw_Path w) then (errorJSON 500 (''write hello-world workflow: '' @ he_osError env (dw_Path w)), st1)
                          else
                            (case store_call (CreateWorkflow (hr_alive r 3) (he_json env) (he_newID env 0) w)
                                    (st1\<lparr>sv_fs := mput (dw_Path w) HelloWorldWorkflow (sv_fs st1)\<rparr>) of
                               (Some e, st2) \<Rightarrow> (errorJSON 500 (''create hello-world workflow entry: '' @ he_errText env e), st2)
                             | (None, st2) \<Rightarrow>
                                 (writeJSON 201 (PProject (p\<lparr>dp_Workflows := [w\<lparr>dw_ID := he_newID env 0\<rparr>]\<rparr>)), st2)))))"

definition handleGetProject :: "http_env \<Rightarrow> string \<Rightarrow> handler" where
  "handleGetProject env name r st =
     (answer (errorJSON 404 ''not found'') PProject (GetProject (hr_alive r 2) (he_json env) name (sv_db st)), st)"

definition handleUpdateProject :: "http_env \<Rightarrow> string \<Rightarrow> handler" where
  "handleUpdateProject env name r st =
     (case decode (he_project env) r of
        None \<Rightarrow> (errorJSON 400 ''invalid request'', st)
      | Some body \<Rightarrow>
          (let p = \<lparr>dp_Name = name, dp_Description = pb_Description body, dp_Workflows = [], dp_Triggers = []\<rparr>
           in finish_call env (UpdateProject (hr_alive r 2) p)
                (\<lambda>st'. answer (writeJSON 200 (PProject p)) PProject (GetProject (hr_alive r 3) (he_json env) name (sv_db st'))) st))"

definition handleDeleteProject :: "http_env \<Rightarrow> string \<Rightarrow> handler" where
  "handleDeleteProject env name r st =
     finish_call env (DeleteProject (hr_alive r 2) name) (\<lambda>_. writeJSON 200 (PStrings [(''status'', ''deleted'')])) st"

section \<open>Triggers\<close>

definition handleListTriggers :: "http_env \<Rightarrow> string \<Rightarrow> handler" where
  "handleListTriggers env name r st =
     (answer (errorJSON 404 ''project not found'') (\<lambda>p. PTriggers (dp_Triggers p))
        (GetProject (hr_alive r 2) (he_json env) name (sv_db st)), st)"

definition body_trigger :: "string \<Rightarrow> string \<Rightarrow> triggerRequestBody \<Rightarrow> string list \<Rightarrow> DBTrigger" where
  "body_trigger tid name body onEvents =
     \<lparr>dt_ID = tid, dt_ProjectName = name, dt_Type = tb_Type body, dt_Repo = tb_Repo body, dt_Branch = tb_Branch body,
      dt_PR = tb_PR body, dt_OnEvents = onEvents\<rparr>"

definition handleCreateTrigger :: "http_env \<Rightarrow> string \<Rightarrow> handler" where
  "handleCreateTrigger env name r st =
     (case decode (he_trigger env) r of
        None \<Rightarrow> (errorJSON 400 ''invalid request'', st)
      | Some body \<Rightarrow>
          if tb_Type body = [] then (errorJSON 400 ''type required'', st)
          else if (tb_Type body = ''push'' \<or> tb_Type body = ''pull_request'') \<and> tb_Repo body = []
          then (errorJSON 400 ''repo required for push/pull_request triggers'', st)
          else
            (let t = body_trigger [] name body (if tb_OnEvents body = [] then [tb_Type body] else tb_OnEvents body)
             in finish_call env (CreateTrigger (hr_alive r 2) (he_json env) (he_newID env 0) t)
                  (\<lambda>_. writeJSON 201 (PTrigger (t\<lparr>dt_ID := he_newID env 0\<rparr>))) st))"

definition handleUpdateTrigger :: "http_env \<Rightarrow> string \<Rightarrow> string \<Rightarrow> handler" where
  "handleUpdateTrigger env name triggerID r st =
     (case decode (he_trigger env) r of
        None \<Rightarrow> (errorJSON 400 ''invalid request'', st)
      | Some body \<Rightarrow>
          (let t = body_trigger triggerID name body (tb_OnEvents body)
           in finish_call env (UpdateTrigger (hr_alive r 2) (he_json env) t) (\<lambda>_. writeJSON 200 (PTrigger t)) st))"

definition handleDeleteTrigger :: "http_env \<Rightarrow> string \<Rightarrow> handler" where
  "handleDeleteTrigger env triggerID r st =
     finish_call env (DeleteTrigger (hr_alive r 2) triggerID) (\<lambda>_. writeJSON 200 (PStrings [(''status'', ''deleted'')])) st"

end
