(* ===== verification/Log_Routes.thy ===== *)
theory Log_Routes
  imports Log_Handlers
begin

text \<open>
  The routes of \<open>Server.Handler\<close>. A pattern is a list of segments; of two patterns that match a path at most one is
  registered beside the catch-all \<open>GET /\<close>, so the order does not matter. The multiplexer of \<open>net/http\<close> cleans a path
  before it matches it, lets \<open>HEAD\<close> use the routes of \<open>GET\<close>, and answers 405 when only the method is wrong, which
  the catch-all makes the answer of every other request that has no route.
\<close>

datatype seg = Lit string | Wild

fun match_path :: "seg list \<Rightarrow> string list \<Rightarrow> string list option" where
  "match_path [] [] = Some []"
| "match_path (Lit l # ps) (x # xs) = (if x = l then match_path ps xs else None)"
| "match_path (Wild # ps) (x # xs) = (if x = [] then None else map_option (Cons x) (match_path ps xs))"
| "match_path _ _ = None"

text \<open>An endpoint takes the values of the wildcards; the middleware of a protected one gives it the user.\<close>

datatype endpoint =
    is_Public: Public "string list \<Rightarrow> handler"
  | Auth "string list \<Rightarrow> User \<Rightarrow> handler"
  | Admin "string list \<Rightarrow> User \<Rightarrow> handler"

definition redirect_to :: "string \<Rightarrow> handler" where
  "redirect_to url r st = (writeJSON 301 (PRedirect url), st)"

definition auth_routes :: "http_env \<Rightarrow> (string \<times> seg list \<times> endpoint) list" where
  "auth_routes env =
     [(''GET'', [Lit ''api'', Lit ''setup'', Lit ''status''], Public (\<lambda>_. handleSetupStatus)),
      (''POST'', [Lit ''api'', Lit ''setup''], Public (\<lambda>_. handleSetup env)),
      (''POST'', [Lit ''api'', Lit ''auth'', Lit ''login''], Public (\<lambda>_. handleLogin env)),
      (''POST'', [Lit ''api'', Lit ''auth'', Lit ''logout''], Auth (\<lambda>_. handleLogout)),
      (''GET'', [Lit ''api'', Lit ''me''], Auth (\<lambda>_. handleMe))]"

definition run_routes :: "Server \<Rightarrow> http_env \<Rightarrow> (string \<times> seg list \<times> endpoint) list" where
  "run_routes s env =
     [(''GET'', [Lit ''runs''], Auth (\<lambda>_ _. handleListRuns)),
      (''GET'', [Lit ''runs'', Wild], Auth (\<lambda>vs _. handleGetRun (vs ! 0))),
      (''GET'', [Lit ''runs'', Wild, Lit ''log''], Auth (\<lambda>vs _. handleRunLog s env (vs ! 0))),
      (''GET'', [Lit ''runs'', Wild, Lit ''jobs''], Auth (\<lambda>vs _. handleListRunJobs (vs ! 0)))]"

definition project_routes :: "Server \<Rightarrow> http_env \<Rightarrow> (string \<times> seg list \<times> endpoint) list" where
  "project_routes s env =
     [(''GET'', [Lit ''api'', Lit ''projects''], Auth (\<lambda>_ _. handleListProjects env)),
      (''POST'', [Lit ''api'', Lit ''projects''], Auth (\<lambda>_ _. handleCreateProject s env)),
      (''GET'', [Lit ''api'', Lit ''projects'', Wild], Auth (\<lambda>vs _. handleGetProject env (vs ! 0))),
      (''PUT'', [Lit ''api'', Lit ''projects'', Wild], Auth (\<lambda>vs _. handleUpdateProject env (vs ! 0))),
      (''DELETE'', [Lit ''api'', Lit ''projects'', Wild], Auth (\<lambda>vs _. handleDeleteProject env (vs ! 0))),
      (''GET'', [Lit ''api'', Lit ''projects'', Wild, Lit ''triggers''], Auth (\<lambda>vs _. handleListTriggers env (vs ! 0))),
      (''POST'', [Lit ''api'', Lit ''projects'', Wild, Lit ''triggers''], Auth (\<lambda>vs _. handleCreateTrigger env (vs ! 0))),
      (''PUT'', [Lit ''api'', Lit ''projects'', Wild, Lit ''triggers'', Wild],
       Auth (\<lambda>vs _. handleUpdateTrigger env (vs ! 0) (vs ! 1))),
      (''DELETE'', [Lit ''api'', Lit ''projects'', Wild, Lit ''triggers'', Wild], Auth (\<lambda>vs _. handleDeleteTrigger env (vs ! 1))),
      (''POST'', [Lit ''api'', Lit ''projects'', Wild, Lit ''workflows''], Auth (\<lambda>vs _. handleCreateWorkflow env (vs ! 0))),
      (''PUT'', [Lit ''api'', Lit ''projects'', Wild, Lit ''workflows'', Wild],
       Auth (\<lambda>vs _. handleUpdateWorkflow env (vs ! 0) (vs ! 1))),
      (''DELETE'', [Lit ''api'', Lit ''projects'', Wild, Lit ''workflows'', Wild],
       Auth (\<lambda>vs _. handleDeleteWorkflow env (vs ! 0) (vs ! 1))),
      (''GET'', [Lit ''api'', Lit ''projects'', Wild, Lit ''workflows'', Wild, Lit ''content''],
       Auth (\<lambda>vs _. handleGetWorkflowContent env (vs ! 0) (vs ! 1))),
      (''PUT'', [Lit ''api'', Lit ''projects'', Wild, Lit ''workflows'', Wild, Lit ''content''],
       Auth (\<lambda>vs _. handlePutWorkflowContent env (vs ! 0) (vs ! 1))),
      (''GET'', [Lit ''api'', Lit ''projects'', Wild, Lit ''workflows'', Wild, Lit ''inputs''],
       Auth (\<lambda>vs _. handleGetWorkflowInputs env (vs ! 0) (vs ! 1))),
      (''POST'', [Lit ''api'', Lit ''projects'', Wild, Lit ''workflows'', Wild, Lit ''trigger''],
       Auth (\<lambda>vs _. handleTriggerRun s env (vs ! 0) (vs ! 1)))]"

text \<open>The deprecated paths of watches are redirected to those of projects.\<close>

definition watch_routes :: "(string \<times> seg list \<times> endpoint) list" where
  "watch_routes =
     (let base = [Lit ''api'', Lit ''watches''];
          to_project = (\<lambda>vs. redirect_to (''/api/projects/'' @ vs ! 0));
          to_workflow = (\<lambda>vs. redirect_to (''/api/projects/'' @ vs ! 0 @ ''/workflows/'' @ vs ! 1));
          to_content = (\<lambda>vs. redirect_to (''/api/projects/'' @ vs ! 0 @ ''/workflows/'' @ vs ! 1 @ ''/content''))
      in [(''GET'', base, Public (\<lambda>_. redirect_to ''/api/projects'')),
          (''POST'', base, Public (\<lambda>_. redirect_to ''/api/projects'')),
          (''GET'', base @ [Wild], Public to_project),
          (''PUT'', base @ [Wild], Public to_project),
          (''DELETE'', base @ [Wild], Public to_project),
          (''POST'', base @ [Wild, Lit ''workflows''],
           Public (\<lambda>vs. redirect_to (''/api/projects/'' @ vs ! 0 @ ''/workflows''))),
          (''PUT'', base @ [Wild, Lit ''workflows'', Wild], Public to_workflow),
          (''DELETE'', base @ [Wild, Lit ''workflows'', Wild], Public to_workflow),
          (''GET'', base @ [Wild, Lit ''workflows'', Wild, Lit ''content''], Public to_content),
          (''PUT'', base @ [Wild, Lit ''workflows'', Wild, Lit ''content''], Public to_content)])"

definition control_routes :: "Server \<Rightarrow> http_env \<Rightarrow> (string \<times> seg list \<times> endpoint) list" where
  "control_routes s env =
     [(''GET'', [Lit ''runs'', Wild, Lit ''artifacts''], Auth (\<lambda>vs _. handleListArtifacts (vs ! 0))),
      (''GET'', [Lit ''runs'', Wild, Lit ''artifacts'', Wild], Auth (\<lambda>vs _. handleGetArtifact s env (vs ! 0) (vs ! 1))),
      (''POST'', [Lit ''runs'', Wild, Lit ''cancel''], Auth (\<lambda>vs _. handleCancelRun s (vs ! 0))),
      (''GET'', [Lit ''api'', Lit ''stats''], Auth (\<lambda>_ _. handleStats env)),
      (''GET'', [Lit ''api'', Lit ''users''], Admin (\<lambda>_. handleListUsers)),
      (''POST'', [Lit ''api'', Lit ''users''], Admin (\<lambda>_. handleCreateAPIUser env)),
      (''DELETE'', [Lit ''api'', Lit ''users'', Wild], Admin (\<lambda>vs. handleDeleteUser env (vs ! 0))),
      (''PUT'', [Lit ''api'', Lit ''users'', Wild, Lit ''password''], Auth (\<lambda>vs. handleUpdatePassword env (vs ! 0)))]"

definition routes :: "Server \<Rightarrow> http_env \<Rightarrow> (string \<times> seg list \<times> endpoint) list" where
  "routes s env = auth_routes env @ run_routes s env @ project_routes s env @ watch_routes @ control_routes s env"

fun find_route :: "(string \<times> seg list \<times> endpoint) list \<Rightarrow> string \<Rightarrow> string list \<Rightarrow> (endpoint \<times> string list) option" where
  "find_route [] m path = None"
| "find_route ((m', pat, ep) # rs) m path =
     (if m' = m then (case match_path pat path of Some vs \<Rightarrow> Some (ep, vs) | None \<Rightarrow> find_route rs m path)
      else find_route rs m path)"

fun serve :: "http_env \<Rightarrow> endpoint \<Rightarrow> string list \<Rightarrow> handler" where
  "serve env (Public h) vs = h vs"
| "serve env (Auth h) vs = authMiddleware env (h vs)"
| "serve env (Admin h) vs = adminMiddleware env (h vs)"

definition route_method :: "request \<Rightarrow> string" where
  "route_method r = (if hr_method r = ''HEAD'' then ''GET'' else hr_method r)"

definition route :: "Server \<Rightarrow> http_env \<Rightarrow> request \<Rightarrow> (endpoint \<times> string list) option" where
  "route s env r = find_route (routes s env) (route_method r) (hr_path r)"

definition Handler :: "Server \<Rightarrow> http_env \<Rightarrow> handler" where
  "Handler s env r st =
     (case route s env r of
        Some (ep, vs) \<Rightarrow> serve env ep vs r st
      | None \<Rightarrow>
          (if route_method r \<noteq> ''GET'' then textError 405 ''Method Not Allowed''
           else if hr_path r \<noteq> [] then NotFound else writeJSON 200 PIndexPage, st))"

end
