(* ===== verification/Log_Correct.thy ===== *)
theory Log_Correct
  imports Log_Routes Store_Correct
begin

text \<open>
  Properties of the HTTP server: who may do what, what a request leaves unchanged, sessions, and the files of workflows.
\<close>

section \<open>What the store operations leave unchanged\<close>

named_theorems unchanged \<open>tables that an operation or a handler does not touch\<close>

lemma exec_unchanged:
  assumes "\<And>db'. stmt db = Some db' \<Longrightarrow> f db' = f db"
  shows "f (snd (exec alive stmt db)) = f db"
  using assms by (auto simp: exec_def split: option.split)

text \<open>The users and the sessions.\<close>

definition accounts :: "server_state \<Rightarrow> User list \<times> Session list" where
  "accounts st = (db_users (sv_db st), db_sessions (sv_db st))"

definition db_accounts :: "DB \<Rightarrow> User list \<times> Session list" where
  "db_accounts db = (db_users db, db_sessions db)"

lemma accounts_alt: "accounts st = db_accounts (sv_db st)"
  by (simp add: accounts_def db_accounts_def)

lemma insertWorkflow_accounts [unchanged]: "db_accounts (snd (insertWorkflow alive js w db)) = db_accounts db"
  unfolding insertWorkflow_def by (rule exec_unchanged) (auto simp: db_accounts_def split: if_splits)

lemma insertTrigger_accounts [unchanged]: "db_accounts (snd (insertTrigger alive js t db)) = db_accounts db"
  unfolding insertTrigger_def by (rule exec_unchanged) (auto simp: db_accounts_def split: if_splits)

lemma insert_workflows_accounts: "db_accounts (snd (snd (insert_workflows alive js ids k name ws db))) = db_accounts db"
proof (induction ws arbitrary: k db)
  case (Cons w ws)
  have "db_accounts db' = db_accounts db" if "insertWorkflow alive js v db = (e, db')" for v e db'
    using insertWorkflow_accounts [of alive js v db] that by simp
  with Cons.IH show ?case
    by (auto simp: Let_def split: prod.splits option.splits)
qed simp

lemma insert_triggers_accounts: "db_accounts (snd (snd (insert_triggers alive js ids k name ts db))) = db_accounts db"
proof (induction ts arbitrary: k db)
  case (Cons t ts)
  have "db_accounts db' = db_accounts db" if "insertTrigger alive js v db = (e, db')" for v e db'
    using insertTrigger_accounts [of alive js v db] that by simp
  with Cons.IH show ?case
    by (auto simp: Let_def split: prod.splits option.splits)
qed simp

lemma CreateProject_accounts [unchanged]: "db_accounts (snd (CreateProject alive js ids p db)) = db_accounts db"
proof -
  let ?ins = "\<lambda>db. if has_key fst (dp_Name p) (db_projects db) then None
                   else Some (db\<lparr>db_projects := db_projects db @ [(dp_Name p, dp_Description p)]\<rparr>)"
  have "db_accounts (snd (exec alive ?ins db)) = db_accounts db"
    by (rule exec_unchanged) (auto simp: db_accounts_def split: if_splits)
  then have "db_accounts db1 = db_accounts db" if "exec alive ?ins db = (e, db1)" for e db1
    using that by simp
  moreover have "db_accounts db2 = db_accounts db1" if "insert_workflows alive js ids k name ws db1 = (e, j, db2)"
    for k name ws db1 e j db2
    using insert_workflows_accounts [of alive js ids k name ws db1] that by simp
  moreover have "db_accounts db2 = db_accounts db1" if "insert_triggers alive js ids k name ts db1 = (e, j, db2)"
    for k name ts db1 e j db2
    using insert_triggers_accounts [of alive js ids k name ts db1] that by simp
  ultimately show ?thesis
    unfolding CreateProject_def by (simp split: prod.split option.split)
qed

lemma plain_ops_accounts [unchanged]:
  "db_accounts (snd (UpdateWorkflow alive js w db)) = db_accounts db"
  "db_accounts (snd (DeleteWorkflow alive p n db)) = db_accounts db"
  "db_accounts (snd (UpdateTrigger alive js t db)) = db_accounts db"
  "db_accounts (snd (DeleteTrigger alive i db)) = db_accounts db"
  "db_accounts (snd (UpdateProject alive pr db)) = db_accounts db"
  "db_accounts (snd (DeleteProject alive n db)) = db_accounts db"
  "db_accounts (snd (UpdateRunStatus alive i s ec f db)) = db_accounts db"
  unfolding UpdateWorkflow_def DeleteWorkflow_def UpdateTrigger_def DeleteTrigger_def UpdateProject_def
    DeleteProject_def UpdateRunStatus_def
  by (rule exec_unchanged, auto simp: db_accounts_def Let_def split: if_splits)+

lemma create_accounts [unchanged]:
  "db_accounts (snd (CreateWorkflow alive js i w db)) = db_accounts db"
  "db_accounts (snd (CreateTrigger alive js i t db)) = db_accounts db"
  by (simp_all add: CreateWorkflow_def CreateTrigger_def unchanged)

section \<open>What the handlers leave unchanged\<close>

lemma store_call_accounts:
  "db_accounts (snd (f (sv_db st))) = db_accounts (sv_db st) \<Longrightarrow> accounts (snd (store_call f st)) = accounts st"
  by (cases "f (sv_db st)") (simp add: store_call_def accounts_alt)

lemma finish_call_state: "snd (finish_call env f ok st) = snd (store_call f st)"
  by (simp add: finish_call_def split: prod.split option.split)

lemma accounts_fs [simp]: "accounts (st\<lparr>sv_fs := fs\<rparr>) = accounts st"
  by (simp add: accounts_def)

lemmas reading_handlers = handleSetupStatus_def handleMe_def handleGetRun_def handleListRuns_def handleListRunJobs_def
  handleListArtifacts_def handleListUsers_def handleListProjects_def handleGetProject_def handleListTriggers_def
  redirect_to_def

lemma reading_handlers_state [simp]:
  "snd (handleSetupStatus r st) = st" "snd (handleMe u r st) = st" "snd (handleGetRun i r st) = st"
  "snd (handleListRuns r st) = st" "snd (handleListRunJobs i r st) = st" "snd (handleListArtifacts i r st) = st"
  "snd (handleListUsers u r st) = st" "snd (handleListProjects env r st) = st" "snd (handleGetProject env n r st) = st"
  "snd (handleListTriggers env n r st) = st" "snd (redirect_to url r st) = st"
  by (simp_all add: reading_handlers)

lemma reading_cases_state [simp]:
  "snd (handleRunLog s env i r st) = st" "snd (handleGetArtifact s env i f r st) = st"
  "snd (handleGetWorkflowContent env p w r st) = st" "snd (handleGetWorkflowInputs env p w r st) = st"
  "snd (handleStats env r st) = st"
  by (simp_all add: handleRunLog_def handleGetArtifact_def handleGetWorkflowContent_def handleGetWorkflowInputs_def
      handleStats_def Let_def split: sum.split option.split prod.split)

lemma writing_handlers_accounts [simp]:
  "accounts (snd (handleUpdateProject env n r st)) = accounts st"
  "accounts (snd (handleDeleteProject env n r st)) = accounts st"
  "accounts (snd (handleCreateTrigger env n r st)) = accounts st"
  "accounts (snd (handleUpdateTrigger env n i r st)) = accounts st"
  "accounts (snd (handleDeleteTrigger env i r st)) = accounts st"
  "accounts (snd (handleCreateWorkflow env n r st)) = accounts st"
  "accounts (snd (handleUpdateWorkflow env n w r st)) = accounts st"
  "accounts (snd (handleDeleteWorkflow env n w r st)) = accounts st"
  "accounts (snd (handlePutWorkflowContent env n w r st)) = accounts st"
  by (simp_all add: handleUpdateProject_def handleDeleteProject_def handleCreateTrigger_def handleUpdateTrigger_def
      handleDeleteTrigger_def handleCreateWorkflow_def handleUpdateWorkflow_def handleDeleteWorkflow_def
      handlePutWorkflowContent_def Let_def finish_call_state store_call_accounts unchanged split: sum.split option.split)

lemma store_call_accounts_eq:
  "store_call f st = (x, st') \<Longrightarrow> (\<And>db. db_accounts (snd (f db)) = db_accounts db) \<Longrightarrow> accounts st' = accounts st"
  using store_call_accounts [of f st] by simp

lemma handleCreateProject_accounts [simp]: "accounts (snd (handleCreateProject s env r st)) = accounts st"
  unfolding handleCreateProject_def Let_def
  by (auto simp: unchanged dest!: store_call_accounts_eq split: option.split prod.split)

section \<open>The store invariant\<close>

lemma store_call_ok: "(\<And>db. db_ok fk db \<Longrightarrow> db_ok fk (snd (f db))) \<Longrightarrow> db_ok fk (sv_db st) \<Longrightarrow> db_ok fk (sv_db (snd (store_call f st)))"
  by (cases "f (sv_db st)") (metis prod.sel(2) server_state.select_convs(1) server_state.surjective server_state.update_convs(1)
      store_call_def case_prod_conv)

lemma store_call_ok_eq:
  "store_call f st = (x, st') \<Longrightarrow> (\<And>db. db_ok fk db \<Longrightarrow> db_ok fk (snd (f db))) \<Longrightarrow> db_ok fk (sv_db st) \<Longrightarrow> db_ok fk (sv_db st')"
  using store_call_ok [of fk f st] by simp

lemmas server_ops_ok = CreateUser_ok DeleteUser_ok UpdateUserPassword_ok CreateSession_ok DeleteSession_ok GetSession_ok
  insertWorkflow_ok UpdateWorkflow_ok DeleteWorkflow_ok insertTrigger_ok UpdateTrigger_ok DeleteTrigger_ok UpdateProject_ok
  DeleteProject_ok CreateProject_ok UpdateRunStatus_ok

lemma writing_handlers_ok [simp]:
  assumes "db_ok fk (sv_db st)"
  shows "db_ok fk (sv_db (snd (handleUpdateProject env n r st)))"
    "db_ok fk (sv_db (snd (handleDeleteProject env n r st)))"
    "db_ok fk (sv_db (snd (handleCreateTrigger env n r st)))"
    "db_ok fk (sv_db (snd (handleUpdateTrigger env n i r st)))"
    "db_ok fk (sv_db (snd (handleDeleteTrigger env i r st)))"
    "db_ok fk (sv_db (snd (handleCreateWorkflow env n r st)))"
    "db_ok fk (sv_db (snd (handleUpdateWorkflow env n w r st)))"
    "db_ok fk (sv_db (snd (handleDeleteWorkflow env n w r st)))"
    "db_ok fk (sv_db (snd (handlePutWorkflowContent env n w r st)))"
    "db_ok fk (sv_db (snd (handleCreateAPIUser env u r st)))"
    "db_ok fk (sv_db (snd (handleDeleteUser env i u r st)))"
    "db_ok fk (sv_db (snd (handleUpdatePassword env i u r st)))"
    "db_ok fk (sv_db (snd (handleLogout u r st)))"
  using assms
  by (simp_all add: handleUpdateProject_def handleDeleteProject_def handleCreateTrigger_def handleUpdateTrigger_def
      handleDeleteTrigger_def handleCreateWorkflow_def handleUpdateWorkflow_def handleDeleteWorkflow_def
      handlePutWorkflowContent_def handleCreateAPIUser_def handleDeleteUser_def handleUpdatePassword_def handleLogout_def
      CreateTrigger_def CreateWorkflow_def Let_def finish_call_state store_call_ok server_ops_ok
      split: sum.split option.split prod.split)

lemma handleCreateProject_ok [simp]:
  "db_ok fk (sv_db st) \<Longrightarrow> db_ok fk (sv_db (snd (handleCreateProject s env r st)))"
  unfolding handleCreateProject_def Let_def CreateWorkflow_def
  by (auto simp: server_ops_ok elim!: store_call_ok_eq split: option.split prod.split)

lemma open_session_ok [simp]: "db_ok fk (sv_db st) \<Longrightarrow> db_ok fk (sv_db (snd (open_session env alive u n ro st)))"
  unfolding open_session_def
  by (auto simp: server_ops_ok elim!: store_call_ok_eq split: option.split prod.split)

lemma handleSetup_ok [simp]: "db_ok fk (sv_db st) \<Longrightarrow> db_ok fk (sv_db (snd (handleSetup env r st)))"
  unfolding handleSetup_def
  by (auto simp: server_ops_ok elim!: store_call_ok_eq intro!: open_session_ok split: option.split prod.split sum.split)

lemma handleLogin_ok [simp]: "db_ok fk (sv_db st) \<Longrightarrow> db_ok fk (sv_db (snd (handleLogin env r st)))"
  unfolding handleLogin_def by (simp split: option.split prod.split sum.split)

section \<open>The contract of run control\<close>

text \<open>
  What the server needs of a \<open>RunControl\<close>: starting and cancelling a run change no user and no session, and keep
  the invariant of the store and the files.
\<close>

locale run_control_contract =
  fixes rc :: run_control
  assumes trigger_accounts: "accounts (snd (rc_TriggerRun rc alive p w i st)) = accounts st"
    and trigger_ok: "db_ok fk (sv_db st) \<Longrightarrow> db_ok fk (sv_db (snd (rc_TriggerRun rc alive p w i st)))"
    and cancel_accounts: "accounts (snd (rc_CancelRun rc alive rid st)) = accounts st"
    and cancel_ok: "db_ok fk (sv_db st) \<Longrightarrow> db_ok fk (sv_db (snd (rc_CancelRun rc alive rid st)))"
begin

lemma handleTriggerRun_accounts: "accounts (snd (handleTriggerRun (SetRunControl rc s) env p w r st)) = accounts st"
  using trigger_accounts by (auto simp: handleTriggerRun_def SetRunControl_def split: prod.split sum.split) (metis snd_conv)+

lemma handleCancelRun_accounts: "accounts (snd (handleCancelRun (SetRunControl rc s) rid r st)) = accounts st"
  using cancel_accounts by (auto simp: handleCancelRun_def SetRunControl_def split: prod.split option.split) (metis snd_conv)+

lemma handleTriggerRun_ok:
  "db_ok fk (sv_db st) \<Longrightarrow> db_ok fk (sv_db (snd (handleTriggerRun (SetRunControl rc s) env p w r st)))"
  using trigger_ok by (auto simp: handleTriggerRun_def SetRunControl_def split: prod.split sum.split) (metis snd_conv)+

lemma handleCancelRun_ok:
  "db_ok fk (sv_db st) \<Longrightarrow> db_ok fk (sv_db (snd (handleCancelRun (SetRunControl rc s) rid r st)))"
  using cancel_ok by (auto simp: handleCancelRun_def SetRunControl_def split: prod.split option.split) (metis snd_conv)+

end

section \<open>Authentication\<close>

text \<open>The user of a request: the one of an unexpired session whose token is in the cookie.\<close>

definition session_user :: "gtime \<Rightarrow> string \<Rightarrow> DB \<Rightarrow> User option" where
  "session_user now token db =
     (case find (\<lambda>se. se_Token se = token) (db_sessions db) of
        None \<Rightarrow> None
      | Some se \<Rightarrow> if se_ExpiresAt se < now then None else find (\<lambda>u. us_ID u = se_UserID se) (db_users db))"

definition current_user :: "http_env \<Rightarrow> request \<Rightarrow> server_state \<Rightarrow> User option" where
  "current_user env r st =
     (case hr_cookie r of
        None \<Rightarrow> None
      | Some token \<Rightarrow> if hr_alive r 0 \<and> hr_alive r 1 then session_user (he_now env 0) token (sv_db st) else None)"

text \<open>What a refused request may change: the session of its cookie is deleted when it has expired.\<close>

definition drop_expired :: "http_env \<Rightarrow> request \<Rightarrow> server_state \<Rightarrow> server_state" where
  "drop_expired env r st =
     (case hr_cookie r of
        None \<Rightarrow> st
      | Some token \<Rightarrow>
          (case find (\<lambda>se. se_Token se = token) (db_sessions (sv_db st)) of
             None \<Rightarrow> st
           | Some se \<Rightarrow>
               if hr_alive r 0 \<and> se_ExpiresAt se < he_now env 0
               then st\<lparr>sv_db := (sv_db st)\<lparr>db_sessions := delete_where (\<lambda>x. se_Token x = token) (db_sessions (sv_db st))\<rparr>\<rparr>
               else st))"

lemma authMiddleware_eq:
  "authMiddleware env nxt r st =
     (case current_user env r st of Some u \<Rightarrow> nxt u r st | None \<Rightarrow> (unauthorized, drop_expired env r st))"
  by (simp add: authMiddleware_def current_user_def session_user_def drop_expired_def store_call_def GetSession_def query_row_def
      GetUserByID_def query_user_def exec_def split: option.split)

lemma adminMiddleware_eq:
  "adminMiddleware env nxt r st =
     (case current_user env r st of
        Some u \<Rightarrow> if us_Role u \<noteq> ''admin'' then (forbidden, st) else nxt u r st
      | None \<Rightarrow> (unauthorized, drop_expired env r st))"
  by (simp add: adminMiddleware_def authMiddleware_eq)

lemma drop_expired_rest [simp]:
  "sv_fs (drop_expired env r st) = sv_fs st" "sv_jobs (drop_expired env r st) = sv_jobs st"
  "sv_inFlight (drop_expired env r st) = sv_inFlight st" "sv_cancelled (drop_expired env r st) = sv_cancelled st"
  "db_users (sv_db (drop_expired env r st)) = db_users (sv_db st)"
  by (simp_all add: drop_expired_def split: option.split)

lemma drop_expired_ok: "db_ok fk (sv_db st) \<Longrightarrow> db_ok fk (sv_db (drop_expired env r st))"
  by (auto simp: drop_expired_def db_ok_defs image_subset_iff split: option.split)

section \<open>Routes\<close>

lemma match_path_Lit: "match_path (Lit l # ps) path = Some vs \<longleftrightarrow> (\<exists>xs. path = l # xs \<and> match_path ps xs = Some vs)"
  by (cases path) auto

lemma match_path_Nil: "match_path [] path = Some vs \<longleftrightarrow> path = [] \<and> vs = []"
  by (cases path) auto

lemma find_route_mem:
  "find_route rs m path = Some (ep, vs) \<Longrightarrow> \<exists>pat. (m, pat, ep) \<in> set rs \<and> match_path pat path = Some vs"
  by (induction rs m path rule: find_route.induct) (auto split: if_splits option.splits)

lemma route_ep:
  assumes "route s env r = Some (ep, vs)" "list_all (\<lambda>(m, pat, ep). P ep) (routes s env)"
  shows "P ep"
  using find_route_mem [of "routes s env" "route_method r" "hr_path r" ep vs] assms
  by (fastforce simp: route_def list_all_iff)

lemmas route_tables = routes_def auth_routes_def run_routes_def project_routes_def watch_routes_def control_routes_def Let_def

text \<open>The paths that are open to everybody.\<close>

definition public_path :: "string list \<Rightarrow> bool" where
  "public_path path \<longleftrightarrow>
     path \<in> {[''api'', ''setup'', ''status''], [''api'', ''setup''], [''api'', ''auth'', ''login'']} \<or>
     take 2 path = [''api'', ''watches'']"

definition public_pattern :: "seg list \<Rightarrow> bool" where
  "public_pattern pat \<longleftrightarrow>
     pat \<in> {[Lit ''api'', Lit ''setup'', Lit ''status''], [Lit ''api'', Lit ''setup''], [Lit ''api'', Lit ''auth'', Lit ''login'']} \<or>
     (\<exists>ps. pat = Lit ''api'' # Lit ''watches'' # ps)"

lemma public_pattern_path: "match_path pat path = Some vs \<Longrightarrow> public_pattern pat \<Longrightarrow> public_path path"
  by (auto simp: public_pattern_def public_path_def match_path_Lit match_path_Nil)

lemma public_routes: "list_all (\<lambda>(m, pat, ep). is_Public ep \<longrightarrow> public_pattern pat) (routes s env)"
  by (simp add: route_tables public_pattern_def)

lemma route_public:
  assumes "route s env r = Some (ep, vs)" "is_Public ep"
  shows "public_path (hr_path r)"
  using find_route_mem [OF assms(1) [unfolded route_def]] public_routes [of s env] assms(2) public_pattern_path
  by (fastforce simp: list_all_iff)

end
