(* ===== verification/Log_Access.thy ===== *)
theory Log_Access
  imports Log_Correct
begin

text \<open>
  Properties of the HTTP server as a whole: authentication, the protection of the accounts, the life of a session,
  the invariant of the store, the routes and the files of workflows. The server is wired to the daemon, as
  \<open>Daemon.Run\<close> does with \<open>SetRunControl\<close>.
\<close>

section \<open>The daemon behind the server\<close>

lemma daemon_trigger_db: "sv_db (snd (rc_TriggerRun (daemon_control env cap errText) alive p w i st)) = sv_db st"
  by (simp add: daemon_control_def split: prod.split sum.split)

interpretation daemon_rc: run_control_contract "daemon_control env cap errText" for env cap errText
proof unfold_locales
  fix alive p w i st fk rid
  show "accounts (snd (rc_TriggerRun (daemon_control env cap errText) alive p w i st)) = accounts st"
    by (simp add: accounts_alt daemon_trigger_db)
  show "db_ok fk (sv_db (snd (rc_TriggerRun (daemon_control env cap errText) alive p w i st)))" if "db_ok fk (sv_db st)"
    using that by (simp add: daemon_trigger_db)
  show "accounts (snd (rc_CancelRun (daemon_control env cap errText) alive rid st)) = accounts st"
    by (simp add: daemon_control_def CancelRun_def accounts_alt unchanged)
  show "db_ok fk (sv_db (snd (rc_CancelRun (daemon_control env cap errText) alive rid st)))" if "db_ok fk (sv_db st)"
    using that by (simp add: daemon_control_def CancelRun_def UpdateRunStatus_ok)
qed

definition served :: "Server \<Rightarrow> http_env \<Rightarrow> nat \<Rightarrow> (control_error \<Rightarrow> string) \<Rightarrow> Server" where
  "served s env cap errText = SetRunControl (daemon_control env cap errText) s"

section \<open>The invariant of the store\<close>

definition keeps_store :: "http_env \<Rightarrow> endpoint \<Rightarrow> bool" where
  "keeps_store env ep \<longleftrightarrow> (\<forall>fk vs r st. db_ok fk (sv_db st) \<longrightarrow> db_ok fk (sv_db (snd (serve env ep vs r st))))"

lemma keeps_store_Public: "(\<And>fk vs r st. db_ok fk (sv_db st) \<Longrightarrow> db_ok fk (sv_db (snd (h vs r st)))) \<Longrightarrow> keeps_store env (Public h)"
  by (simp add: keeps_store_def)

lemma keeps_store_Auth: "(\<And>fk vs u r st. db_ok fk (sv_db st) \<Longrightarrow> db_ok fk (sv_db (snd (h vs u r st)))) \<Longrightarrow> keeps_store env (Auth h)"
  by (simp add: keeps_store_def authMiddleware_eq drop_expired_ok split: option.split)

lemma keeps_store_Admin: "(\<And>fk vs u r st. db_ok fk (sv_db st) \<Longrightarrow> db_ok fk (sv_db (snd (h vs u r st)))) \<Longrightarrow> keeps_store env (Admin h)"
  by (simp add: keeps_store_def adminMiddleware_eq drop_expired_ok split: option.split)

lemma routes_keep_store: "list_all (\<lambda>(m, pat, ep). keeps_store env ep) (routes (served s env cap errText) env)"
  by (simp add: route_tables served_def keeps_store_Public keeps_store_Auth keeps_store_Admin
      daemon_rc.handleTriggerRun_ok daemon_rc.handleCancelRun_ok)

lemma Handler_ok:
  assumes "db_ok fk (sv_db st)"
  shows "db_ok fk (sv_db (snd (Handler (served s env cap errText) env r st)))"
proof (cases "route (served s env cap errText) env r")
  case None
  with assms show ?thesis by (simp add: Handler_def)
next
  case (Some x)
  then obtain ep vs where x: "route (served s env cap errText) env r = Some (ep, vs)" by (cases x) simp
  from route_ep [OF x routes_keep_store] assms x show ?thesis
    by (simp add: Handler_def keeps_store_def)
qed

section \<open>The accounts\<close>

definition own_password :: "User \<Rightarrow> User list \<Rightarrow> User list \<Rightarrow> bool" where
  "own_password u us us' \<longleftrightarrow>
     us' = us \<or> (\<exists>hash. us' = update_where (\<lambda>x. us_ID x = us_ID u) (\<lambda>x. x\<lparr>us_PasswordHash := hash\<rparr>) us)"

lemma own_password_refl [simp]: "own_password u us us"
  by (simp add: own_password_def)

lemma own_password_accounts: "accounts st' = accounts st \<Longrightarrow> own_password u (db_users (sv_db st)) (db_users (sv_db st'))"
  by (simp add: accounts_def)

lemma handleLogout_users [simp]: "db_users (sv_db (snd (handleLogout u r st))) = db_users (sv_db st)"
  by (simp add: handleLogout_def store_call_def DeleteSession_def exec_def split: option.split prod.split)

lemma handleUpdatePassword_users:
  "us_Role u \<noteq> ''admin'' \<Longrightarrow> own_password u (db_users (sv_db st)) (db_users (sv_db (snd (handleUpdatePassword env uid u r st))))"
  by (auto simp: handleUpdatePassword_def finish_call_state store_call_def UpdateUserPassword_def exec_def own_password_def
      split: option.split prod.split)

text \<open>What an endpoint may do to the users on behalf of a user who is not an administrator.\<close>

fun users_safe :: "http_env \<Rightarrow> endpoint \<Rightarrow> bool" where
  "users_safe env (Public h) \<longleftrightarrow>
     (\<forall>vs r st. db_users (sv_db (snd (h vs r st))) = db_users (sv_db st) \<or>
        db_users (sv_db st) = [] \<and> (\<exists>u. db_users (sv_db (snd (h vs r st))) = [u] \<and> us_Role u = ''admin''))"
| "users_safe env (Auth h) \<longleftrightarrow>
     (\<forall>vs u r st. us_Role u \<noteq> ''admin'' \<longrightarrow> own_password u (db_users (sv_db st)) (db_users (sv_db (snd (h vs u r st)))))"
| "users_safe env (Admin h) \<longleftrightarrow> True"

lemma open_session_users [simp]: "db_users (sv_db (snd (open_session env alive uid n ro st))) = db_users (sv_db st)"
  by (simp add: open_session_def store_call_def CreateSession_def exec_def split: option.split prod.split)

lemma handleLogin_users [simp]: "db_users (sv_db (snd (handleLogin env r st))) = db_users (sv_db st)"
  by (simp add: handleLogin_def split: option.split prod.split sum.split)

lemma handleSetup_users:
  "db_users (sv_db (snd (handleSetup env r st))) = db_users (sv_db st) \<or>
   db_users (sv_db st) = [] \<and> (\<exists>u. db_users (sv_db (snd (handleSetup env r st))) = [u] \<and> us_Role u = ''admin'')"
  by (auto simp: handleSetup_def UserCount_def store_call_def CreateUser_def exec_def split: option.split prod.split sum.split)

lemma routes_users_safe: "list_all (\<lambda>(m, pat, ep). users_safe env ep) (routes (served s env cap errText) env)"
  by (simp add: route_tables served_def own_password_accounts handleUpdatePassword_users handleSetup_users
      daemon_rc.handleTriggerRun_accounts daemon_rc.handleCancelRun_accounts)

lemma serve_users:
  assumes "users_safe env ep" "pred_option (\<lambda>u. us_Role u \<noteq> ''admin'') (current_user env r st)"
  shows "db_users (sv_db (snd (serve env ep vs r st))) = db_users (sv_db st) \<or>
     (\<exists>u. current_user env r st = Some u \<and> own_password u (db_users (sv_db st)) (db_users (sv_db (snd (serve env ep vs r st))))) \<or>
     db_users (sv_db st) = [] \<and> is_Public ep \<and> (\<exists>u. db_users (sv_db (snd (serve env ep vs r st))) = [u] \<and> us_Role u = ''admin'')"
  using assms
  by (cases ep) (auto simp: authMiddleware_eq adminMiddleware_eq split: option.split)

section \<open>Samples\<close>

text \<open>
  A small installation: an administrator, a user with a session, a project with a workflow, and an environment whose
  hashes are marked passwords and whose bodies are read literally.
\<close>

definition sample_http :: http_env where
  "sample_http =
     \<lparr>he_now = (\<lambda>_. 1000 * nanos_per_second), he_newID = (\<lambda>_. ''new''), he_token = Some ''fresh'',
      he_hash = (\<lambda>p. Some (''h:'' @ p)), he_check = (\<lambda>h p. h = ''h:'' @ p), he_json = list_codec,
      he_credentials = (\<lambda>b. Some (''bob'', b)), he_newUser = (\<lambda>b. Some (''eve'', b, [])), he_password = Some,
      he_watch = (\<lambda>_. None), he_workflow = (\<lambda>_. None), he_project = (\<lambda>_. None), he_trigger = (\<lambda>_. None),
      he_runInputs = (\<lambda>_. []), he_yamlInputs = (\<lambda>_. None), he_errText = (\<lambda>_. ''error''), he_osError = (\<lambda>_. ''error''),
      he_readable = (\<lambda>_. True), he_writable = (\<lambda>_. True), he_polls = []\<rparr>"

definition sample_site :: server_state where
  "sample_site =
     \<lparr>sv_db = (empty_db True)\<lparr>
        db_users := [\<lparr>us_ID = ''1'', us_Username = ''root'', us_PasswordHash = ''h:r'', us_Role = ''admin'', us_CreatedAt = 0\<rparr>,
                     \<lparr>us_ID = ''2'', us_Username = ''bob'', us_PasswordHash = ''h:b'', us_Role = ''user'', us_CreatedAt = 1\<rparr>],
        db_sessions := [\<lparr>se_Token = ''tok'', se_UserID = ''2'', se_ExpiresAt = 5000 * nanos_per_second\<rparr>,
                        \<lparr>se_Token = ''old'', se_UserID = ''1'', se_ExpiresAt = 0\<rparr>],
        db_projects := [(''ci'', [])],
        db_workflows := [\<lparr>wr_id = ''w'', wr_project_name = ''ci'', wr_name = ''build'', wr_path = ''/w/build.yaml'',
                          wr_runner_image = None, wr_secrets = [], wr_env = [], wr_timeout_minutes = 0\<rparr>]\<rparr>,
      sv_fs = [], sv_jobs = [], sv_inFlight = [], sv_cancelled = []\<rparr>"

definition sample_server :: Server where
  "sample_server = \<lparr>sr_bind = [], sr_logDir = ''/logs'', sr_artifactDir = ''/artifacts'', sr_maxBytes = 100, sr_maxAge = 10, sr_rc = None\<rparr>"

definition sample_request :: "string \<Rightarrow> string list \<Rightarrow> string option \<Rightarrow> string \<Rightarrow> request" where
  "sample_request m path token body =
     \<lparr>hr_method = m, hr_path = path, hr_cookie = token, hr_body = Some body, hr_alive = (\<lambda>_. True)\<rparr>"

lemmas sample_site_defs = sample_http_def sample_site_def sample_server_def sample_request_def empty_db_def

lemma sample_site_ok: "db_ok True (sv_db sample_site)"
  by (simp add: sample_site_defs db_ok_defs)

section \<open>Properties\<close>

lemma public_stateless:
  "list_all (\<lambda>(m, pat, ep). is_Public ep \<longrightarrow>
      m = ''POST'' \<and> pat \<in> {[Lit ''api'', Lit ''setup''], [Lit ''api'', Lit ''auth'', Lit ''login'']} \<or>
      (\<forall>vs r st. snd (serve env ep vs r st) = st)) (routes s env)"
  by (simp add: route_tables)

lemma public_serve_state:
  assumes "route s env r = Some (ep, vs)" "is_Public ep"
    "\<not> (route_method r = ''POST'' \<and> hr_path r \<in> {[''api'', ''setup''], [''api'', ''auth'', ''login'']})"
  shows "snd (serve env ep vs r st) = st"
proof -
  obtain pat where "(route_method r, pat, ep) \<in> set (routes s env)" "match_path pat (hr_path r) = Some vs"
    using find_route_mem [OF assms(1) [unfolded route_def]] by blast
  then show ?thesis
    using public_stateless [of env s] assms(2,3) by (fastforce simp: list_all_iff match_path_Lit match_path_Nil)
qed

lemma serve_refused:
  "\<not> is_Public ep \<Longrightarrow> current_user env r st = None \<Longrightarrow> serve env ep vs r st = (unauthorized, drop_expired env r st)"
  by (cases ep) (simp_all add: authMiddleware_eq adminMiddleware_eq)

text \<open>
  C6. A request without a valid session is refused with 401 on every route except those of the setup, the login and the
  redirected paths of watches. Unless it is a setup or a login, it changes nothing but the expired session of its cookie,
  which is deleted.
\<close>

theorem unauthenticated_refused:
  assumes "current_user env r st = None"
  shows "(route (served s env cap errText) env r \<noteq> None \<and> \<not> public_path (hr_path r) \<longrightarrow>
      Handler (served s env cap errText) env r st = (unauthorized, drop_expired env r st)) \<and>
    (\<not> (route_method r = ''POST'' \<and> hr_path r \<in> {[''api'', ''setup''], [''api'', ''auth'', ''login'']}) \<longrightarrow>
      snd (Handler (served s env cap errText) env r st) \<in> {st, drop_expired env r st})"
proof (cases "route (served s env cap errText) env r")
  case None
  then show ?thesis by (simp add: Handler_def)
next
  case (Some x)
  then obtain ep vs where x: "route (served s env cap errText) env r = Some (ep, vs)" by (cases x) simp
  then show ?thesis
    using route_public [OF x] public_serve_state [OF x] serve_refused [OF _ assms, of ep vs]
    by (cases "is_Public ep") (simp_all add: Handler_def)
qed

theorem unauthenticated_refused_witness:
  "Handler (served sample_server sample_http 4 (\<lambda>_. [])) sample_http (sample_request ''GET'' [''runs''] (Some ''old'') []) sample_site =
   (unauthorized, sample_site\<lparr>sv_db := (sv_db sample_site)\<lparr>db_sessions := take 1 (db_sessions (sv_db sample_site))\<rparr>\<rparr>)"
proof -
  let ?r = "sample_request ''GET'' [''runs''] (Some ''old'') []"
  have "current_user sample_http ?r sample_site = None"
    by (simp add: sample_site_defs current_user_def session_user_def nanos_per_second_def)
  from unauthenticated_refused [OF this, of sample_server 4 "\<lambda>_. []"]
  show ?thesis
    by (simp add: route_def route_method_def public_path_def route_tables sample_site_defs drop_expired_def delete_where_def
        nanos_per_second_def served_def)
qed

text \<open>
  C3. The users change only with the rights that it takes: a request of a user who is not an administrator, or of nobody,
  leaves all users as they are, except that a user may set the own password and that the setup creates the first
  administrator when there is no user yet.
\<close>

theorem accounts_protected:
  assumes "pred_option (\<lambda>u. us_Role u \<noteq> ''admin'') (current_user env r st)"
    and "Handler (served s env cap errText) env r st = (resp, st')"
  shows "db_users (sv_db st') = db_users (sv_db st) \<or>
    (\<exists>u hash. current_user env r st = Some u \<and>
       db_users (sv_db st') = update_where (\<lambda>x. us_ID x = us_ID u) (\<lambda>x. x\<lparr>us_PasswordHash := hash\<rparr>) (db_users (sv_db st))) \<or>
    db_users (sv_db st) = [] \<and> public_path (hr_path r) \<and> (\<exists>u. db_users (sv_db st') = [u] \<and> us_Role u = ''admin'')"
proof (cases "route (served s env cap errText) env r")
  case None
  with assms(2) show ?thesis by (auto simp: Handler_def)
next
  case (Some x)
  then obtain ep vs where x: "route (served s env cap errText) env r = Some (ep, vs)" by (cases x) simp
  have "users_safe env ep" by (rule route_ep [OF x routes_users_safe])
  from serve_users [OF this assms(1), of vs] show ?thesis
    using assms(2) x route_public [OF x] by (auto simp: Handler_def own_password_def)
qed

theorem accounts_protected_witness:
  "db_users (sv_db (snd (Handler (served sample_server sample_http 4 (\<lambda>_. [])) sample_http
      (sample_request ''DELETE'' [''api'', ''users'', ''1''] (Some ''tok'') []) sample_site))) = db_users (sv_db sample_site)"
proof -
  let ?r = "sample_request ''DELETE'' [''api'', ''users'', ''1''] (Some ''tok'') []"
  let ?s = "served sample_server sample_http 4 (\<lambda>_. [])"
  have u: "current_user sample_http ?r sample_site =
      Some \<lparr>us_ID = ''2'', us_Username = ''bob'', us_PasswordHash = ''h:b'', us_Role = ''user'', us_CreatedAt = 1\<rparr>"
    by (simp add: sample_site_defs current_user_def session_user_def nanos_per_second_def)
  have st: "Handler ?s sample_http ?r sample_site = (forbidden, sample_site)"
    using u by (simp add: Handler_def route_def route_method_def route_tables adminMiddleware_eq sample_request_def served_def)
  show ?thesis
    using accounts_protected [of sample_http ?r sample_site sample_server 4 "\<lambda>_. []" forbidden sample_site] u st by auto
qed

end
