(* ===== verification/Log_Session.thy ===== *)
theory Log_Session
  imports Log_Access
begin

text \<open>
  Further properties of the HTTP server: the life of a session from the login to the logout, sequences of requests, the
  routes, and the files of workflows.
\<close>

section \<open>Sessions\<close>

lemma find_key_distinct:
  "distinct (map key rows) \<Longrightarrow> x \<in> set rows \<Longrightarrow> find (\<lambda>r. key r = key x) rows = Some x"
  by (induction rows) auto

lemma open_session_opens:
  assumes "open_session env alive uid name role st = (resp, st')" "rs_status resp = 200"
  obtains token where "he_token env = Some token" "rs_cookie resp = Some (SessionCookie token)"
    "db_users (sv_db st') = db_users (sv_db st)"
    "find (\<lambda>se. se_Token se = token) (db_sessions (sv_db st')) =
       Some \<lparr>se_Token = token, se_UserID = uid, se_ExpiresAt = whole_seconds (he_now env 1 + sessionLifetime)\<rparr>"
  using assms
  by (auto simp: open_session_def store_call_def CreateSession_def exec_def errorJSON_def writeJSON_def setSessionCookie_def
      find_append find_no_key split: option.splits if_splits prod.splits)

lemma open_session_fails:
  assumes "open_session env alive uid name role st = (resp, st')" "rs_status resp \<noteq> 200"
  shows "st' = st"
  using assms
  by (auto simp: open_session_def store_call_def CreateSession_def exec_def errorJSON_def writeJSON_def setSessionCookie_def
      split: option.splits if_splits prod.splits)

lemma handleLogin_ok_cases:
  assumes "handleLogin env r st = (resp, st')" "rs_status resp = 200"
  obtains body username password u where "hr_body r = Some body" "he_credentials env body = Some (username, password)"
    "find (\<lambda>u. us_Username u = username) (db_users (sv_db st)) = Some u" "he_check env (us_PasswordHash u) password"
    "open_session env (hr_alive r 1) (us_ID u) (us_Username u) (us_Role u) st = (resp, st')"
  using assms
  by (auto simp: handleLogin_def decode_def GetUserByUsername_def query_user_def errorJSON_def writeJSON_def
      split: option.splits if_splits sum.splits prod.splits)

lemma handleLogin_fails:
  assumes "handleLogin env r st = (resp, st')" "rs_status resp \<noteq> 200"
  shows "st' = st"
  using assms open_session_fails
  by (fastforce simp: handleLogin_def split: option.splits if_splits sum.splits prod.splits)

lemma login_route:
  assumes "hr_method r = ''POST''" "hr_path r = [''api'', ''auth'', ''login'']"
  shows "Handler s env r st = handleLogin env r st"
  using assms by (simp add: Handler_def route_def route_method_def route_tables)

lemma logout_route:
  assumes "hr_method r = ''POST''" "hr_path r = [''api'', ''auth'', ''logout'']"
  shows "Handler s env r st = authMiddleware env handleLogout r st"
  using assms by (simp add: Handler_def route_def route_method_def route_tables)

lemma find_deleted: "find (\<lambda>x. key x = k) (delete_where (\<lambda>x. key x = k) rows) = None"
  by (simp add: delete_where_def find_None_iff)

lemma logout_ends:
  assumes "Handler s env r st = (resp, st')" "hr_method r = ''POST''" "hr_path r = [''api'', ''auth'', ''logout'']"
    "hr_cookie r = Some token" "\<forall>k. hr_alive r k"
  shows "session_user now token (sv_db st') = None"
proof -
  have "find (\<lambda>se. se_Token se = token) (db_sessions (sv_db st')) = None \<or> session_user now token (sv_db st') = None"
    if "current_user env r st = Some u" for u
    using assms that
    by (auto simp: logout_route authMiddleware_eq handleLogout_def store_call_def DeleteSession_def exec_def find_deleted)
  moreover have "session_user now token (sv_db (drop_expired env r st)) = None" if "current_user env r st = None"
    using that assms(4,5)
    by (auto simp: current_user_def drop_expired_def session_user_def find_deleted split: option.splits if_splits)
  ultimately show ?thesis
    using assms by (cases "current_user env r st") (auto simp: logout_route authMiddleware_eq session_user_def)
qed

text \<open>
  C15. A login that fails changes nothing. One that succeeds had the password of a user, and gives a cookie whose token is accepted
  as that user for seven days (in whole seconds) and not longer, and not after a logout with it.
\<close>

theorem login_session:
  assumes ok: "db_ok fk (sv_db st)"
    and login: "hr_method r = ''POST''" "hr_path r = [''api'', ''auth'', ''login'']"
    and res: "Handler (served s env cap errText) env r st = (resp, st')"
  shows "(rs_status resp \<noteq> 200 \<longrightarrow> st' = st) \<and>
    (rs_status resp = 200 \<longrightarrow>
      (\<exists>body username password u token.
         hr_body r = Some body \<and> he_credentials env body = Some (username, password) \<and>
         u \<in> set (db_users (sv_db st)) \<and> us_Username u = username \<and> he_check env (us_PasswordHash u) password \<and>
         rs_cookie resp = Some (SessionCookie token) \<and>
         (\<forall>env2 r2. hr_cookie r2 = Some token \<and> (\<forall>k. hr_alive r2 k) \<longrightarrow>
            current_user env2 r2 st' = (if he_now env2 0 \<le> whole_seconds (he_now env 1 + sessionLifetime) then Some u else None)) \<and>
         (\<forall>env2 r2 resp2 st2 now. hr_method r2 = ''POST'' \<and> hr_path r2 = [''api'', ''auth'', ''logout''] \<and>
            hr_cookie r2 = Some token \<and> (\<forall>k. hr_alive r2 k) \<and>
            Handler (served s env2 cap errText) env2 r2 st' = (resp2, st2) \<longrightarrow> session_user now token (sv_db st2) = None)))"
proof (cases "rs_status resp = 200")
  case False
  with res show ?thesis by (auto simp: login_route [OF login] dest: handleLogin_fails)
next
  case True
  have h: "handleLogin env r st = (resp, st')"
    using res by (simp add: login_route [OF login])
  obtain body username password u where
    b: "hr_body r = Some body" "he_credentials env body = Some (username, password)" and
    u: "find (\<lambda>u. us_Username u = username) (db_users (sv_db st)) = Some u" "he_check env (us_PasswordHash u) password" and
    o: "open_session env (hr_alive r 1) (us_ID u) (us_Username u) (us_Role u) st = (resp, st')"
    by (rule handleLogin_ok_cases [OF h True])
  obtain token where t: "rs_cookie resp = Some (SessionCookie token)" "db_users (sv_db st') = db_users (sv_db st)"
    "find (\<lambda>se. se_Token se = token) (db_sessions (sv_db st')) =
       Some \<lparr>se_Token = token, se_UserID = us_ID u, se_ExpiresAt = whole_seconds (he_now env 1 + sessionLifetime)\<rparr>"
    by (rule open_session_opens [OF o True])
  have mem: "u \<in> set (db_users (sv_db st))" "us_Username u = username"
    using u(1) by (auto simp: find_Some_iff)
  have "find (\<lambda>x. us_ID x = us_ID u) (db_users (sv_db st)) = Some u"
    using ok mem(1) by (auto simp: db_ok_defs intro: find_key_distinct)
  then have "current_user env2 r2 st' = (if he_now env2 0 \<le> whole_seconds (he_now env 1 + sessionLifetime) then Some u else None)"
    if "hr_cookie r2 = Some token" "\<forall>k. hr_alive r2 k" for env2 r2
    using that t(2,3) by (simp add: current_user_def session_user_def)
  with b u(2) mem t(1) True logout_ends show ?thesis by blast
qed

theorem login_session_witness:
  "current_user sample_http (sample_request ''GET'' [''api'', ''me''] (Some ''fresh'') [])
     (snd (Handler (served sample_server sample_http 4 (\<lambda>_. [])) sample_http
        (sample_request ''POST'' [''api'', ''auth'', ''login''] None ''b'') sample_site)) =
   Some \<lparr>us_ID = ''2'', us_Username = ''bob'', us_PasswordHash = ''h:b'', us_Role = ''user'', us_CreatedAt = 1\<rparr>"
proof -
  let ?r = "sample_request ''POST'' [''api'', ''auth'', ''login''] None ''b''" and ?s = "served sample_server sample_http 4 (\<lambda>_. [])"
  let ?q = "sample_request ''GET'' [''api'', ''me''] (Some ''fresh'') []"
  obtain resp st' where h: "Handler ?s sample_http ?r sample_site = (resp, st')" by force
  have m: "hr_method ?r = ''POST''" "hr_path ?r = [''api'', ''auth'', ''login'']" by (simp_all add: sample_request_def)
  have "handleLogin sample_http ?r sample_site = (resp, st')"
    using h by (simp add: login_route [OF m])
  then have ok: "rs_status resp = 200" "rs_cookie resp = Some (SessionCookie ''fresh'')"
    by (auto simp: handleLogin_def open_session_def sample_site_defs decode_def GetUserByUsername_def
        query_user_def store_call_def CreateSession_def exec_def has_key_def setSessionCookie_def writeJSON_def)
  from login_session [OF sample_site_ok m h] ok obtain u where
    u: "us_Username u = ''bob''" "u \<in> set (db_users (sv_db sample_site))" and
    c: "\<forall>env2 r2. hr_cookie r2 = Some ''fresh'' \<and> (\<forall>k. hr_alive r2 k) \<longrightarrow> current_user env2 r2 st' =
          (if he_now env2 0 \<le> whole_seconds (he_now sample_http 1 + sessionLifetime) then Some u else None)"
    by (auto simp: sample_http_def)
  have q: "hr_cookie ?q = Some ''fresh'' \<and> (\<forall>k. hr_alive ?q k)"
    "he_now sample_http 0 \<le> whole_seconds (he_now sample_http 1 + sessionLifetime)"
    by (simp_all add: sample_request_def sample_http_def whole_seconds_def sessionLifetime_def nanos_per_second_def)
  from u have "u = \<lparr>us_ID = ''2'', us_Username = ''bob'', us_PasswordHash = ''h:b'', us_Role = ''user'', us_CreatedAt = 1\<rparr>"
    by (auto simp: sample_site_defs)
  with c q h show ?thesis by simp
qed

section \<open>Sequences of requests\<close>

text \<open>A sequence of requests, each in its own environment.\<close>

definition serve_all :: "Server \<Rightarrow> nat \<Rightarrow> (control_error \<Rightarrow> string) \<Rightarrow> (http_env \<times> request) list \<Rightarrow> server_state \<Rightarrow> server_state" where
  "serve_all s cap errText reqs st = fold (\<lambda>(env, r) st. snd (Handler (served s env cap errText) env r st)) reqs st"



section \<open>Routes\<close>

text \<open>Two patterns that some path may match.\<close>

fun overlap :: "seg list \<Rightarrow> seg list \<Rightarrow> bool" where
  "overlap [] [] = True"
| "overlap (Lit a # ps) (Lit b # qs) = (a = b \<and> overlap ps qs)"
| "overlap (Lit a # ps) (Wild # qs) = overlap ps qs"
| "overlap (Wild # ps) (q # qs) = overlap ps qs"
| "overlap _ _ = False"

lemma match_path_Wild:
  "match_path (Wild # ps) path = Some vs \<longleftrightarrow> (\<exists>x xs vs'. path = x # xs \<and> x \<noteq> [] \<and> match_path ps xs = Some vs' \<and> vs = x # vs')"
  by (cases path) auto

lemma match_overlap: "match_path p path = Some vs \<Longrightarrow> match_path q path = Some vs' \<Longrightarrow> overlap p q"
proof (induction p q arbitrary: path vs vs' rule: overlap.induct)
  case (4 ps q qs)
  then show ?case by (cases q) (fastforce simp: match_path_Lit match_path_Wild)+
qed (fastforce simp: match_path_Lit match_path_Wild match_path_Nil)+

lemma routes_apart: "sorted_wrt (\<lambda>(m, p, _) (m', p', _). m = m' \<longrightarrow> \<not> overlap p p') (routes s env)"
proof -
  define keys where "keys = map (\<lambda>(m, p, _). (m, p)) (routes s env)"
  have "sorted_wrt (\<lambda>(m, p) (m', p'). m = m' \<longrightarrow> \<not> overlap p p') keys"
    unfolding keys_def route_tables by code_simp
  then show ?thesis
    by (simp add: keys_def sorted_wrt_map case_prod_unfold)
qed

text \<open>A request matches at most one route, so that the order of the registrations does not matter.\<close>

lemma routes_unambiguous:
  assumes "i < j" "j < length (routes s env)" "routes s env ! i = (m, p, ep)" "routes s env ! j = (m, p', ep')"
    and "match_path p path = Some vs"
  shows "match_path p' path = None"
proof (rule ccontr)
  assume "match_path p' path \<noteq> None"
  then obtain vs' where "match_path p' path = Some vs'" by blast
  with assms(5) have "overlap p p'" by (rule match_overlap)
  with sorted_wrt_nth_less [OF routes_apart assms(1,2)] assms(3,4) show False by simp
qed

section \<open>The files of workflows\<close>

text \<open>
  The content of a workflow that a user has put is what the next request gets, and a put changes no other file and nothing in
  the store.
\<close>

lemma workflow_content_roundtrip:
  assumes put: "hr_method r = ''PUT''" "hr_path r = [''api'', ''projects'', p, ''workflows'', w, ''content'']"
    and res: "Handler (served s env cap errText) env r st = (resp, st')" "rs_status resp = 200"
    and get: "hr_method r2 = ''GET''" "hr_path r2 = hr_path r" "hr_cookie r2 = hr_cookie r" "\<forall>k. hr_alive r2 k"
    and named: "p \<noteq> []" "w \<noteq> []" and readable: "\<forall>f. he_readable env f"
  shows "(\<exists>body. hr_body r = Some body \<and> Handler (served s env cap errText) env r2 st' = (writeJSON 200 (PText body), st')) \<and>
    sv_db st' = sv_db st \<and> (\<exists>wfPath. \<forall>f. f \<noteq> wfPath \<longrightarrow> map_of (sv_fs st') f = map_of (sv_fs st) f)"
proof -
  have h: "authMiddleware env (\<lambda>_. handlePutWorkflowContent env p w) r st = (resp, st')"
    using res(1) put named by (simp add: Handler_def route_def route_method_def route_tables)
  then obtain u where u: "current_user env r st = Some u" and h2: "handlePutWorkflowContent env p w r st = (resp, st')"
    using res(2) by (cases "current_user env r st") (auto simp: authMiddleware_eq errorJSON_def writeJSON_def)
  then obtain wfPath body where b: "workflow_path_of env p w r st = Inr wfPath" "hr_body r = Some body"
      "st' = st\<lparr>sv_fs := mput wfPath body (sv_fs st)\<rparr>"
    using res(2)
    by (fastforce simp: handlePutWorkflowContent_def workflow_path_of_def errorJSON_def writeJSON_def
        split: sum.splits option.splits if_splits)
  have al: "hr_alive r 2"
    using b(1) by (auto simp: workflow_path_of_def GetProject_def query_row_def split: if_splits)
  have "workflow_path_of env p w r2 st' = Inr wfPath"
    using b(1,3) al get(4) by (simp add: workflow_path_of_def)
  moreover have "current_user env r2 st' = Some u"
    using u get(3,4) b(3) by (auto simp: current_user_def split: option.splits if_splits)
  ultimately have "Handler (served s env cap errText) env r2 st' = (writeJSON 200 (PText body), st')"
    using get(1,2) put named readable b(3)
    by (simp add: Handler_def route_def route_method_def route_tables authMiddleware_eq handleGetWorkflowContent_def)
  with b show ?thesis by auto
qed

lemma workflow_content_roundtrip_witness:
  "\<exists>st'. Handler (served sample_server sample_http 4 (\<lambda>_. [])) sample_http
       (sample_request ''GET'' [''api'', ''projects'', ''ci'', ''workflows'', ''build'', ''content''] (Some ''tok'') []) st' =
     (writeJSON 200 (PText ''on: push''), st') \<and> sv_db st' = sv_db sample_site"
proof -
  let ?path = "[''api'', ''projects'', ''ci'', ''workflows'', ''build'', ''content'']"
  let ?r = "sample_request ''PUT'' ?path (Some ''tok'') ''on: push''" and ?s = "served sample_server sample_http 4 (\<lambda>_. [])"
  obtain resp st' where h: "Handler ?s sample_http ?r sample_site = (resp, st')" by force
  then have "rs_status resp = 200"
    by (auto simp: Handler_def route_def route_method_def route_tables authMiddleware_eq sample_site_defs current_user_def
        session_user_def nanos_per_second_def handlePutWorkflowContent_def workflow_path_of_def GetProject_def query_row_def
        load_project_def loadProjectWorkflows_def scanWorkflow_def writeJSON_def)
  from workflow_content_roundtrip [OF _ _ h this, of "''ci''" "''build''" "sample_request ''GET'' ?path (Some ''tok'') []"]
  show ?thesis
    by (auto simp: sample_request_def sample_http_def)
qed

end
