(* ===== verification/Accounts.thy ===== *)
theory Accounts
  imports Log_Session
begin

text \<open>
  Passwords, tokens and identifiers (\<open>internal/auth/auth.go\<close>, and the functions \<open>generateID\<close>, \<open>generateStoreID\<close> and \<open>newRunID\<close>, which are
  the same up to the number of bytes). The hash function of \<open>bcrypt\<close> is a parameter, and so are the bytes that
  \<open>crypto/rand\<close> gives; \<open>None\<close> is its failure.
\<close>

record bcrypt =
  bc_generate :: "string \<Rightarrow> int \<Rightarrow> string option"
  bc_compare :: "string \<Rightarrow> string \<Rightarrow> bool"

definition HashPassword :: "bcrypt \<Rightarrow> string \<Rightarrow> string option" where
  "HashPassword bc password = bc_generate bc password 12"

definition CheckPassword :: "bcrypt \<Rightarrow> string \<Rightarrow> string \<Rightarrow> bool" where
  "CheckPassword bc hash password = bc_compare bc hash password"

text \<open>\<open>hex.EncodeToString\<close>\<close>

definition hex_char :: "nat \<Rightarrow> char" where
  "hex_char n = ''0123456789abcdef'' ! n"

definition EncodeToString :: "string \<Rightarrow> string" where
  "EncodeToString bytes = concat (map (\<lambda>c. [hex_char (of_char c div 16), hex_char (of_char c mod 16)]) bytes)"

definition GenerateToken :: "string option \<Rightarrow> string option" where
  "GenerateToken random = map_option EncodeToString random"

text \<open>The error of \<open>rand.Read\<close> is ignored, and the buffer keeps its zeros.\<close>

definition random_id :: "nat \<Rightarrow> string option \<Rightarrow> string" where
  "random_id n random = EncodeToString (case random of Some bytes \<Rightarrow> bytes | None \<Rightarrow> replicate n (CHR 0x00))"

definition generateID :: "string option \<Rightarrow> string" where
  "generateID random = random_id 16 random"

definition newRunID :: "string option \<Rightarrow> string" where
  "newRunID random = random_id 8 random"

section \<open>Identifiers\<close>

definition is_hex :: "char \<Rightarrow> bool" where
  "is_hex c \<longleftrightarrow> c \<in> set ''0123456789abcdef''"

lemma hex_char_inject: "m < 16 \<Longrightarrow> n < 16 \<Longrightarrow> hex_char m = hex_char n \<longleftrightarrow> m = n"
proof -
  assume "m < 16" "n < 16"
  moreover have "distinct ''0123456789abcdef''" "length ''0123456789abcdef'' = 16" by simp_all
  ultimately show ?thesis unfolding hex_char_def by (metis nth_eq_iff_index_eq)
qed

lemma hex_char_is_hex: "n < 16 \<Longrightarrow> is_hex (hex_char n)"
proof -
  assume "n < 16"
  moreover have "length ''0123456789abcdef'' = 16" by simp
  ultimately show ?thesis unfolding is_hex_def hex_char_def by (metis nth_mem)
qed

lemma of_char_lt: "(of_char c :: nat) < 256"
  by (rule nat_of_char_less_256)

lemma EncodeToString_hex: "c \<in> set (EncodeToString bytes) \<Longrightarrow> is_hex c"
proof -
  assume "c \<in> set (EncodeToString bytes)"
  then obtain b :: char where b: "c = hex_char (of_char b div 16) \<or> c = hex_char (of_char b mod 16)"
    unfolding EncodeToString_def by auto
  have "(of_char b :: nat) div 16 < 16" "(of_char b :: nat) mod 16 < 16" using of_char_lt [of b] by (simp_all add: div_less_iff_less_mult)
  with b hex_char_is_hex show ?thesis by blast
qed

lemma EncodeToString_length: "length (EncodeToString bytes) = 2 * length bytes"
  by (induction bytes) (simp_all add: EncodeToString_def)

lemma hex_byte_inject:
  "hex_char (of_char a div 16) = hex_char (of_char b div 16) \<Longrightarrow> hex_char (of_char a mod 16) = hex_char (of_char b mod 16) \<Longrightarrow> a = b"
proof -
  assume h: "hex_char (of_char a div 16) = hex_char (of_char b div 16)" "hex_char (of_char a mod 16) = hex_char (of_char b mod 16)"
  have "(of_char a :: nat) div 16 < 16" "(of_char b :: nat) div 16 < 16" using of_char_lt [of a] of_char_lt [of b] by (simp_all add: div_less_iff_less_mult)
  then have "(of_char a :: nat) div 16 = of_char b div 16" "(of_char a :: nat) mod 16 = of_char b mod 16"
    using h hex_char_inject by auto
  then have "(of_char a :: nat) = of_char b" by (metis div_mult_mod_eq)
  then show ?thesis by (simp add: of_char_eq_iff)
qed

lemma EncodeToString_inject: "EncodeToString a = EncodeToString b \<longleftrightarrow> a = b"
proof
  show "EncodeToString a = EncodeToString b \<Longrightarrow> a = b"
  proof (induction a arbitrary: b)
    case Nil
    then show ?case using EncodeToString_length [of b] EncodeToString_length [of "[]"] by simp
  next
    case (Cons x a)
    then obtain y b' where b: "b = y # b'"
      using EncodeToString_length [of b] EncodeToString_length [of "x # a"] by (cases b) auto
    then have "hex_char (of_char x div 16) = hex_char (of_char y div 16)" "hex_char (of_char x mod 16) = hex_char (of_char y mod 16)"
      "EncodeToString a = EncodeToString b'" using Cons.prems by (simp_all add: EncodeToString_def)
    then show ?case using b hex_byte_inject Cons.IH by blast
  qed
qed simp

lemma hex_plain: "c \<in> set s \<Longrightarrow> is_hex c \<Longrightarrow> c \<noteq> CHR ''/'' \<and> c \<noteq> CHR ''.''"
  by (auto simp: is_hex_def)

lemma log_name_plain:
  assumes "bytes \<noteq> []"
  shows "plain (EncodeToString bytes @ ''.log'')"
proof -
  have "CHR ''/'' \<notin> set (EncodeToString bytes)"
    using EncodeToString_hex hex_plain by blast
  moreover have "length (EncodeToString bytes @ ''.log'') > 2" by simp
  then have "EncodeToString bytes @ ''.log'' \<noteq> ''.''" "EncodeToString bytes @ ''.log'' \<noteq> ''..''" by auto
  ultimately show ?thesis by (simp add: plain_def)
qed



section \<open>New users\<close>

definition with_bcrypt :: "bcrypt \<Rightarrow> http_env \<Rightarrow> http_env" where
  "with_bcrypt bc env = env\<lparr>he_hash := HashPassword bc, he_check := CheckPassword bc\<rparr>"

lemma create_user_route:
  assumes "hr_method r = ''POST''" "hr_path r = [''api'', ''users'']"
  shows "Handler s env r st = adminMiddleware env (handleCreateAPIUser env) r st"
  using assms by (simp add: Handler_def route_def route_method_def route_tables)

lemma finish_call_success: "finish_call env call ok st = (resp, st') \<Longrightarrow> rs_status resp \<noteq> 500 \<Longrightarrow> store_call call st = (None, st')"
  unfolding finish_call_def by (auto simp: errorJSON_def writeJSON_def split: prod.splits option.splits)

lemma handleCreateAPIUser_created:
  assumes res: "handleCreateAPIUser env u r st = (resp, st')" "rs_status resp = 201"
    and body: "hr_body r = Some body" "he_newUser env body = Some (username, password, role)"
  shows "\<exists>hash. he_hash env password = Some hash \<and> \<not> has_key us_Username username (db_users (sv_db st)) \<and>
    db_users (sv_db st') = db_users (sv_db st) @ [\<lparr>us_ID = he_newID env 0, us_Username = username, us_PasswordHash = hash,
       us_Role = (if role = [] then ''user'' else role), us_CreatedAt = he_now env 2\<rparr>]"
proof -
  have given: "\<not> (username = [] \<or> password = [])"
    using res body unfolding handleCreateAPIUser_def decode_def by (cases "username = [] \<or> password = []") (auto simp: errorJSON_def writeJSON_def)
  obtain hash where hash: "he_hash env password = Some hash"
    using res body given unfolding handleCreateAPIUser_def decode_def by (cases "he_hash env password") (auto simp: errorJSON_def writeJSON_def)
  define role' where "role' = (if role = [] then ''user'' else role)"
  have f: "finish_call env (CreateUser (hr_alive r 2) (he_now env 2) (he_newID env 0) username hash role')
      (\<lambda>st'. writeJSON 201 (PUser (case GetUserByID (hr_alive r 3) (he_newID env 0) (sv_db st') of
         Inl _ \<Rightarrow> None | Inr u \<Rightarrow> map_option view_user u))) st = (resp, st')"
    using res(1) given unfolding handleCreateAPIUser_def decode_def role'_def by (simp add: body hash split del: if_split)
  have c: "store_call (CreateUser (hr_alive r 2) (he_now env 2) (he_newID env 0) username hash role') st = (None, st')"
    by (rule finish_call_success [OF f]) (simp add: res(2))
  have "\<not> has_key us_Username username (db_users (sv_db st)) \<and>
    db_users (sv_db st') = db_users (sv_db st) @ [\<lparr>us_ID = he_newID env 0, us_Username = username, us_PasswordHash = hash,
       us_Role = role', us_CreatedAt = he_now env 2\<rparr>]"
    using c by (auto simp: store_call_def CreateUser_def exec_def split: if_splits)
  then show ?thesis using hash unfolding role'_def by blast
qed

lemma open_session_succeeds:
  assumes "he_token env = Some token" "\<not> has_key se_Token token (db_sessions (sv_db st))" "has_key us_ID uid (db_users (sv_db st))"
  shows "fst (open_session env True uid name role st) =
    setSessionCookie token (writeJSON 200 (PStrings [(''username'', name), (''role'', role)]))"
  using assms by (simp add: open_session_def store_call_def CreateSession_def exec_def)


definition marking_bcrypt :: bcrypt where
  "marking_bcrypt = \<lparr>bc_generate = (\<lambda>p c. Some (''h:'' @ p)), bc_compare = (\<lambda>h p. h = ''h:'' @ p)\<rparr>"

definition admin_site :: server_state where
  "admin_site = sample_site\<lparr>sv_db := (sv_db sample_site)\<lparr>db_sessions := [\<lparr>se_Token = ''adm'', se_UserID = ''1'',
     se_ExpiresAt = 5000 * nanos_per_second\<rparr>]\<rparr>\<rparr>"


end
