(* ===== verification/Start_Up.thy ===== *)
theory Start_Up
  imports Daemon_Correct "HOL-Library.Multiset"
begin

text \<open>
  From the configuration to the poller: what \<open>seedWatchesFromConfig\<close> stores is what the provider of watches reads back. The
  random identifiers of the rows are arguments; that they are distinct is part of the success of the insertions.
\<close>

section \<open>The rows of a project\<close>

lemma insort_key_map: "insort_key f (g x) (map g xs) = map g (insort_key (\<lambda>y. f (g y)) x xs)"
  by (induction xs) auto

lemma sort_key_map: "sort_key f (map g xs) = map g (sort_key (\<lambda>y. f (g y)) xs)"
  by (induction xs) (auto simp: insort_key_map)

definition json_ok :: "jsonlib \<Rightarrow> bool" where
  "json_ok js \<longleftrightarrow> (\<forall>m. js_unmap js (js_map js m) = Some m) \<and> (\<forall>xs. js_unlist js (js_list js xs) = Some xs)"

lemma scan_workflow_row: "json_ok js \<Longrightarrow> scanWorkflow js (workflow_to_row js w) = w"
  by (simp add: json_ok_def scanWorkflow_def workflow_to_row_def null_if_empty_def coalesce_def)

lemma scan_trigger_row: "json_ok js \<Longrightarrow> scanTrigger js (trigger_to_row js t) = t"
  by (simp add: json_ok_def scanTrigger_def trigger_to_row_def null_if_empty_def null_if_zero_def coalesce_def)

text \<open>The tables other than the one that an insertion extends.\<close>

definition other_tables :: "DB \<Rightarrow> (string \<times> string) list \<times> bool" where
  "other_tables db = (db_projects db, db_fk db)"

lemma insert_workflows_rows:
  assumes "insert_workflows True js ids k name ws db = (None, k', db')"
  shows "\<exists>vs. db_workflows db' = db_workflows db @ map (workflow_to_row js) vs \<and> db_triggers db' = db_triggers db \<and>
    other_tables db' = other_tables db \<and> map (dw_ID_update (\<lambda>_. [])) vs = map (\<lambda>w. w\<lparr>dw_ProjectName := name, dw_ID := []\<rparr>) ws"
  using assms
proof (induction ws arbitrary: k db)
  case (Cons w ws)
  from Cons.prems obtain v d j where ins: "insertWorkflow True js v db = (None, d)"
    and rest: "insert_workflows True js ids j name ws d = (None, k', db')"
    and v: "v\<lparr>dw_ID := []\<rparr> = w\<lparr>dw_ProjectName := name, dw_ID := []\<rparr>"
    by (auto simp: Let_def split: prod.splits option.splits if_splits)
  have d: "db_workflows d = db_workflows db @ [workflow_to_row js v]" "db_triggers d = db_triggers db" "other_tables d = other_tables db"
    using ins by (auto simp: insertWorkflow_def exec_def other_tables_def split: if_splits)
  from Cons.IH [OF rest] obtain vs where "db_workflows db' = db_workflows d @ map (workflow_to_row js) vs"
    "db_triggers db' = db_triggers d" "other_tables db' = other_tables d"
    "map (dw_ID_update (\<lambda>_. [])) vs = map (\<lambda>w. w\<lparr>dw_ProjectName := name, dw_ID := []\<rparr>) ws" by blast
  with d v show ?case by (intro exI [of _ "v # vs"]) simp
qed simp

lemma insert_triggers_rows:
  assumes "insert_triggers True js ids k name ts db = (None, k', db')"
  shows "\<exists>us. db_triggers db' = db_triggers db @ map (trigger_to_row js) us \<and> db_workflows db' = db_workflows db \<and>
    other_tables db' = other_tables db \<and> map (dt_ID_update (\<lambda>_. [])) us = map (\<lambda>t. t\<lparr>dt_ProjectName := name, dt_ID := []\<rparr>) ts"
  using assms
proof (induction ts arbitrary: k db)
  case (Cons t ts)
  from Cons.prems obtain u d j where ins: "insertTrigger True js u db = (None, d)"
    and rest: "insert_triggers True js ids j name ts d = (None, k', db')"
    and u: "u\<lparr>dt_ID := []\<rparr> = t\<lparr>dt_ProjectName := name, dt_ID := []\<rparr>"
    by (auto simp: Let_def split: prod.splits option.splits if_splits)
  have d: "db_triggers d = db_triggers db @ [trigger_to_row js u]" "db_workflows d = db_workflows db" "other_tables d = other_tables db"
    using ins by (auto simp: insertTrigger_def exec_def other_tables_def split: if_splits)
  from Cons.IH [OF rest] obtain us where "db_triggers db' = db_triggers d @ map (trigger_to_row js) us"
    "db_workflows db' = db_workflows d" "other_tables db' = other_tables d"
    "map (dt_ID_update (\<lambda>_. [])) us = map (\<lambda>t. t\<lparr>dt_ProjectName := name, dt_ID := []\<rparr>) ts" by blast
  with d u show ?case by (intro exI [of _ "u # us"]) simp
qed simp

text \<open>\<open>stored js db p\<close>: the rows of the project \<open>p\<close>, up to their identifiers.\<close>

definition stored :: "jsonlib \<Rightarrow> DB \<Rightarrow> Project \<Rightarrow> bool" where
  "stored js db p \<longleftrightarrow>
     (\<exists>vs us. filter (\<lambda>r. wr_project_name r = pj_Name p) (db_workflows db) = map (workflow_to_row js) vs \<and>
        map workflow_to_ref vs = pj_Workflows p \<and>
        filter (\<lambda>r. tr_project_name r = pj_Name p) (db_triggers db) = map (trigger_to_row js) us \<and>
        map (dt_ID_update (\<lambda>_. [])) us = map (trigger_to_db (pj_Name p)) (pj_Triggers p))"

definition seeded :: "jsonlib \<Rightarrow> DB \<Rightarrow> Project list \<Rightarrow> bool" where
  "seeded js db ps \<longleftrightarrow>
     db_projects db = map (\<lambda>p. (pj_Name p, [])) ps \<and> distinct (map pj_Name ps) \<and> list_all (stored js db) ps \<and>
     wr_project_name ` set (db_workflows db) \<subseteq> pj_Name ` set ps \<and> tr_project_name ` set (db_triggers db) \<subseteq> pj_Name ` set ps"

lemma erase_ref: "v\<lparr>dw_ID := []\<rparr> = w \<Longrightarrow> workflow_to_ref v = workflow_to_ref w"
  by (auto simp: workflow_to_ref_def)

lemma workflow_ref_back: "workflow_to_ref ((ref_to_workflow n ref)\<lparr>dw_ProjectName := m, dw_ID := i\<rparr>) = ref"
  by (simp add: workflow_to_ref_def ref_to_workflow_def)

lemma map_erase_refs:
  assumes "map (dw_ID_update (\<lambda>_. [])) vs = map (\<lambda>w. w\<lparr>dw_ProjectName := name, dw_ID := []\<rparr>) (map (ref_to_workflow n) refs)"
  shows "map workflow_to_ref vs = refs" "\<forall>v \<in> set vs. dw_ProjectName v = name"
proof -
  have "map workflow_to_ref vs = map (\<lambda>v. workflow_to_ref (v\<lparr>dw_ID := []\<rparr>)) vs" by (simp add: workflow_to_ref_def)
  also have "\<dots> = map workflow_to_ref (map (dw_ID_update (\<lambda>_. [])) vs)" by simp
  also have "\<dots> = map (\<lambda>x. x) refs" unfolding assms by (simp add: comp_def workflow_ref_back)
  finally show "map workflow_to_ref vs = refs" by simp
  have "dw_ProjectName v = name" if "v \<in> set vs" for v
  proof -
    have "v\<lparr>dw_ID := []\<rparr> \<in> set (map (dw_ID_update (\<lambda>_. [])) vs)" using that by simp
    then show ?thesis unfolding assms by auto (metis DBWorkflow.select_convs(2) DBWorkflow.surjective DBWorkflow.update_convs(1,2))
  qed
  then show "\<forall>v \<in> set vs. dw_ProjectName v = name" by blast
qed

lemma map_erase_triggers:
  assumes "map (dt_ID_update (\<lambda>_. [])) us = map (\<lambda>t. t\<lparr>dt_ProjectName := name, dt_ID := []\<rparr>) (map (trigger_to_db name) ts)"
  shows "map (dt_ID_update (\<lambda>_. [])) us = map (trigger_to_db name) ts" "\<forall>u \<in> set us. dt_ProjectName u = name"
proof -
  show e: "map (dt_ID_update (\<lambda>_. [])) us = map (trigger_to_db name) ts"
    unfolding assms by (simp add: trigger_to_db_def)
  have "dt_ProjectName u = name" if "u \<in> set us" for u
  proof -
    have "u\<lparr>dt_ID := []\<rparr> \<in> set (map (dt_ID_update (\<lambda>_. [])) us)" using that by simp
    then obtain t where "u\<lparr>dt_ID := []\<rparr> = trigger_to_db name t" unfolding e by auto
    then have "dt_ProjectName (u\<lparr>dt_ID := []\<rparr>) = dt_ProjectName (trigger_to_db name t)" by (rule arg_cong)
    then show ?thesis by (simp add: trigger_to_db_def)
  qed
  then show "\<forall>u \<in> set us. dt_ProjectName u = name" by blast
qed

lemma CreateProject_seeds:
  assumes "seeded js db ps" "CreateProject True js ids (project_to_db p) db = (None, db')"
  shows "seeded js db' (ps @ [p])"
proof -
  let ?n = "pj_Name p"
  have fields: "dp_Name (project_to_db p) = ?n" "dp_Description (project_to_db p) = []"
    "dp_Workflows (project_to_db p) = map (ref_to_workflow ?n) (pj_Workflows p)"
    "dp_Triggers (project_to_db p) = map (trigger_to_db ?n) (pj_Triggers p)"
    by (simp_all add: project_to_db_def)
  let ?db1 = "db\<lparr>db_projects := db_projects db @ [(?n, [])]\<rparr>"
  from assms(2) obtain k db2 j where free: "\<not> has_key fst ?n (db_projects db)"
    and ws: "insert_workflows True js ids 0 ?n (map (ref_to_workflow ?n) (pj_Workflows p)) ?db1 = (None, k, db2)"
    and ts: "insert_triggers True js ids k ?n (map (trigger_to_db ?n) (pj_Triggers p)) db2 = (None, j, db')"
    unfolding CreateProject_def fields by (auto simp: exec_def split: if_splits prod.splits option.splits)
  obtain vs where vs: "db_workflows db2 = db_workflows db @ map (workflow_to_row js) vs" "db_triggers db2 = db_triggers db"
    "other_tables db2 = other_tables ?db1" "map workflow_to_ref vs = pj_Workflows p" "\<forall>v \<in> set vs. dw_ProjectName v = ?n"
    using insert_workflows_rows [OF ws] map_erase_refs by fastforce
  obtain us where us: "db_triggers db' = db_triggers db2 @ map (trigger_to_row js) us" "db_workflows db' = db_workflows db2"
    "other_tables db' = other_tables db2" "map (dt_ID_update (\<lambda>_. [])) us = map (trigger_to_db ?n) (pj_Triggers p)"
    "\<forall>u \<in> set us. dt_ProjectName u = ?n"
    using insert_triggers_rows [OF ts] map_erase_triggers by fastforce
  have names: "\<forall>r \<in> set (map (workflow_to_row js) vs). wr_project_name r = ?n" "\<forall>r \<in> set (map (trigger_to_row js) us). tr_project_name r = ?n"
    using vs(5) us(5) by (auto simp: workflow_to_row_def trigger_to_row_def)
  have old: "?n \<notin> pj_Name ` set ps"
    using free assms(1) by (auto simp: has_key_iff seeded_def image_image)
  have "wr_project_name r \<noteq> ?n" if "r \<in> set (db_workflows db)" for r
    using assms(1) that old unfolding seeded_def by (metis imageI subsetD)
  moreover have "tr_project_name r \<noteq> ?n" if "r \<in> set (db_triggers db)" for r
    using assms(1) that old unfolding seeded_def by (metis imageI subsetD)
  ultimately have none: "filter (\<lambda>r. wr_project_name r = ?n) (db_workflows db) = []" "filter (\<lambda>r. tr_project_name r = ?n) (db_triggers db) = []"
    by (simp_all add: filter_empty_conv)
  have self: "stored js db' p"
    unfolding stored_def using vs(1,4) us(1,2,4) vs(2) none names
    by (intro exI [of _ vs] exI [of _ us]) (simp add: filter_id_conv)
  have others: "stored js db' q" if "q \<in> set ps" for q
  proof -
    have "pj_Name q \<noteq> ?n" using old that by (metis imageI)
    then have "filter (\<lambda>r. wr_project_name r = pj_Name q) (map (workflow_to_row js) vs) = []"
      "filter (\<lambda>r. tr_project_name r = pj_Name q) (map (trigger_to_row js) us) = []"
      using names by (auto simp: filter_empty_conv)
    moreover have "stored js db q" using assms(1) that by (simp add: seeded_def list_all_iff)
    ultimately show ?thesis using vs(1,2) us(1,2) by (simp add: stored_def)
  qed
  have "db_projects db' = db_projects db @ [(?n, [])]"
    using vs(3) us(3) by (simp add: other_tables_def)
  with assms(1) self others old vs(1,2) us(1,2) names show ?thesis
    by (auto simp: seeded_def list_all_iff)
qed

lemma seed_projects_seeds:
  "seed_projects True js ids n ps db = (None, db') \<Longrightarrow> seeded js db qs \<Longrightarrow> seeded js db' (qs @ ps)"
proof (induction ps arbitrary: n db qs)
  case (Cons p ps)
  from Cons.prems(1) obtain d where d: "CreateProject True js (ids n) (project_to_db p) db = (None, d)"
    "seed_projects True js ids (Suc n) ps d = (None, db')"
    by (auto split: prod.splits option.splits)
  from Cons.IH [OF d(2) CreateProject_seeds [OF Cons.prems(2) d(1)]] show ?case by simp
qed simp

section \<open>The watches that the poller gets\<close>

text \<open>The watches that the configuration asks for; the store orders the workflows of a project by name.\<close>

definition trigger_watch :: "Project \<Rightarrow> Trigger \<Rightarrow> Watch" where
  "trigger_watch p t =
     \<lparr>wa_Name = pj_Name p, wa_Repo = tr_Repo t, wa_PR = tr_PR t, wa_Branch = tr_Branch t,
      wa_Workflows = sort_key wr_Name (pj_Workflows p), wa_On = (if tr_On t = [] then [tr_Type t] else tr_On t)\<rparr>"

definition configured_watches :: "Config \<Rightarrow> Watch list" where
  "configured_watches cfg =
     concat (map (\<lambda>p. map (trigger_watch p) (filter (\<lambda>t. tr_Type t = ''push'' \<or> tr_Type t = ''pull_request'') (pj_Triggers p)))
       (EffectiveProjects cfg))"

lemma stored_workflows:
  assumes "json_ok js" "stored js db p"
  shows "map workflow_to_ref (loadProjectWorkflows js db (pj_Name p)) = sort_key wr_Name (pj_Workflows p)"
proof -
  obtain vs where vs: "filter (\<lambda>r. wr_project_name r = pj_Name p) (db_workflows db) = map (workflow_to_row js) vs"
    "map workflow_to_ref vs = pj_Workflows p" using assms(2) by (auto simp: stored_def)
  have "loadProjectWorkflows js db (pj_Name p) = sort_key dw_Name vs"
    unfolding loadProjectWorkflows_def vs(1) sort_key_map
    using scan_workflow_row [OF assms(1)] by (simp add: workflow_to_row_def comp_def)
  moreover have "sort_key wr_Name (pj_Workflows p) = map workflow_to_ref (sort_key dw_Name vs)"
    unfolding vs(2) [symmetric] sort_key_map by (simp add: workflow_to_ref_def)
  ultimately show ?thesis by simp
qed

lemma stored_triggers:
  assumes "json_ok js" "stored js db p"
  shows "image_mset (dt_ID_update (\<lambda>_. [])) (mset (loadProjectTriggers js db (pj_Name p))) = mset (map (trigger_to_db (pj_Name p)) (pj_Triggers p))"
proof -
  obtain us where us: "filter (\<lambda>r. tr_project_name r = pj_Name p) (db_triggers db) = map (trigger_to_row js) us"
    "map (dt_ID_update (\<lambda>_. [])) us = map (trigger_to_db (pj_Name p)) (pj_Triggers p)" using assms(2) by (auto simp: stored_def)
  have "loadProjectTriggers js db (pj_Name p) = sort_key dt_ID us"
    unfolding loadProjectTriggers_def us(1) sort_key_map
    using scan_trigger_row [OF assms(1)] by (simp add: trigger_to_row_def comp_def)
  then show ?thesis using us(2) by (metis mset_map mset_sort)
qed

text \<open>The watches of a project do not depend on the identifiers of its triggers.\<close>

definition db_watch :: "string \<Rightarrow> WorkflowRef list \<Rightarrow> DBTrigger \<Rightarrow> Watch" where
  "db_watch name refs t =
     \<lparr>wa_Name = name, wa_Repo = dt_Repo t, wa_PR = dt_PR t, wa_Branch = dt_Branch t, wa_Workflows = refs,
      wa_On = (if dt_OnEvents t = [] then [dt_Type t] else dt_OnEvents t)\<rparr>"

lemma db_watch_erase: "db_watch n refs t = db_watch n refs (t\<lparr>dt_ID := []\<rparr>)" "is_commit_trigger t = is_commit_trigger (t\<lparr>dt_ID := []\<rparr>)"
  by (simp_all add: db_watch_def is_commit_trigger_def)

lemma db_watch_config:
  "db_watch (pj_Name p) (sort_key wr_Name (pj_Workflows p)) (trigger_to_db n t) = trigger_watch p t"
  "is_commit_trigger (trigger_to_db n t) \<longleftrightarrow> tr_Type t = ''push'' \<or> tr_Type t = ''pull_request''"
  by (simp_all add: db_watch_def trigger_watch_def trigger_to_db_def is_commit_trigger_def)

lemma mset_project_watches:
  assumes "json_ok js" "stored js db p"
  shows "mset (project_watches (load_project js db (pj_Name p, d))) =
    mset (map (trigger_watch p) (filter (\<lambda>t. tr_Type t = ''push'' \<or> tr_Type t = ''pull_request'') (pj_Triggers p)))"
proof -
  let ?ts = "loadProjectTriggers js db (pj_Name p)" and ?refs = "sort_key wr_Name (pj_Workflows p)"
  let ?W = "\<lambda>M. image_mset (db_watch (pj_Name p) ?refs) (filter_mset is_commit_trigger M)"
  have erase: "?W (image_mset (dt_ID_update (\<lambda>_. [])) M) = ?W M" for M
    by (induction M) (auto simp: db_watch_erase [symmetric])
  have "mset (project_watches (load_project js db (pj_Name p, d))) = ?W (mset ?ts)"
    by (simp add: project_watches_def load_project_def stored_workflows [OF assms] db_watch_def [abs_def] mset_filter)
  also have "\<dots> = ?W (mset (map (trigger_to_db (pj_Name p)) (pj_Triggers p)))"
    using erase [of "mset ?ts"] unfolding stored_triggers [OF assms] by (rule sym)
  also have "\<dots> = mset (map (db_watch (pj_Name p) ?refs) (filter is_commit_trigger (map (trigger_to_db (pj_Name p)) (pj_Triggers p))))"
    by (simp add: mset_filter)
  also have "map (db_watch (pj_Name p) ?refs) (filter is_commit_trigger (map (trigger_to_db (pj_Name p)) (pj_Triggers p))) =
      map (trigger_watch p) (filter (\<lambda>t. tr_Type t = ''push'' \<or> tr_Type t = ''pull_request'') (pj_Triggers p))"
    by (simp add: filter_map comp_def db_watch_config)
  finally show ?thesis .
qed

lemma mset_concat_cong: "(\<And>x. x \<in> set xs \<Longrightarrow> mset (f x) = mset (g x)) \<Longrightarrow> mset (concat (map f xs)) = mset (concat (map g xs))"
  by (induction xs) auto

lemma mset_concat_map: "mset (concat (map f xs)) = \<Sum>\<^sub># (image_mset (\<lambda>x. mset (f x)) (mset xs))"
  by (simp only: mset_concat map_map sum_mset_sum_list [symmetric] mset_map comp_def)

lemma mset_concat_perm: "mset xs = mset ys \<Longrightarrow> mset (concat (map f xs)) = mset (concat (map f ys))"
  by (simp only: mset_concat_map)

lemma scan_all_map: "scan_all (\<lambda>r. Inr (f r)) rows = Inr (map f rows)"
  by (induction rows) auto

lemma watch_provider_seeded:
  assumes "json_ok js" "seeded js db ps"
  shows "\<exists>ws. watch_provider True js db = Inr ws \<and> mset ws =
    mset (concat (map (\<lambda>p. map (trigger_watch p) (filter (\<lambda>t. tr_Type t = ''push'' \<or> tr_Type t = ''pull_request'') (pj_Triggers p))) ps))"
proof -
  let ?f = "\<lambda>row. project_watches (load_project js db row)"
  have "watch_provider True js db = Inr (concat (map ?f (sort_key fst (db_projects db))))"
    by (simp add: watch_provider_def ListProjects_def query_rows_def scan_all_map comp_def)
  moreover have "mset (concat (map ?f (sort_key fst (db_projects db)))) = mset (concat (map ?f (db_projects db)))"
    by (rule mset_concat_perm) simp
  moreover have "concat (map ?f (db_projects db)) = concat (map (\<lambda>p. ?f (pj_Name p, [])) ps)"
    using assms(2) by (simp add: seeded_def comp_def)
  moreover have "mset (concat (map (\<lambda>p. ?f (pj_Name p, [])) ps)) =
    mset (concat (map (\<lambda>p. map (trigger_watch p) (filter (\<lambda>t. tr_Type t = ''push'' \<or> tr_Type t = ''pull_request'') (pj_Triggers p))) ps))"
    using assms by (intro mset_concat_cong mset_project_watches) (auto simp: seeded_def list_all_iff)
  ultimately show ?thesis by simp
qed

text \<open>
  What \<open>Run\<close> does with the store before it starts the goroutines: stale runs become errors, and a store without projects is seeded. The
  run control of the server is set in between.
\<close>

definition Run_start :: "bool \<Rightarrow> gtime \<Rightarrow> jsonlib \<Rightarrow> (nat \<Rightarrow> nat \<Rightarrow> string) \<Rightarrow> Config \<Rightarrow> DB \<Rightarrow> store_error option \<times> DB" where
  "Run_start alive now js ids cfg db = seedWatchesFromConfig alive js ids cfg (recoverStaleRuns alive now db)"

lemma UpdateRunStatus_only: "\<exists>rows. snd (UpdateRunStatus alive rid st code fin db) = db\<lparr>db_runs := rows\<rparr>"
  by (auto simp: UpdateRunStatus_def exec_def intro: exI [of _ "db_runs db"])

lemma recover_runs_only: "\<exists>rows. recover_runs alive now runs db = db\<lparr>db_runs := rows\<rparr>"
proof (induction runs arbitrary: db)
  case Nil
  show ?case by (rule exI [of _ "db_runs db"]) simp
next
  case (Cons run runs)
  obtain rows where "snd (UpdateRunStatus alive (ru_ID run) RunStatusError None (Some now) db) = db\<lparr>db_runs := rows\<rparr>"
    using UpdateRunStatus_only by blast
  with Cons.IH [of db] Cons.IH [of "db\<lparr>db_runs := rows\<rparr>"] show ?case by auto
qed

lemma recoverStaleRuns_only: "\<exists>rows. recoverStaleRuns alive now db = db\<lparr>db_runs := rows\<rparr>"
  using recover_runs_only by (auto simp: recoverStaleRuns_def intro: exI [of _ "db_runs db"] split: sum.split)

lemma ListProjects_runs: "ListProjects alive js (db\<lparr>db_runs := rows\<rparr>) = ListProjects alive js db"
  by (simp add: ListProjects_def load_project_def loadProjectWorkflows_def loadProjectTriggers_def query_rows_def cong: if_cong)

lemma watch_provider_runs: "watch_provider alive js (db\<lparr>db_runs := rows\<rparr>) = watch_provider alive js db"
  by (simp add: watch_provider_def ListProjects_runs)

lemma restart_keeps_watches:
  assumes "seeded js db ps" "ps \<noteq> []"
  shows "watch_provider True js (snd (Run_start True now js ids cfg (db\<lparr>db_runs := rows\<rparr>))) = watch_provider True js db"
proof -
  obtain rows' where r: "recoverStaleRuns True now (db\<lparr>db_runs := rows\<rparr>) = db\<lparr>db_runs := rows'\<rparr>"
    using recoverStaleRuns_only [of True now "db\<lparr>db_runs := rows\<rparr>"] by auto
  have "db_projects db \<noteq> []" using assms by (auto simp: seeded_def)
  then obtain p projects where "ListProjects True js db = Inr (p # projects)"
    by (cases "sort_key fst (db_projects db)") (auto simp: ListProjects_def query_rows_def scan_all_map dest: arg_cong [of _ _ length])
  then show ?thesis
    by (simp add: Run_start_def r seedWatchesFromConfig_def ListProjects_runs watch_provider_runs)
qed


text \<open>A codec for maps and lists, and a configuration with one legacy watch.\<close>

fun pair_up :: "string list \<Rightarrow> string gomap" where
  "pair_up (k # v # xs) = (k, v) # pair_up xs"
| "pair_up _ = []"

definition full_codec :: jsonlib where
  "full_codec = list_codec\<lparr>js_map := (\<lambda>m. js_list list_codec (concat (map (\<lambda>(k, v). [k, v]) m))),
     js_unmap := (\<lambda>s. map_option pair_up (js_unlist list_codec s))\<rparr>"

lemma full_codec_ok: "json_ok full_codec"
proof -
  have "pair_up (concat (map (\<lambda>(k, v). [k, v]) m)) = m" for m
    by (induction m) auto
  then show ?thesis
    using list_codec_ok by (simp add: json_ok_def full_codec_def)
qed

definition seed_config :: Config where
  "seed_config =
     \<lparr>cf_GitHub = \<lparr>gh_Token = [], gh_PollInterval = 0\<rparr>, cf_LogServer = \<lparr>ls_Bind = [], ls_RetentionDays = 0, ls_RetentionBytes = 0\<rparr>,
      cf_StorePath = [], cf_Runner = \<lparr>rc_DefaultImage = [], rc_WorkspaceDir = []\<rparr>, cf_MaxConcurrency = 1, cf_Projects = [],
      cf_Watches = [\<lparr>wa_Name = ''ci'', wa_Repo = ''o/r'', wa_PR = 0, wa_Branch = ''main'', wa_Workflows = [], wa_On = []\<rparr>]\<rparr>"


end
