(* ===== verification/Wiring.thy ===== *)
theory Wiring
  imports Start_Up Log_Session
begin

text \<open>
  How the parts are put together (\<open>daemon.New\<close>, with \<open>runner.NewPodman\<close>, \<open>logserver.New\<close>, \<open>poller.New\<close> and \<open>queue.New\<close>): the
  directories, the capacities of the channel, the queue and the semaphore, and what follows from them. \<open>home\<close> is what
  \<open>os.UserHomeDir\<close> returns, \<open>writable\<close> says which directories can be made, and \<open>opened\<close> that the store can be opened. The pruning of
  old worktrees is a command of git without an effect on the model, and the GitHub client is a parameter of the poller.
\<close>

datatype new_error = StoreDir | OpenStore | WorkspaceDir | LogDir

text \<open>
  \<open>None\<close> is the panic of \<open>make\<close> on a negative capacity. The product of the days and the hours wraps around as an \<open>int64\<close>; the
  capacities are those of a \<open>max_concurrency\<close> below \<open>2 ^ 61\<close>.
\<close>

record daemon_parts =
  dn_runner :: podman_runner
  dn_server :: Server
  dn_state :: daemon_state
  dn_initialBackoff :: int

definition NewPodman :: "string \<Rightarrow> string \<Rightarrow> string \<Rightarrow> podman_runner" where
  "NewPodman cacheDir workspaceDir defaultImage =
     \<lparr>pr_cacheDir = cacheDir, pr_workspaceDir = workspaceDir, pr_defaultImage = defaultImage, pr_JobCallback = None,
      pr_CurrentRunID = [], pr_stored = False\<rparr>"

definition logserver_New :: "string \<Rightarrow> string \<Rightarrow> string \<Rightarrow> int \<Rightarrow> int \<Rightarrow> Server" where
  "logserver_New bind logDir artifactDir maxBytes maxAge =
     \<lparr>sr_bind = bind, sr_logDir = logDir, sr_artifactDir = artifactDir, sr_maxBytes = maxBytes, sr_maxAge = maxAge, sr_rc = None\<rparr>"

definition initialBackoff :: int where
  "initialBackoff = 5 * second_ns"

definition daemon_New :: "(string \<Rightarrow> bool) \<Rightarrow> bool \<Rightarrow> string \<Rightarrow> Config \<Rightarrow> (new_error + daemon_parts) option" where
  "daemon_New writable opened home cfg =
     (if \<not> writable (path_dir (cf_StorePath cfg)) then Some (Inl StoreDir)
      else if \<not> opened then Some (Inl OpenStore)
      else if \<not> writable (rc_WorkspaceDir (cf_Runner cfg)) then Some (Inl WorkspaceDir)
      else
        (let logDir = path_join [home, ''.local'', ''share'', ''ghenkins'', ''logs'']
         in if \<not> writable logDir then Some (Inl LogDir)
            else if cf_MaxConcurrency cfg < 0 then None
            else Some (Inr
              \<lparr>dn_runner = NewPodman (path_join [home, ''.cache'', ''ghenkins'', ''repos'']) (rc_WorkspaceDir (cf_Runner cfg))
                             (rc_DefaultImage (cf_Runner cfg)),
               dn_server = logserver_New (ls_Bind (cf_LogServer cfg)) logDir (path_join [home, ''.cache'', ''ghenkins'', ''artifacts''])
                             (ls_RetentionBytes (cf_LogServer cfg))
                             (wrap64 (ls_RetentionDays (cf_LogServer cfg) * (24 * 3600 * nanos_per_second))),
               dn_state = daemon_init (nat (cf_MaxConcurrency cfg)), dn_initialBackoff = initialBackoff\<rparr>)))"

section \<open>The directories of artifacts\<close>

text \<open>The file that a step leaves as the artifact \<open>f\<close> of a run, and the file that the server sends for it.\<close>

definition kept_artifact :: "podman_runner \<Rightarrow> string \<Rightarrow> string \<Rightarrow> string" where
  "kept_artifact pr runID f = path_join [path_join [pr_cacheDir pr, ''artifacts'', runID], f]"

lemma kept_artifact_mount:
  assumes "find (\<lambda>b. jb_Container b = ''/artifacts'') (jb_ExtraBinds job) = None" "jx_cacheDir jx = pr_cacheDir pr" "ji_RunID info = runID"
  shows "path_join [fst (artifact_mount jx job info), f] = kept_artifact pr runID f"
  using assms by (simp add: artifact_mount_def kept_artifact_def Let_def del: path_join.simps)

lemma home_dirs:
  assumes "daemon_New writable opened (abs_path hs) cfg = Some (Inr d)" "list_all plain hs" "hs \<noteq> []"
  shows "pr_cacheDir (dn_runner d) = abs_path (hs @ [''.cache'', ''ghenkins'', ''repos''])"
    "sr_artifactDir (dn_server d) = abs_path (hs @ [''.cache'', ''ghenkins'', ''artifacts''])"
    "sr_logDir (dn_server d) = abs_path (hs @ [''.local'', ''share'', ''ghenkins'', ''logs''])"
  using assms path_join_abs [OF assms(2,3)]
  by (auto simp: daemon_New_def NewPodman_def logserver_New_def plain_def Let_def simp del: path_join.simps split: if_splits)

lemma kept_artifact_path:
  assumes "daemon_New writable opened (abs_path hs) cfg = Some (Inr d)" "list_all plain hs" "hs \<noteq> []" "plain runID" "plain f"
  shows "kept_artifact (dn_runner d) runID f = abs_path (hs @ [''.cache'', ''ghenkins'', ''repos'', ''artifacts'', runID, f])"
proof -
  have "list_all plain (hs @ [''.cache'', ''ghenkins'', ''repos''])" using assms(2) by (simp add: plain_def)
  then have "path_join [pr_cacheDir (dn_runner d), ''artifacts'', runID] = abs_path (hs @ [''.cache'', ''ghenkins'', ''repos'', ''artifacts'', runID])"
    using path_join_abs [of "hs @ [''.cache'', ''ghenkins'', ''repos'']" "[''artifacts'', runID]"] assms(4)
    by (simp add: home_dirs [OF assms(1,2,3)] plain_def del: path_join.simps)
  moreover have "list_all plain (hs @ [''.cache'', ''ghenkins'', ''repos'', ''artifacts'', runID])" using assms(2,4) by (simp add: plain_def)
  ultimately show ?thesis
    using path_join_abs [of "hs @ [''.cache'', ''ghenkins'', ''repos'', ''artifacts'', runID]" "[f]"] assms(5)
    by (simp add: kept_artifact_def del: path_join.simps)
qed

lemma served_artifact_path:
  assumes "daemon_New writable opened (abs_path hs) cfg = Some (Inr d)" "list_all plain hs" "hs \<noteq> []" "plain runID" "plain f"
  shows "path_join [sr_artifactDir (dn_server d), runID, f] = abs_path (hs @ [''.cache'', ''ghenkins'', ''artifacts'', runID, f])"
proof -
  have "list_all plain (hs @ [''.cache'', ''ghenkins'', ''artifacts''])" using assms(2) by (simp add: plain_def)
  then show ?thesis
    using path_join_abs [of "hs @ [''.cache'', ''ghenkins'', ''artifacts'']" "[runID, f]"] assms(4,5)
    by (simp add: home_dirs [OF assms(1,2,3)] del: path_join.simps)
qed

text \<open>
  The artifacts of a run cannot be downloaded: in the program as \<open>New\<close> wires it, the file that a job leaves as an artifact is
  never the one that the server reads for it, whatever the run and the artifact of the request are called. The response to a request for
  an artifact is the same with the file and without it.
\<close>

lemma artifacts_not_served:
  assumes new: "daemon_New writable opened (abs_path hs) cfg = Some (Inr d)" "list_all plain hs" "hs \<noteq> []"
    and names: "plain runID" "plain f" "plain rid" "plain g"
  shows "fst (handleGetArtifact (dn_server d) env rid g r (st\<lparr>sv_fs := mput (kept_artifact (dn_runner d) runID f) content (sv_fs st)\<rparr>)) =
    fst (handleGetArtifact (dn_server d) env rid g r st)"
proof -
  define A where "A = hs @ [''.cache'', ''ghenkins'', ''artifacts'', rid, g]"
  define B where "B = hs @ [''.cache'', ''ghenkins'', ''repos'', ''artifacts'', runID, f]"
  have "length A \<noteq> length B" by (simp add: A_def B_def)
  then have "A \<noteq> B" by blast
  moreover have "list_all plain A" "list_all plain B" "A \<noteq> []" "B \<noteq> []"
    using new(2) names by (simp_all add: plain_def A_def B_def)
  ultimately have "abs_path A \<noteq> abs_path B" by (simp add: abs_path_inject)
  then have "path_join [sr_artifactDir (dn_server d), rid, g] \<noteq> kept_artifact (dn_runner d) runID f"
    unfolding served_artifact_path [OF new names(3,4)] kept_artifact_path [OF new names(1,2)] A_def B_def .
  then show ?thesis
    by (simp add: handleGetArtifact_def ServeFile_def del: path_join.simps split: sum.split)
qed

text \<open>A run with an artifact whose file is there, and the answer to the request for it.\<close>

definition artifact_site :: server_state where
  "artifact_site =
     sample_site\<lparr>sv_db := (sv_db sample_site)\<lparr>db_artifacts := [\<lparr>ar_id = ''a'', ar_run_id = ''r1'', ar_filename = ''out.txt'', ar_size = 2,
        ar_sha256 = [], ar_created_at = []\<rparr>]\<rparr>\<rparr>"

lemma artifacts_not_served_witness:
  "\<exists>d. daemon_New (\<lambda>_. True) True (abs_path [''root'']) seed_config = Some (Inr d) \<and>
     rs_status (fst (handleGetArtifact (dn_server d) sample_http ''r1'' ''out.txt''
       (sample_request ''GET'' [''runs'', ''r1'', ''artifacts'', ''out.txt''] (Some ''tok'') [])
       (artifact_site\<lparr>sv_fs := [(kept_artifact (dn_runner d) ''r1'' ''out.txt'', ''ok'')]\<rparr>))) = 404"
proof -
  obtain d where d: "daemon_New (\<lambda>_. True) True (abs_path [''root'']) seed_config = Some (Inr d)"
    by (auto simp: daemon_New_def seed_config_def Let_def)
  let ?r = "sample_request ''GET'' [''runs'', ''r1'', ''artifacts'', ''out.txt''] (Some ''tok'') []"
  let ?st = "artifact_site"
  have fs: "sv_fs ?st = []" by (simp add: artifact_site_def sample_site_def)
  have "rs_status (fst (handleGetArtifact (dn_server d) sample_http ''r1'' ''out.txt'' ?r ?st)) = 404"
    by (simp add: handleGetArtifact_def artifact_site_def sample_site_defs ListRunArtifacts_def query_rows_def scanArtifact_def
        ServeFile_def NotFound_def textError_def writeJSON_def HasSuffix_def del: path_join.simps)
  then show ?thesis
    using artifacts_not_served [OF d, of "''r1''" "''out.txt''" "''r1''" "''out.txt''" sample_http ?r "''ok''" ?st] d fs
    by (auto simp: plain_def)
qed

end
