(* ===== verification/Cli.thy ===== *)
theory Cli
  imports Config Secrets Store
begin

text \<open>
  The command line (\<open>internal/cli\<close>): the commands on secrets, runs and watches behind the common loading of the configuration. The
  parsing of the arguments is that of cobra; a command has as many arguments as \<open>cobra.ExactArgs\<close> admits. The output is the list of
  the lines on standard output. What the commands take from outside is the record \<open>cli_env\<close>, with the prompt for a
  secret.
\<close>

datatype command =
    RunsList | RunsRetry | RunsCancel
  | SecretsSet string string | SecretsGet string string | SecretsDelete string string | SecretsList string
  | WatchList | WatchAdd | WatchRm

datatype cli_error =
    InvalidLogLevel
  | LoadConfig config_error
  | CliOpenStore
  | CliListRuns store_error
  | ReadPassword
  | NoSecretStore
  | CliSecret secret_error

record cli_env =
  ce_level :: "string \<Rightarrow> bool"
  ce_load :: "string \<Rightarrow> config_error + Config"
  ce_openStore :: "string \<Rightarrow> DB option"
  ce_home :: "string option"
  ce_writable :: "string \<Rightarrow> bool"
  ce_json :: string_json
  ce_readPassword :: "string option"

definition PersistentPreRunE :: "cli_env \<Rightarrow> string \<Rightarrow> string \<Rightarrow> cli_error + Config" where
  "PersistentPreRunE ce cfgPath logLevel =
     (if \<not> ce_level ce logLevel then Inl InvalidLogLevel
      else (case ce_load ce cfgPath of Inl e \<Rightarrow> Inl (LoadConfig e) | Inr cfg \<Rightarrow> Inr cfg))"

section \<open>Runs and watches\<close>

text \<open>The verb \<open>%-ns\<close> of \<open>fmt\<close>: a column is filled up to \<open>n\<close> characters, counted as the bytes that start one in UTF-8.\<close>

definition rune_count :: "string \<Rightarrow> nat" where
  "rune_count s = length (filter (\<lambda>c. (of_char c :: nat) div 64 \<noteq> 2) s)"

definition pad :: "nat \<Rightarrow> string \<Rightarrow> string" where
  "pad n s = s @ replicate (n - rune_count s) (CHR '' '')"

definition run_line :: "string list \<Rightarrow> string" where
  "run_line cells =
     (case cells of
        [a, b, c, d, e, f, g] \<Rightarrow> Join [pad 8 a, pad 20 b, pad 25 c, pad 8 d, pad 20 e, pad 10 f, g] ''  ''
      | _ \<Rightarrow> [])"

definition run_cells :: "Run \<Rightarrow> string list" where
  "run_cells r =
     [take 8 (ru_ID r), ru_WatchName r, ru_Repo r, take 8 (ru_SHA r), ru_WorkflowName r, ru_Status r,
      case ru_FinishedAt r of None \<Rightarrow> ''running'' | Some t \<Rightarrow> Duration_String (Round_second (time_Sub t (ru_StartedAt r)))]"

definition runsList :: "cli_env \<Rightarrow> Config \<Rightarrow> cli_error + string list" where
  "runsList ce cfg =
     (case ce_openStore ce (cf_StorePath cfg) of
        None \<Rightarrow> Inl CliOpenStore
      | Some db \<Rightarrow>
          (case ListRuns True 50 db of
             Inl e \<Rightarrow> Inl (CliListRuns e)
           | Inr runs \<Rightarrow> Inr (run_line [''ID'', ''WATCH'', ''REPO'', ''SHA'', ''WORKFLOW'', ''STATUS'', ''DURATION''] #
                               map (\<lambda>r. run_line (run_cells r)) runs)))"

definition watchList :: "Config \<Rightarrow> string list" where
  "watchList cfg =
     (if cf_Watches cfg = [] then [''no watches configured'']
      else (pad 20 ''NAME'' @ ''  REPO'') # map (\<lambda>w. pad 20 (wa_Name w) @ ''  '' @ wa_Repo w) (cf_Watches cfg))"

section \<open>Secrets\<close>

definition open_secrets :: "cli_env \<Rightarrow> cli_error + string" where
  "open_secrets ce =
     (case ce_home ce of
        None \<Rightarrow> Inl NoSecretStore
      | Some home \<Rightarrow>
          (let dir = secrets_New home ''ghenkins'' in if ce_writable ce dir then Inr dir else Inl NoSecretStore))"

definition secretsSet :: "cli_env \<Rightarrow> string \<Rightarrow> string \<Rightarrow> file_system \<Rightarrow> cli_error option \<times> file_system" where
  "secretsSet ce watchName key fs =
     (case ce_readPassword ce of
        None \<Rightarrow> (Some ReadPassword, fs)
      | Some value \<Rightarrow>
          (case open_secrets ce of
             Inl e \<Rightarrow> (Some e, fs)
           | Inr dir \<Rightarrow> (case secret_Set (ce_json ce) (ce_writable ce) dir watchName key value fs of
                           (e, fs') \<Rightarrow> (map_option CliSecret e, fs'))))"

definition secretsGet :: "cli_env \<Rightarrow> string \<Rightarrow> string \<Rightarrow> file_system \<Rightarrow> cli_error + string list" where
  "secretsGet ce watchName key fs =
     (case open_secrets ce of
        Inl e \<Rightarrow> Inl e
      | Inr dir \<Rightarrow> (case secret_Get (ce_json ce) dir watchName key fs of Inl e \<Rightarrow> Inl (CliSecret e) | Inr value \<Rightarrow> Inr [value]))"

definition secretsDelete :: "cli_env \<Rightarrow> string \<Rightarrow> string \<Rightarrow> file_system \<Rightarrow> cli_error option \<times> file_system" where
  "secretsDelete ce watchName key fs =
     (case open_secrets ce of
        Inl e \<Rightarrow> (Some e, fs)
      | Inr dir \<Rightarrow> (case secret_Delete (ce_writable ce) dir watchName key fs of (e, fs') \<Rightarrow> (map_option CliSecret e, fs')))"

definition secretsList :: "cli_env \<Rightarrow> string \<Rightarrow> file_system \<Rightarrow> cli_error + string list" where
  "secretsList ce watchName fs =
     (case open_secrets ce of Inl e \<Rightarrow> Inl e | Inr dir \<Rightarrow> Inr (secret_List dir watchName fs))"

section \<open>Execution\<close>

definition run_command :: "cli_env \<Rightarrow> Config \<Rightarrow> command \<Rightarrow> file_system \<Rightarrow> (cli_error + string list) \<times> file_system" where
  "run_command ce cfg cmd fs =
     (let silent = (\<lambda>(e, fs'). (case e of None \<Rightarrow> Inr [] | Some e \<Rightarrow> Inl e, fs'))
      in case cmd of
           RunsList \<Rightarrow> (runsList ce cfg, fs)
         | SecretsSet w k \<Rightarrow> silent (secretsSet ce w k fs)
         | SecretsGet w k \<Rightarrow> (secretsGet ce w k fs, fs)
         | SecretsDelete w k \<Rightarrow> silent (secretsDelete ce w k fs)
         | SecretsList w \<Rightarrow> (secretsList ce w fs, fs)
         | WatchList \<Rightarrow> (Inr (watchList cfg), fs)
         | _ \<Rightarrow> (Inr [''not yet implemented''], fs))"

text \<open>\<open>Execute\<close>: the exit code, the output and the files.\<close>

definition Execute :: "cli_env \<Rightarrow> string \<Rightarrow> string \<Rightarrow> command \<Rightarrow> file_system \<Rightarrow> int \<times> string list \<times> file_system" where
  "Execute ce cfgPath logLevel cmd fs =
     (case PersistentPreRunE ce cfgPath logLevel of
        Inl _ \<Rightarrow> (1, [], fs)
      | Inr cfg \<Rightarrow>
          (case run_command ce cfg cmd fs of
             (Inl _, fs') \<Rightarrow> (1, [], fs')
           | (Inr out, fs') \<Rightarrow> (0, out, fs')))"

section \<open>Properties\<close>

lemma secret_Get_Set:
  "secret_Set sj w dir s k v fs = (None, fs') \<Longrightarrow> sj_dec sj (sj_enc sj v) = Some v \<Longrightarrow> secret_Get sj dir s k fs' = Inr v"
  by (auto simp: secret_Set_def secret_Get_def split: if_splits)

text \<open>
  A secret that was set on the command line is printed by the next \<open>get\<close>, and after a \<open>delete\<close> that succeeds it is not there any more.
  Every command fails, and changes nothing, without a valid configuration.
\<close>

lemma cli_secrets:
  assumes set: "Execute ce cfgPath logLevel (SecretsSet w k) fs = (0, out, fs')" "ce_readPassword ce = Some value"
    and codec: "sj_dec (ce_json ce) (sj_enc (ce_json ce) value) = Some value"
    and del: "Execute ce cfgPath logLevel (SecretsDelete w k) fs' = (0, out2, fs2)"
  shows "Execute ce cfgPath logLevel (SecretsGet w k) fs' = (0, [value], fs') \<and>
    Execute ce cfgPath logLevel (SecretsGet w k) fs2 = (1, [], fs2) \<and>
    (\<forall>cmd path e. PersistentPreRunE ce path logLevel = Inl e \<longrightarrow> Execute ce path logLevel cmd fs = (1, [], fs))"
proof -
  obtain cfg where cfg: "PersistentPreRunE ce cfgPath logLevel = Inr cfg"
    using set(1) by (auto simp: Execute_def split: sum.splits)
  then obtain dir where dir: "open_secrets ce = Inr dir"
    using set by (cases "open_secrets ce") (auto simp: Execute_def run_command_def secretsSet_def)
  obtain e where s: "secret_Set (ce_json ce) (ce_writable ce) dir w k value fs = (e, fs')" "e = None"
    using set cfg dir by (cases "secret_Set (ce_json ce) (ce_writable ce) dir w k value fs")
      (auto simp: Execute_def run_command_def secretsSet_def split: option.splits)
  obtain e2 where d: "secret_Delete (ce_writable ce) dir w k fs' = (e2, fs2)" "e2 = None"
    using del cfg dir by (cases "secret_Delete (ce_writable ce) dir w k fs'")
      (auto simp: Execute_def run_command_def secretsDelete_def split: option.splits)
  have "secret_Get (ce_json ce) dir w k fs' = Inr value"
    using s codec secret_Get_Set by blast
  moreover have "map_of fs2 (secret_path dir w k) = None"
    using d by (auto simp: secret_Delete_def Let_def split: if_splits)
  then have "secret_Get (ce_json ce) dir w k fs2 = Inl (SecretNotFound k w)"
    by (simp add: secret_Get_def)
  ultimately show ?thesis
    using cfg dir by (simp add: Execute_def run_command_def secretsGet_def)
qed

definition sample_cli :: cli_env where
  "sample_cli =
     \<lparr>ce_level = (\<lambda>l. l = ''info''), ce_load = (\<lambda>p. if p = ''c'' then Inr (applyDefaults ''/h'' (\<lambda>_. [])
        \<lparr>cf_GitHub = \<lparr>gh_Token = [], gh_PollInterval = 0\<rparr>, cf_LogServer = \<lparr>ls_Bind = [], ls_RetentionDays = 0, ls_RetentionBytes = 0\<rparr>,
         cf_StorePath = [], cf_Runner = \<lparr>rc_DefaultImage = [], rc_WorkspaceDir = []\<rparr>, cf_MaxConcurrency = 0, cf_Projects = [], cf_Watches = []\<rparr>)
        else Inl ReadConfig), ce_openStore = (\<lambda>_. None), ce_home = Some ''/h'', ce_writable = (\<lambda>_. True),
      ce_json = \<lparr>sj_enc = (\<lambda>s. ''q'' @ s), sj_dec = (\<lambda>s. Some (tl s))\<rparr>, ce_readPassword = Some ''v''\<rparr>"

lemma cli_secrets_witness:
  "\<exists>fs'. Execute sample_cli ''c'' ''info'' (SecretsSet ''w'' ''k'') [] = (0, [], fs') \<and>
     Execute sample_cli ''c'' ''info'' (SecretsGet ''w'' ''k'') fs' = (0, [''v''], fs')"
proof -
  have "fst (Execute sample_cli ''c'' ''info'' (SecretsSet ''w'' ''k'') []) = 0"
    "fst (snd (Execute sample_cli ''c'' ''info'' (SecretsSet ''w'' ''k'') [])) = []" by code_simp+
  then obtain fs' where s: "Execute sample_cli ''c'' ''info'' (SecretsSet ''w'' ''k'') [] = (0, [], fs')" by (metis prod.collapse)
  obtain c out2 fs2 where d: "Execute sample_cli ''c'' ''info'' (SecretsDelete ''w'' ''k'') fs' = (c, out2, fs2)" by (metis prod.collapse)
  have "c = 0"
    using d by (auto simp: Execute_def PersistentPreRunE_def sample_cli_def run_command_def secretsDelete_def open_secrets_def
        secret_Delete_def Let_def simp del: path_join.simps split: if_splits)
  from cli_secrets [OF s _ _ d [unfolded this]] s show ?thesis by (auto simp: sample_cli_def)
qed

end
